theory Spec2Isabelle
  imports Complex_Main "HOL-Library.Sublist" "HOL-Library.AList" "HOL-Library.Multiset"
begin

section \<open>Python strings\<close>

text \<open>
  A Python \<open>str\<close> is a sequence of code points. The model uses \<^typ>\<open>string\<close> and reads a
  \<^typ>\<open>char\<close> as the code point of the same number, so it covers the prompts whose code
  points are below 256 (ASCII and Latin-1). For these, \<open>str.split()\<close> separates at the
  code points 9 to 13, 28 to 32, 133 and 160, and \<open>str.lower()\<close> adds 32 to the code
  points 65 to 90 and 192 to 222 (215, the multiplication sign, apart).
\<close>

definition is_space :: "char \<Rightarrow> bool" where
  "is_space c = (of_char c \<in> {9::nat, 10, 11, 12, 13, 28, 29, 30, 31, 32, 133, 160})"

definition lower_char :: "char \<Rightarrow> char" where
  "lower_char c =
     (let n = (of_char c :: nat)
      in if (65 \<le> n \<and> n \<le> 90) \<or> (192 \<le> n \<and> n \<le> 222 \<and> n \<noteq> 215)
         then char_of (n + 32) else c)"

definition lower :: "string \<Rightarrow> string" where
  "lower s = map lower_char s"

text \<open>\<open>s.split()\<close>: the maximal runs of characters that are not white space.\<close>

function split_ws :: "string \<Rightarrow> string list" where
  "split_ws [] = []"
| "split_ws (c # cs) =
     (if is_space c then split_ws cs
      else (c # takeWhile (\<lambda>d. \<not> is_space d) cs) # split_ws (dropWhile (\<lambda>d. \<not> is_space d) cs))"
  by pat_completeness auto
termination
  by (relation "measure length") (auto simp: length_dropWhile_le less_Suc_eq_le)

text \<open>\<open>s.rstrip('/')\<close>.\<close>

definition rstrip_slash :: "string \<Rightarrow> string" where
  "rstrip_slash s = rev (dropWhile (\<lambda>c. c = CHR ''/'') (rev s))"

text \<open>
  \<open>kw in s\<close> on two strings holds when \<open>kw\<close> is a contiguous part of \<open>s\<close>; this is
  \<^const>\<open>sublist\<close>, which is executable.
\<close>

text \<open>\<open>str(n)\<close> for a natural number: its decimal digits.\<close>

definition digit_char :: "nat \<Rightarrow> char" where
  "digit_char d = (''0123456789'' ! d)"

function show_nat :: "nat \<Rightarrow> string" where
  "show_nat n = (if n < 10 then [digit_char n] else show_nat (n div 10) @ [digit_char (n mod 10)])"
  by pat_completeness auto
termination
  by (relation "measure id") auto

declare show_nat.simps [simp del]

text \<open>\<open>sep.join(xs)\<close>.\<close>

fun join :: "string \<Rightarrow> string list \<Rightarrow> string" where
  "join sep [] = []"
| "join sep [x] = x"
| "join sep (x # y # ys) = x @ sep @ join sep (y # ys)"

section \<open>Configuration (config.py)\<close>

record Endpoint =
  url :: string
  api_key :: string
  name :: string

record ModelEntry =
  model_id :: string
  tier :: string
  endpoint :: Endpoint
  expected_latency_s :: real

record SwarmConfig =
  primary :: Endpoint
  secondary :: "Endpoint option"
  knowledge_url :: "string option"
  timeout_fast :: "real \<times> real"
  timeout_power :: "real \<times> real"
  timeout_deep :: "real \<times> real"
  models :: "ModelEntry list"
  t1_max_words :: int
  t2_max_words :: int
  deep_keywords :: "string set"

text \<open>The default value of the field \<open>deep_keywords\<close>.\<close>

definition default_deep_keywords :: "string set" where
  "default_deep_keywords =
     {''compare'', ''analyze'', ''tradeoffs'', ''architecture'', ''design'', ''research'',
      ''explain in detail'', ''step by step'', ''why'', ''how does'', ''evaluate'',
      ''pros and cons'', ''difference between''}"

definition add_model :: "SwarmConfig \<Rightarrow> string \<Rightarrow> string \<Rightarrow> Endpoint option \<Rightarrow> real \<Rightarrow> SwarmConfig" where
  "add_model cfg mid t ep lat =
     cfg\<lparr>models := models cfg @
        [\<lparr>model_id = mid, tier = t,
          endpoint = (case ep of None \<Rightarrow> primary cfg | Some e \<Rightarrow> e),
          expected_latency_s = lat\<rparr>]\<rparr>"

definition get_tier_models :: "SwarmConfig \<Rightarrow> string \<Rightarrow> ModelEntry list" where
  "get_tier_models cfg t = filter (\<lambda>m. tier m = t) (models cfg)"

definition get_tier_timeout :: "SwarmConfig \<Rightarrow> string \<Rightarrow> real \<times> real" where
  "get_tier_timeout cfg t =
     (if t = ''T1'' \<or> t = ''fast'' then timeout_fast cfg
      else if t = ''T2'' \<or> t = ''power'' then timeout_power cfg
      else if t = ''T3'' \<or> t = ''deep'' then timeout_deep cfg
      else timeout_power cfg)"

definition classify_complexity :: "SwarmConfig \<Rightarrow> string \<Rightarrow> string" where
  "classify_complexity cfg prompt =
     (let words = int (length (split_ws prompt));
          has_deep = (\<exists>kw \<in> deep_keywords cfg. sublist kw (lower prompt))
      in if has_deep \<or> words > t2_max_words cfg then ''T3''
         else if words > t1_max_words cfg then ''T2''
         else ''T1'')"

text \<open>
  The classifier as the specification words it: a deep keyword matches when it occurs in
  the prompt as a substring, letter case ignored on both sides.
\<close>

definition ci_substring :: "string \<Rightarrow> string \<Rightarrow> bool" where
  "ci_substring kw s = sublist (lower kw) (lower s)"

definition classify_spec :: "SwarmConfig \<Rightarrow> string \<Rightarrow> string" where
  "classify_spec cfg prompt =
     (if (\<exists>kw \<in> deep_keywords cfg. ci_substring kw prompt)
         \<or> int (length (split_ws prompt)) > t2_max_words cfg then ''T3''
      else if int (length (split_ws prompt)) > t1_max_words cfg then ''T2''
      else ''T1'')"

section \<open>Python values, exceptions and the outside world\<close>

text \<open>
  What \<open>json\<close> decoding returns: \<open>None\<close>, booleans, numbers, strings, lists and
  dictionaries with string keys (an association list, looked up with \<^const>\<open>map_of\<close>).
\<close>

datatype pyval =
    PNone
  | PBool bool
  | PInt int
  | PFloat real
  | PStr string
  | PList "pyval list"
  | PDict "(string \<times> pyval) list"

text \<open>
  An exception is its class and the text \<open>str(exc)\<close>. \<open>OtherError\<close> stands for every
  other subclass of \<open>Exception\<close> (connection errors, HTTP errors, JSON decoding errors).
  The text of an exception that the interpreter itself raises is abbreviated here.
\<close>

datatype exn_class =
  TimeoutError | RuntimeError | KeyError | IndexError | TypeError | AttributeError
  | ValueError | OtherError

datatype pyexn = PyExn exn_class string

fun exn_class_of :: "pyexn \<Rightarrow> exn_class" where
  "exn_class_of (PyExn c m) = c"

fun exn_str :: "pyexn \<Rightarrow> string" where
  "exn_str (PyExn c m) = m"

text \<open>Truth value of an object in a condition.\<close>

fun truthy :: "pyval \<Rightarrow> bool" where
  "truthy PNone = False"
| "truthy (PBool b) = b"
| "truthy (PInt i) = (i \<noteq> 0)"
| "truthy (PFloat x) = (x \<noteq> 0)"
| "truthy (PStr s) = (s \<noteq> [])"
| "truthy (PList xs) = (xs \<noteq> [])"
| "truthy (PDict kvs) = (kvs \<noteq> [])"

text \<open>
  \<open>v[k]\<close> for a string key \<open>k\<close>. The text of a \<open>KeyError\<close> is the \<open>repr\<close> of the key: the key
  in single quotes, for a key without quote, backslash or control character, as are all
  keys the program looks up.
\<close>

definition repr_key :: "string \<Rightarrow> string" where
  "repr_key k = [CHR 0x27] @ k @ [CHR 0x27]"

fun getitem_str :: "pyval \<Rightarrow> string \<Rightarrow> pyexn + pyval" where
  "getitem_str (PDict kvs) k =
     (case map_of kvs k of Some v \<Rightarrow> Inr v | None \<Rightarrow> Inl (PyExn KeyError (repr_key k)))"
| "getitem_str v k = Inl (PyExn TypeError ''indices must be integers'')"

text \<open>
  \<open>v[0]\<close>. A decoded dictionary has string keys only, so the key \<open>0\<close> is never there.
\<close>

fun getitem_0 :: "pyval \<Rightarrow> pyexn + pyval" where
  "getitem_0 (PList xs) =
     (case xs of [] \<Rightarrow> Inl (PyExn IndexError ''list index out of range'') | x # _ \<Rightarrow> Inr x)"
| "getitem_0 (PStr s) =
     (case s of [] \<Rightarrow> Inl (PyExn IndexError ''string index out of range'') | c # _ \<Rightarrow> Inr (PStr [c]))"
| "getitem_0 (PDict kvs) = Inl (PyExn KeyError ''0'')"
| "getitem_0 v = Inl (PyExn TypeError ''object is not subscriptable'')"

text \<open>\<open>v.get(k, d)\<close>: only a dictionary has the method.\<close>

fun dict_get :: "pyval \<Rightarrow> string \<Rightarrow> pyval \<Rightarrow> pyexn + pyval" where
  "dict_get (PDict kvs) k d = Inr (case map_of kvs k of Some v \<Rightarrow> v | None \<Rightarrow> d)"
| "dict_get v k d = Inl (PyExn AttributeError ''object has no attribute get'')"

subsection \<open>Floats\<close>

text \<open>
  Python floats are IEEE 754 doubles (binary64). A float is modelled by the real number
  it stands for. An operation on floats gives the exact result rounded to the nearest
  double, a tie to the double whose significand is even; \<open>binade x\<close> is the exponent of
  the power of two at or below a positive \<open>x\<close>, and \<open>ulp x\<close> the distance between the
  doubles around \<open>x\<close> (there are 53 bits of significand, and the least exponent of a normal
  double is \<open>-1022\<close>). Infinities and \<open>NaN\<close> are not modelled: the model is that of the
  program on finite floats whose operations do not overflow, as is the case for the
  length of every string and for every time below ten to the power 300 seconds.
\<close>

function binade :: "real \<Rightarrow> int" where
  "binade x =
     (if x \<le> 0 then 0
      else if 2 \<le> x then binade (x / 2) + 1
      else if x < 1 then binade (x * 2) - 1
      else 0)"
  by pat_completeness auto
termination
proof (relation "measure (\<lambda>x. nat \<lceil>x\<rceil> + 2 * nat \<lceil>1 / x\<rceil>)", goal_cases)
  case 1
  show ?case by simp
next
  case (2 x)
  then have x: "2 \<le> x" by simp
  have "\<lceil>x / 2\<rceil> < \<lceil>x\<rceil>"
  proof -
    from x have "2 \<le> real_of_int \<lceil>x\<rceil>" by linarith
    moreover have "x \<le> real_of_int \<lceil>x\<rceil>" by (rule le_of_int_ceiling)
    ultimately have "x / 2 \<le> real_of_int \<lceil>x\<rceil> - 1" by linarith
    then have "x / 2 \<le> real_of_int (\<lceil>x\<rceil> - 1)" by simp
    then have "\<lceil>x / 2\<rceil> \<le> \<lceil>x\<rceil> - 1" by (simp only: ceiling_le_iff)
    then show ?thesis by simp
  qed
  moreover from x have "\<lceil>1 / (x / 2)\<rceil> = 1" and "\<lceil>1 / x\<rceil> = 1"
    by (simp_all add: ceiling_eq_iff)
  moreover from x have "0 < \<lceil>x\<rceil>" by linarith
  ultimately show ?case by simp
next
  case (3 x)
  then have x: "0 < x" "x < 1" by simp_all
  then have c: "\<lceil>x\<rceil> = 1" by (simp add: ceiling_eq_iff)
  from x have "\<lceil>x * 2\<rceil> \<le> 2" by (simp add: ceiling_le_iff)
  then have a: "nat \<lceil>x * 2\<rceil> \<le> 2" by simp
  define y where "y = 1 / x"
  from x have y: "1 < y" by (simp add: y_def)
  have "\<lceil>y / 2\<rceil> < \<lceil>y\<rceil>"
  proof -
    from y have "1 < \<lceil>y\<rceil>" by (simp add: less_ceiling_iff)
    then have "2 \<le> real_of_int \<lceil>y\<rceil>" by linarith
    moreover have "y \<le> real_of_int \<lceil>y\<rceil>" by (rule le_of_int_ceiling)
    ultimately have "y / 2 \<le> real_of_int \<lceil>y\<rceil> - 1" by linarith
    then have "y / 2 \<le> real_of_int (\<lceil>y\<rceil> - 1)" by simp
    then have "\<lceil>y / 2\<rceil> \<le> \<lceil>y\<rceil> - 1" by (simp only: ceiling_le_iff)
    then show ?thesis by simp
  qed
  then have "\<lceil>1 / (x * 2)\<rceil> < \<lceil>1 / x\<rceil>" by (simp add: y_def)
  moreover from x have "0 < \<lceil>1 / (x * 2)\<rceil>" by (simp add: less_ceiling_iff)
  ultimately have b: "nat \<lceil>1 / (x * 2)\<rceil> < nat \<lceil>1 / x\<rceil>" by simp
  from c have "nat \<lceil>x\<rceil> = 1" by simp
  with a b have "nat \<lceil>x * 2\<rceil> + 2 * nat \<lceil>1 / (x * 2)\<rceil> < nat \<lceil>x\<rceil> + 2 * nat \<lceil>1 / x\<rceil>"
    by linarith
  then show ?case by (simp only: in_measure)
qed

declare binade.simps [simp del]

definition pow2 :: "int \<Rightarrow> real" where
  "pow2 e = (if 0 \<le> e then 2 ^ nat e else 1 / 2 ^ nat (- e))"

definition ulp :: "real \<Rightarrow> real" where
  "ulp x = pow2 (max (binade \<bar>x\<bar>) (- 1022) - 52)"

text \<open>The integer nearest to \<open>y\<close>, the even one of the two when \<open>y\<close> is halfway.\<close>

definition round_even :: "real \<Rightarrow> int" where
  "round_even y =
     (let f = \<lfloor>y\<rfloor>; d = y - of_int f
      in if d < 1 / 2 then f else if 1 / 2 < d then f + 1 else if even f then f else f + 1)"

definition round_double :: "real \<Rightarrow> real" where
  "round_double x = of_int (round_even (x / ulp x)) * ulp x"

definition float_add :: "real \<Rightarrow> real \<Rightarrow> real" where
  "float_add x y = round_double (x + y)"

definition float_sub :: "real \<Rightarrow> real \<Rightarrow> real" where
  "float_sub x y = round_double (x - y)"

definition float_div :: "real \<Rightarrow> real \<Rightarrow> real" where
  "float_div x y = round_double (x / y)"

text \<open>
  \<open>round(x, 2)\<close> on a float: the number of hundredths nearest to \<open>x\<close>, a tie to the even
  one, and then the double nearest to that decimal number.
\<close>

definition py_round2 :: "real \<Rightarrow> real" where
  "py_round2 x = round_double (of_int (round_even (x * 100)) / 100)"

type_synonym headers = "(string \<times> string) list"

text \<open>
  The world outside the program has a state of type \<open>'w\<close>; every network request reads and
  changes it. The record \<open>env\<close> holds what the program calls but does not define:
  \<^item> \<open>py_repr\<close>: \<open>str(v)\<close> of a value that is not a string;
  \<^item> \<open>json_dumps\<close>: \<open>json.dumps\<close>;
  \<^item> \<open>monotonic\<close>: \<open>time.monotonic()\<close>; \<open>strftime_now\<close>: the formatted current time;
  \<^item> \<open>http_post_json\<close>: \<open>_SESSION.post(url, headers, json, timeout)\<close> followed by
    \<open>raise_for_status()\<close> and \<open>json()\<close>: an exception or the decoded body;
  \<^item> \<open>http_post_status\<close>: the same without decoding the body;
  \<^item> \<open>http_get_status\<close>: \<open>requests.get(url, headers, timeout)\<close>: an exception or the
    status code;
  \<^item> \<open>urlopen_json\<close>: \<open>_http_post\<close> of swarm.py awaited under \<open>asyncio.wait_for\<close>;
  \<^item> \<open>done_after\<close>: for a batch of futures submitted to a thread pool in state \<open>w\<close>,
    \<open>done_after w i\<close> is the number of seconds after which the \<open>i\<close>-th one is done.
\<close>

record 'w env =
  py_repr :: "pyval \<Rightarrow> string"
  json_dumps :: "pyval \<Rightarrow> string"
  monotonic :: "'w \<Rightarrow> real"
  strftime_now :: "'w \<Rightarrow> string"
  http_post_json :: "string \<Rightarrow> headers \<Rightarrow> pyval \<Rightarrow> real \<times> real \<Rightarrow> 'w \<Rightarrow> (pyexn + pyval) \<times> 'w"
  http_post_status :: "string \<Rightarrow> headers \<Rightarrow> pyval \<Rightarrow> real \<times> real \<Rightarrow> 'w \<Rightarrow> (pyexn + unit) \<times> 'w"
  http_get_status :: "string \<Rightarrow> headers \<Rightarrow> real \<times> real \<Rightarrow> 'w \<Rightarrow> (pyexn + nat) \<times> 'w"
  urlopen_json :: "string \<Rightarrow> headers \<Rightarrow> pyval \<Rightarrow> int \<Rightarrow> 'w \<Rightarrow> (pyexn + pyval) \<times> 'w"
  done_after :: "'w \<Rightarrow> nat \<Rightarrow> real"

text \<open>\<open>str(v)\<close>, and \<open>v\<close> inside an f-string.\<close>

definition py_str :: "'w env \<Rightarrow> pyval \<Rightarrow> string" where
  "py_str env v = (case v of PStr s \<Rightarrow> s | _ \<Rightarrow> py_repr env v)"

subsection \<open>Thread pools\<close>

text \<open>
  The tasks of a pool run in threads. The model runs them one after the other, in the
  order of submission, each on the state the one before left.
\<close>

fun run_tasks :: "('a \<Rightarrow> 'w \<Rightarrow> 'b \<times> 'w) \<Rightarrow> 'a list \<Rightarrow> 'w \<Rightarrow> 'b list \<times> 'w" where
  "run_tasks f [] w = ([], w)"
| "run_tasks f (x # xs) w =
     (let (r, w1) = f x w; (rs, w2) = run_tasks f xs w1 in (r # rs, w2))"

definition pool_submit_all ::
  "'w env \<Rightarrow> ('a \<Rightarrow> 'w \<Rightarrow> 'b \<times> 'w) \<Rightarrow> 'a list \<Rightarrow> 'w \<Rightarrow> ('b \<times> real) list \<times> 'w" where
  "pool_submit_all env f xs w =
     (let (rs, w1) = run_tasks f xs w
      in (zip rs (map (done_after env w) [0..<length xs]), w1))"

text \<open>
  \<open>for fut in as_completed(futs, timeout=t)\<close>: the iterator yields the futures in the order
  in which they are done and raises \<open>TimeoutError\<close> once \<open>t\<close> seconds have passed and some
  future is not done. The exception leaves the loop, so what the loop has gathered until
  then is lost; the result is either the exception or the values of all futures.
\<close>

definition as_completed :: "real \<Rightarrow> ('a \<times> real) list \<Rightarrow> pyexn + 'a list" where
  "as_completed timeout futs =
     (if \<forall>f \<in> set futs. snd f \<le> timeout then Inr (map fst (sort_key snd futs))
      else Inl (PyExn TimeoutError
             (show_nat (length (filter (\<lambda>f. \<not> snd f \<le> timeout) futs)) @ '' (of '' @
              show_nat (length futs) @ '') futures unfinished'')))"

section \<open>Service health monitor (health.py)\<close>

record ServiceHealth =
  h_endpoints :: "(string \<times> string \<times> headers) list"
  h_status :: "(string \<times> bool) list"

definition ServiceHealth_init :: ServiceHealth where
  "ServiceHealth_init = \<lparr>h_endpoints = [], h_status = []\<rparr>"

definition register :: "ServiceHealth \<Rightarrow> string \<Rightarrow> string \<Rightarrow> headers option \<Rightarrow> ServiceHealth" where
  "register h nm health_url hdrs =
     h\<lparr>h_endpoints := AList.update nm (health_url, case hdrs of None \<Rightarrow> [] | Some hs \<Rightarrow> hs) (h_endpoints h),
       h_status := AList.update nm False (h_status h)\<rparr>"

definition is_up :: "ServiceHealth \<Rightarrow> string \<Rightarrow> bool" where
  "is_up h service = (case map_of (h_status h) service of Some b \<Rightarrow> b | None \<Rightarrow> False)"

definition probe :: "'w env \<Rightarrow> string \<times> string \<times> headers \<Rightarrow> 'w \<Rightarrow> (string \<times> bool) \<times> 'w" where
  "probe env ep w =
     (case ep of (nm, u, hdrs) \<Rightarrow>
        (case http_get_status env u hdrs (2, 5) w of
           (Inr code, w1) \<Rightarrow> ((nm, code < 400), w1)
         | (Inl exc, w1) \<Rightarrow> ((nm, False), w1)))"

text \<open>\<open>d.update(result)\<close> for dictionaries kept as association lists.\<close>

definition dict_update_all :: "('k \<times> 'v) list \<Rightarrow> ('k \<times> 'v) list \<Rightarrow> ('k \<times> 'v) list" where
  "dict_update_all d result = foldl (\<lambda>acc kv. AList.update (fst kv) (snd kv) acc) d result"

text \<open>
  \<open>refresh\<close> returns the new status, or raises the \<open>TimeoutError\<close> of \<open>as_completed\<close>
  and leaves the status as it was. A probe never raises, so the inner handler of the
  loop has nothing to catch.
\<close>

definition refresh ::
  "'w env \<Rightarrow> ServiceHealth \<Rightarrow> 'w \<Rightarrow> (pyexn + (string \<times> bool) list) \<times> ServiceHealth \<times> 'w" where
  "refresh env h w =
     (let (futs, w1) = pool_submit_all env (probe env) (h_endpoints h) w
      in case as_completed 10 futs of
           Inl exc \<Rightarrow> (Inl exc, h, w1)
         | Inr finished \<Rightarrow>
             (let result = dict_update_all [] finished;
                  h1 = h\<lparr>h_status := dict_update_all (h_status h) result\<rparr>
              in (Inr (h_status h1), h1, w1)))"

text \<open>
  \<open>if health: health.refresh()\<close>. A \<open>ServiceHealth\<close> object is always true in a
  condition, so the test is whether a monitor was passed.
\<close>

definition refresh_opt ::
  "'w env \<Rightarrow> ServiceHealth option \<Rightarrow> 'w \<Rightarrow> (pyexn + unit) \<times> ServiceHealth option \<times> 'w" where
  "refresh_opt env health w =
     (case health of
        None \<Rightarrow> (Inr (), None, w)
      | Some h \<Rightarrow>
          (case refresh env h w of
             (Inl exc, h1, w1) \<Rightarrow> (Inl exc, Some h1, w1)
           | (Inr st, h1, w1) \<Rightarrow> (Inr (), Some h1, w1)))"

text \<open>\<open>health and not health.is_up(entry.endpoint.name)\<close>.\<close>

definition reported_down :: "ServiceHealth option \<Rightarrow> ModelEntry \<Rightarrow> bool" where
  "reported_down health entry =
     (case health of None \<Rightarrow> False | Some h \<Rightarrow> \<not> is_up h (name (endpoint entry)))"

section \<open>Auto-router (orchestrator.py)\<close>

definition message :: "string \<Rightarrow> string \<Rightarrow> pyval" where
  "message role text = PDict [(''role'', PStr role), (''content'', PStr text)]"

text \<open>\<open>if system:\<close> holds for a string that is there and not empty.\<close>

definition build_messages :: "string option \<Rightarrow> string \<Rightarrow> pyval list" where
  "build_messages system prompt =
     (case system of
        None \<Rightarrow> []
      | Some s \<Rightarrow> (if s = [] then [] else [message ''system'' s])) @ [message ''user'' prompt]"

definition chat_completion ::
  "'w env \<Rightarrow> string \<Rightarrow> pyval list \<Rightarrow> string \<Rightarrow> string \<Rightarrow> real \<times> real \<Rightarrow> 'w \<Rightarrow> (pyexn + pyval) \<times> 'w" where
  "chat_completion env model msgs base_url key timeout w =
     http_post_json env
       (rstrip_slash base_url @ ''/v1/chat/completions'')
       [(''Authorization'', ''Bearer '' @ key), (''Content-Type'', ''application/json'')]
       (PDict [(''model'', PStr model), (''messages'', PList msgs),
               (''temperature'', PFloat (round_double (7 / 10))), (''max_tokens'', PInt 2048)])
       timeout w"

text \<open>\<open>response["choices"][0]["message"]["content"]\<close>.\<close>

definition content_of_envelope :: "pyval \<Rightarrow> pyexn + pyval" where
  "content_of_envelope response =
     (case getitem_str response ''choices'' of
        Inl exc \<Rightarrow> Inl exc
      | Inr choices \<Rightarrow>
          (case getitem_0 choices of
             Inl exc \<Rightarrow> Inl exc
           | Inr choice \<Rightarrow>
               (case getitem_str choice ''message'' of
                  Inl exc \<Rightarrow> Inl exc
                | Inr msg \<Rightarrow> getitem_str msg ''content'')))"

definition extract_text :: "'w env \<Rightarrow> pyval \<Rightarrow> pyexn + pyval" where
  "extract_text env response =
     (case content_of_envelope response of
        Inr v \<Rightarrow> Inr v
      | Inl exc \<Rightarrow>
          (if exn_class_of exc \<in> {KeyError, IndexError, TypeError}
           then Inr (PStr (py_str env response)) else Inl exc))"

record RouteResult =
  r_model :: string
  r_tier :: string
  r_response :: pyval
  r_latency_s :: real

text \<open>\<open>tier_map.get(detected_tier, ["fast"])\<close>.\<close>

definition search_order :: "string \<Rightarrow> string list" where
  "search_order detected_tier =
     (if detected_tier = ''T1'' then [''fast'']
      else if detected_tier = ''T2'' then [''power'', ''fast'']
      else if detected_tier = ''T3'' then [''deep'', ''power'', ''fast'']
      else [''fast''])"

text \<open>\<open>tier or cfg.classify_complexity(prompt)\<close>.\<close>

definition detect_tier :: "SwarmConfig \<Rightarrow> string option \<Rightarrow> string \<Rightarrow> string" where
  "detect_tier cfg forced prompt =
     (case forced of
        None \<Rightarrow> classify_complexity cfg prompt
      | Some t \<Rightarrow> (if t = [] then classify_complexity cfg prompt else t))"

text \<open>
  The inner loop, over the candidates of one tier. It returns the result of the first
  call that succeeds (if any), the last error seen, and the calls it dispatched, in
  their order: each is the entry called and the exception the call raised, \<open>None\<close> for
  the call that succeeded.
\<close>

type_synonym dispatch_log = "(ModelEntry \<times> pyexn option) list"

fun try_candidates ::
  "'w env \<Rightarrow> ServiceHealth option \<Rightarrow> pyval list \<Rightarrow> string \<Rightarrow> real \<times> real \<Rightarrow> ModelEntry list \<Rightarrow>
   pyexn option \<Rightarrow> 'w \<Rightarrow> (RouteResult option \<times> pyexn option) \<times> dispatch_log \<times> 'w" where
  "try_candidates env health msgs t timeout [] last_error w = ((None, last_error), [], w)"
| "try_candidates env health msgs t timeout (entry # rest) last_error w =
     (if reported_down health entry
      then try_candidates env health msgs t timeout rest last_error w
      else
        (let t0 = monotonic env w;
             (resp, w1) = chat_completion env (model_id entry) msgs (url (endpoint entry))
                            (api_key (endpoint entry)) timeout w;
             latency = float_sub (monotonic env w1) t0
         in case (case resp of Inl exc \<Rightarrow> Inl exc | Inr v \<Rightarrow> extract_text env v) of
              Inr text \<Rightarrow>
                ((Some \<lparr>r_model = model_id entry, r_tier = t, r_response = text,
                        r_latency_s = py_round2 latency\<rparr>, last_error), [(entry, None)], w1)
            | Inl exc \<Rightarrow>
                (case try_candidates env health msgs t timeout rest (Some exc) w1 of
                   (res, dispatched, w2) \<Rightarrow> (res, (entry, Some exc) # dispatched, w2))))"

text \<open>The outer loop, over the tiers of the search order.\<close>

fun try_tiers ::
  "'w env \<Rightarrow> SwarmConfig \<Rightarrow> ServiceHealth option \<Rightarrow> pyval list \<Rightarrow> string list \<Rightarrow>
   pyexn option \<Rightarrow> 'w \<Rightarrow> (RouteResult option \<times> pyexn option) \<times> dispatch_log \<times> 'w" where
  "try_tiers env cfg health msgs [] last_error w = ((None, last_error), [], w)"
| "try_tiers env cfg health msgs (t # ts) last_error w =
     (case try_candidates env health msgs t (get_tier_timeout cfg t) (get_tier_models cfg t)
             last_error w of
        ((Some r, last1), dispatched, w1) \<Rightarrow> ((Some r, last1), dispatched, w1)
      | ((None, last1), dispatched, w1) \<Rightarrow>
          (case try_tiers env cfg health msgs ts last1 w1 of
             (res, dispatched2, w2) \<Rightarrow> (res, dispatched @ dispatched2, w2)))"

definition exhausted_message :: "string \<Rightarrow> pyexn option \<Rightarrow> string" where
  "exhausted_message detected_tier last_error =
     ''All models exhausted for tier '' @ detected_tier @ ''. Last error: '' @
     (case last_error of None \<Rightarrow> ''None'' | Some exc \<Rightarrow> exn_str exc)"

text \<open>
  \<open>auto_route\<close> returns its result or the exception it raises, the monitor as the refresh
  left it, the calls it dispatched, and the new state of the world.
  The configuration is the one passed in (\<open>default_config()\<close>, which reads the process
  environment, is not modelled).
\<close>

definition auto_route ::
  "'w env \<Rightarrow> string \<Rightarrow> string option \<Rightarrow> string option \<Rightarrow> SwarmConfig \<Rightarrow> ServiceHealth option \<Rightarrow>
   'w \<Rightarrow> (pyexn + RouteResult) \<times> ServiceHealth option \<times> dispatch_log \<times> 'w" where
  "auto_route env prompt system forced cfg health w =
     (case refresh_opt env health w of
        (Inl exc, health1, w1) \<Rightarrow> (Inl exc, health1, [], w1)
      | (Inr u, health1, w1) \<Rightarrow>
          (let detected_tier = detect_tier cfg forced prompt;
               msgs = build_messages system prompt
           in case try_tiers env cfg health1 msgs (search_order detected_tier) None w1 of
                ((Some r, last_error), dispatched, w2) \<Rightarrow> (Inr r, health1, dispatched, w2)
              | ((None, last_error), dispatched, w2) \<Rightarrow>
                  (Inl (PyExn RuntimeError (exhausted_message detected_tier last_error)),
                   health1, dispatched, w2)))"

section \<open>Multi-model consensus (orchestrator.py)\<close>

text \<open>
  What \<open>_call\<close> returns for one model. The key \<open>latency_s\<close> is there only after a call
  that returned; the key \<open>error\<close> holds \<open>None\<close> then.
\<close>

record ModelReply =
  m_model :: string
  m_response :: pyval
  m_latency_s :: "real option"
  m_error :: "string option"

record ConsensusResult =
  merged :: pyval
  individual :: "ModelReply list"
  model_count :: nat

definition call_entry ::
  "'w env \<Rightarrow> SwarmConfig \<Rightarrow> ServiceHealth option \<Rightarrow> pyval list \<Rightarrow> ModelEntry \<Rightarrow> 'w \<Rightarrow> ModelReply \<times> 'w" where
  "call_entry env cfg health msgs entry w =
     (if reported_down health entry
      then (\<lparr>m_model = model_id entry, m_response = PNone, m_latency_s = None,
             m_error = Some (name (endpoint entry) @ '' unavailable'')\<rparr>, w)
      else
        (let timeout = get_tier_timeout cfg (tier entry);
             t0 = monotonic env w;
             (resp, w1) = chat_completion env (model_id entry) msgs (url (endpoint entry))
                            (api_key (endpoint entry)) timeout w;
             latency = float_sub (monotonic env w1) t0
         in case (case resp of Inl exc \<Rightarrow> Inl exc | Inr v \<Rightarrow> extract_text env v) of
              Inr text \<Rightarrow>
                (\<lparr>m_model = model_id entry, m_response = text,
                  m_latency_s = Some (py_round2 latency), m_error = None\<rparr>, w1)
            | Inl exc \<Rightarrow>
                (\<lparr>m_model = model_id entry, m_response = PNone, m_latency_s = None,
                  m_error = Some (exn_str exc)\<rparr>, w1)))"

text \<open>The default choice of models: the first one of each tier that has one.\<close>

definition default_models :: "SwarmConfig \<Rightarrow> ModelEntry list" where
  "default_models cfg =
     concat (map (\<lambda>t. case get_tier_models cfg t of [] \<Rightarrow> [] | m # ms \<Rightarrow> [m])
               [''fast'', ''power'', ''deep''])"

definition successful_replies :: "ModelReply list \<Rightarrow> ModelReply list" where
  "successful_replies results = filter (\<lambda>r. truthy (m_response r)) results"

text \<open>The part of the synthesis prompt for the \<open>i\<close>-th successful reply, \<open>i\<close> from 1.\<close>

definition synthesis_section :: "'w env \<Rightarrow> nat \<Rightarrow> ModelReply \<Rightarrow> string" where
  "synthesis_section env i r =
     [CHR 0x0A] @ ''--- Model '' @ show_nat i @ '': '' @ m_model r @ '' ---'' @ [CHR 0x0A] @
     py_str env (m_response r) @ [CHR 0x0A]"

definition synthesis_prompt :: "'w env \<Rightarrow> string \<Rightarrow> ModelReply list \<Rightarrow> string" where
  "synthesis_prompt env prompt successful =
     ''You are a synthesis agent. Multiple AI models answered the same question.'' @ [CHR 0x0A] @
     ''Combine their insights into a single, comprehensive, non-redundant answer.'' @
     [CHR 0x0A, CHR 0x0A] @
     ''ORIGINAL QUESTION:'' @ [CHR 0x0A] @ prompt @ [CHR 0x0A, CHR 0x0A] @
     ''MODEL RESPONSES:'' @ [CHR 0x0A] @
     concat (map (\<lambda>(i, r). synthesis_section env (Suc i) r) (enumerate 0 successful)) @
     [CHR 0x0A] @ ''SYNTHESIZED ANSWER:''"

text \<open>The fallback when the synthesis call raises: the labelled answers, joined.\<close>

definition labelled_answer :: "'w env \<Rightarrow> ModelReply \<Rightarrow> string" where
  "labelled_answer env r = ''['' @ m_model r @ '']'' @ [CHR 0x0A] @ py_str env (m_response r)"

definition concatenated_answers :: "'w env \<Rightarrow> ModelReply list \<Rightarrow> string" where
  "concatenated_answers env successful =
     join ([CHR 0x0A, CHR 0x0A] @ ''---'' @ [CHR 0x0A, CHR 0x0A]) (map (labelled_answer env) successful)"

text \<open>
  The first half of \<open>consensus\<close>: refresh the monitor, choose the models, submit one
  \<open>_call\<close> per model to the pool and gather the replies with
  \<open>as_completed(futs, timeout=call_timeout + 10)\<close>. \<open>_call\<close> never raises, so the handler
  inside the loop has nothing to catch. \<open>ThreadPoolExecutor\<close> refuses a number of
  workers below 1.
\<close>

definition consensus_gather ::
  "'w env \<Rightarrow> string \<Rightarrow> ModelEntry list option \<Rightarrow> string option \<Rightarrow> int \<Rightarrow> real \<Rightarrow> SwarmConfig \<Rightarrow>
   ServiceHealth option \<Rightarrow> 'w \<Rightarrow> (pyexn + ModelReply list) \<times> ServiceHealth option \<times> 'w" where
  "consensus_gather env prompt chosen system max_workers call_timeout cfg health w =
     (case refresh_opt env health w of
        (Inl exc, health1, w1) \<Rightarrow> (Inl exc, health1, w1)
      | (Inr u, health1, w1) \<Rightarrow>
          (let ms = (case chosen of None \<Rightarrow> default_models cfg | Some l \<Rightarrow> l);
               msgs = build_messages system prompt
           in if max_workers \<le> 0
              then (Inl (PyExn ValueError ''max_workers must be greater than 0''), health1, w1)
              else
                (let (futs, w2) = pool_submit_all env (call_entry env cfg health1 msgs) ms w1
                 in (as_completed (float_add call_timeout 10) futs, health1, w2))))"

text \<open>The second half: the synthesis from the replies gathered.\<close>

definition consensus_synthesize ::
  "'w env \<Rightarrow> string \<Rightarrow> SwarmConfig \<Rightarrow> ServiceHealth option \<Rightarrow> ModelReply list \<Rightarrow> 'w \<Rightarrow>
   (pyexn + ConsensusResult) \<times> ServiceHealth option \<times> 'w" where
  "consensus_synthesize env prompt cfg health results w =
     (let successful = successful_replies results
      in if successful = []
         then (Inl (PyExn RuntimeError ''All consensus models failed.''), health, w)
         else
           (case auto_route env (synthesis_prompt env prompt successful) None (Some ''T2'')
                   cfg health w of
              (Inr merged_result, health1, dispatched, w1) \<Rightarrow>
                (Inr \<lparr>merged = r_response merged_result, individual = results,
                      model_count = length successful\<rparr>, health1, w1)
            | (Inl exc, health1, dispatched, w1) \<Rightarrow>
                (Inr \<lparr>merged = PStr (concatenated_answers env successful), individual = results,
                      model_count = length successful\<rparr>, health1, w1)))"

definition consensus ::
  "'w env \<Rightarrow> string \<Rightarrow> ModelEntry list option \<Rightarrow> string option \<Rightarrow> int \<Rightarrow> real \<Rightarrow> SwarmConfig \<Rightarrow>
   ServiceHealth option \<Rightarrow> 'w \<Rightarrow> (pyexn + ConsensusResult) \<times> ServiceHealth option \<times> 'w" where
  "consensus env prompt chosen system max_workers call_timeout cfg health w =
     (case consensus_gather env prompt chosen system max_workers call_timeout cfg health w of
        (Inl exc, health1, w1) \<Rightarrow> (Inl exc, health1, w1)
      | (Inr results, health1, w1) \<Rightarrow> consensus_synthesize env prompt cfg health1 results w1)"

section \<open>Knowledge-enriched pipeline (orchestrator.py)\<close>

text \<open>\<open>isinstance(data, list)\<close>, \<open>len(v)\<close> and the slice \<open>v[:n]\<close>.\<close>

fun is_list :: "pyval \<Rightarrow> bool" where
  "is_list (PList xs) = True"
| "is_list v = False"

fun py_len :: "pyval \<Rightarrow> pyexn + nat" where
  "py_len (PList xs) = Inr (length xs)"
| "py_len (PStr s) = Inr (length s)"
| "py_len (PDict kvs) = Inr (length kvs)"
| "py_len v = Inl (PyExn TypeError ''object has no len()'')"

fun slice_to :: "nat \<Rightarrow> pyval \<Rightarrow> pyexn + pyval" where
  "slice_to n (PList xs) = Inr (PList (take n xs))"
| "slice_to n (PStr s) = Inr (PStr (take n s))"
| "slice_to n v = Inl (PyExn TypeError ''object is not subscriptable'')"

text \<open>The items a \<open>for\<close> loop sees in a sliced value: a list or a string.\<close>

fun items_of :: "pyval \<Rightarrow> pyval list" where
  "items_of (PList xs) = xs"
| "items_of (PStr s) = map (\<lambda>c. PStr [c]) s"
| "items_of v = []"

text \<open>
  \<open>_knowledge_search\<close>: every exception raised inside it, the \<open>AttributeError\<close> of
  \<open>data.get\<close> on a value that is no dictionary included, is caught and gives \<open>[]\<close>.
\<close>

definition search_request :: "'w env \<Rightarrow> string \<Rightarrow> string \<Rightarrow> 'w \<Rightarrow> (pyexn + pyval) \<times> 'w" where
  "search_request env kurl query w =
     http_post_json env (rstrip_slash kurl @ ''/search'') []
       (PDict [(''query'', PStr query), (''query_type'', PStr ''GRAPH_COMPLETION'')]) (5, 30) w"

definition knowledge_search :: "'w env \<Rightarrow> string \<Rightarrow> string \<Rightarrow> 'w \<Rightarrow> pyval \<times> 'w" where
  "knowledge_search env kurl query w =
     (case search_request env kurl query w of
        (Inl exc, w1) \<Rightarrow> (PList [], w1)
      | (Inr data, w1) \<Rightarrow>
          (if is_list data then (data, w1)
           else (case dict_get data ''results'' (PList [data]) of
                   Inl exc \<Rightarrow> (PList [], w1)
                 | Inr v \<Rightarrow> (v, w1))))"

definition knowledge_add :: "'w env \<Rightarrow> string \<Rightarrow> string \<Rightarrow> string \<Rightarrow> 'w \<Rightarrow> bool \<times> 'w" where
  "knowledge_add env kurl text dataset w =
     (case http_post_status env (rstrip_slash kurl @ ''/add'') []
             (PDict [(''text'', PStr text), (''dataset_name'', PStr dataset)]) (5, 60) w of
        (Inl exc, w1) \<Rightarrow> (False, w1)
      | (Inr u, w1) \<Rightarrow> (True, w1))"

text \<open>\<open>a or b\<close>.\<close>

definition py_or :: "pyval \<Rightarrow> pyval \<Rightarrow> pyval" where
  "py_or a b = (if truthy a then a else b)"

definition item_text :: "'w env \<Rightarrow> pyval \<Rightarrow> pyval" where
  "item_text env item =
     (case item of
        PDict kvs \<Rightarrow>
          (let get = (\<lambda>k. case map_of kvs k of Some v \<Rightarrow> v | None \<Rightarrow> PNone)
           in py_or (get ''text'') (py_or (get ''content'')
                (py_or (get ''summary'') (PStr (json_dumps env item)))))
      | _ \<Rightarrow> PStr (py_str env item))"

fun context_lines :: "'w env \<Rightarrow> nat \<Rightarrow> pyval list \<Rightarrow> pyexn + string list" where
  "context_lines env i [] = Inr []"
| "context_lines env i (item # rest) =
     (case slice_to 500 (item_text env item) of
        Inl exc \<Rightarrow> Inl exc
      | Inr t \<Rightarrow>
          (case context_lines env (Suc i) rest of
             Inl exc \<Rightarrow> Inl exc
           | Inr ls \<Rightarrow> Inr ((''['' @ show_nat i @ ''] '' @ py_str env t) # ls)))"

definition format_context :: "'w env \<Rightarrow> pyval \<Rightarrow> pyexn + string" where
  "format_context env results =
     (if \<not> truthy results then Inr []
      else (case slice_to 5 results of
              Inl exc \<Rightarrow> Inl exc
            | Inr first \<Rightarrow>
                (case context_lines env 1 (items_of first) of
                   Inl exc \<Rightarrow> Inl exc
                 | Inr ls \<Rightarrow> Inr (join [CHR 0x0A] (''RELEVANT KNOWLEDGE FROM MEMORY:'' # ls)))))"

record PipelineResult =
  answer :: pyval
  prompt_original :: string
  prompt_enriched :: string
  context_results_count :: nat
  model_info :: pyval
  total_latency_s :: real
  stored :: bool

text \<open>\<open>cfg.knowledge_url\<close> in a condition: there and not empty.\<close>

definition knowledge_configured :: "SwarmConfig \<Rightarrow> string option" where
  "knowledge_configured cfg =
     (case knowledge_url cfg of None \<Rightarrow> None | Some u \<Rightarrow> (if u = [] then None else Some u))"

text \<open>Step 1 of \<open>pipeline\<close>: the context found and the enriched prompt.\<close>

definition pipeline_enrich ::
  "'w env \<Rightarrow> string \<Rightarrow> bool \<Rightarrow> SwarmConfig \<Rightarrow> 'w \<Rightarrow> (pyexn + pyval \<times> string) \<times> 'w" where
  "pipeline_enrich env prompt enrich cfg w =
     (case (if enrich then knowledge_configured cfg else None) of
        None \<Rightarrow> (Inr (PList [], prompt), w)
      | Some kurl \<Rightarrow>
          (case knowledge_search env kurl prompt w of
             (context_results, w1) \<Rightarrow>
               (case format_context env context_results of
                  Inl exc \<Rightarrow> (Inl exc, w1)
                | Inr context_str \<Rightarrow>
                    (Inr (context_results,
                          if context_str \<noteq> []
                          then context_str @ [CHR 0x0A, CHR 0x0A] @ ''USER QUESTION:'' @ [CHR 0x0A] @ prompt
                          else prompt), w1))))"

text \<open>Step 2: the answer and the description of who gave it.\<close>

definition pipeline_generate ::
  "'w env \<Rightarrow> string \<Rightarrow> bool \<Rightarrow> string option \<Rightarrow> SwarmConfig \<Rightarrow> ServiceHealth option \<Rightarrow> 'w \<Rightarrow>
   (pyexn + pyval \<times> pyval) \<times> ServiceHealth option \<times> 'w" where
  "pipeline_generate env enriched_prompt use_consensus forced cfg health w =
     (if use_consensus
      then (case consensus env enriched_prompt None None 5 90 cfg health w of
              (Inl exc, health1, w1) \<Rightarrow> (Inl exc, health1, w1)
            | (Inr result, health1, w1) \<Rightarrow>
                (Inr (merged result,
                      PDict [(''consensus'', PBool True),
                             (''model_count'', PInt (int (model_count result)))]), health1, w1))
      else (case auto_route env enriched_prompt None forced cfg health w of
              (Inl exc, health1, dispatched, w1) \<Rightarrow> (Inl exc, health1, w1)
            | (Inr result, health1, dispatched, w1) \<Rightarrow>
                (Inr (r_response result,
                      PDict [(''model'', PStr (r_model result)),
                             (''tier'', PStr (r_tier result))]), health1, w1)))"

text \<open>
  Step 3 starts a thread that posts the record to the store and is never joined; the
  model lets the request act on the world and drops its outcome.
\<close>

definition pipeline_store ::
  "'w env \<Rightarrow> string \<Rightarrow> bool \<Rightarrow> SwarmConfig \<Rightarrow> pyval \<Rightarrow> pyval \<Rightarrow> 'w \<Rightarrow> 'w" where
  "pipeline_store env prompt store cfg ans info w =
     (case (if store then knowledge_configured cfg else None) of
        None \<Rightarrow> w
      | Some kurl \<Rightarrow>
          snd (knowledge_add env kurl
                 (''Q: '' @ prompt @ [CHR 0x0A, CHR 0x0A] @ ''A: '' @ py_str env ans @
                  [CHR 0x0A, CHR 0x0A] @ ''Generated by: '' @ json_dumps env info @ '' at '' @
                  strftime_now env w)
                 ''orchestrator'' w))"

definition pipeline ::
  "'w env \<Rightarrow> string \<Rightarrow> bool \<Rightarrow> bool \<Rightarrow> bool \<Rightarrow> string option \<Rightarrow> SwarmConfig \<Rightarrow>
   ServiceHealth option \<Rightarrow> 'w \<Rightarrow> (pyexn + PipelineResult) \<times> ServiceHealth option \<times> 'w" where
  "pipeline env prompt enrich store use_consensus forced cfg health w =
     (case refresh_opt env health w of
        (Inl exc, health1, w1) \<Rightarrow> (Inl exc, health1, w1)
      | (Inr u, health1, w1) \<Rightarrow>
          (case pipeline_enrich env prompt enrich cfg w1 of
             (Inl exc, w2) \<Rightarrow> (Inl exc, health1, w2)
           | (Inr (context_results, enriched_prompt), w2) \<Rightarrow>
               (let t0 = monotonic env w2
                in case pipeline_generate env enriched_prompt use_consensus forced cfg health1 w2 of
                     (Inl exc, health2, w3) \<Rightarrow> (Inl exc, health2, w3)
                   | (Inr (ans, info), health2, w3) \<Rightarrow>
                       (let total_latency = float_sub (monotonic env w3) t0;
                            w4 = pipeline_store env prompt store cfg ans info w3
                        in case py_len context_results of
                             Inl exc \<Rightarrow> (Inl exc, health2, w4)
                           | Inr n \<Rightarrow>
                               (Inr \<lparr>answer = ans, prompt_original = prompt,
                                     prompt_enriched = (if enrich then enriched_prompt else prompt),
                                     context_results_count = n, model_info = info,
                                     total_latency_s = py_round2 total_latency,
                                     stored = store\<rparr>, health2, w4)))))"

section \<open>Swarm caller and ranking (swarm.py)\<close>

text \<open>
  The dictionary \<open>call_model\<close> returns. The key \<open>error\<close> is there only in a result of
  status \<open>error\<close>.
\<close>

record CallResult =
  c_model :: string
  status :: string
  elapsed_s :: real
  content :: pyval
  tokens :: pyval
  error :: "string option"

text \<open>\<open>response.get("usage", {}).get("total_tokens")\<close>.\<close>

definition total_tokens :: "pyval \<Rightarrow> pyexn + pyval" where
  "total_tokens response =
     (case dict_get response ''usage'' (PDict []) of
        Inl exc \<Rightarrow> Inl exc
      | Inr usage \<Rightarrow> dict_get usage ''total_tokens'' PNone)"

text \<open>
  The two handlers of \<open>call_model\<close>: \<open>except asyncio.TimeoutError\<close> comes first, then
  \<open>except Exception\<close>. The class \<^const>\<open>TimeoutError\<close> stands for \<open>asyncio.TimeoutError\<close>.
\<close>

definition call_failed :: "'w env \<Rightarrow> ModelEntry \<Rightarrow> real \<Rightarrow> pyexn \<Rightarrow> 'w \<Rightarrow> CallResult" where
  "call_failed env entry start exc w =
     (if exn_class_of exc = TimeoutError
      then \<lparr>c_model = model_id entry, status = ''timeout'',
            elapsed_s = py_round2 (float_sub (monotonic env w) start), content = PNone, tokens = PNone,
            error = None\<rparr>
      else \<lparr>c_model = model_id entry, status = ''error'',
            elapsed_s = py_round2 (float_sub (monotonic env w) start), content = PNone, tokens = PNone,
            error = Some (exn_str exc)\<rparr>)"

text \<open>The request of \<open>call_model\<close>: \<open>_http_post\<close>, awaited with the deadline \<open>timeout\<close>.\<close>

definition call_model_post ::
  "'w env \<Rightarrow> ModelEntry \<Rightarrow> string \<Rightarrow> int \<Rightarrow> 'w \<Rightarrow> (pyexn + pyval) \<times> 'w" where
  "call_model_post env entry prompt timeout w =
     urlopen_json env
       (rstrip_slash (url (endpoint entry)) @ ''/v1/chat/completions'')
       [(''Content-Type'', ''application/json''),
        (''Authorization'', ''Bearer '' @ api_key (endpoint entry))]
       (PDict [(''model'', PStr (model_id entry)),
               (''messages'', PList [message ''user'' prompt]),
               (''max_tokens'', PInt 2048)])
       timeout w"

definition call_model :: "'w env \<Rightarrow> ModelEntry \<Rightarrow> string \<Rightarrow> int \<Rightarrow> 'w \<Rightarrow> CallResult \<times> 'w" where
  "call_model env entry prompt timeout w =
     (let start = monotonic env w;
          (resp, w1) = call_model_post env entry prompt timeout w
      in case resp of
           Inl exc \<Rightarrow> (call_failed env entry start exc w1, w1)
         | Inr response \<Rightarrow>
             (let elapsed = float_sub (monotonic env w1) start
              in case content_of_envelope response of
                   Inl exc \<Rightarrow> (call_failed env entry start exc w1, w1)
                 | Inr c \<Rightarrow>
                     (case total_tokens response of
                        Inl exc \<Rightarrow> (call_failed env entry start exc w1, w1)
                      | Inr n \<Rightarrow>
                          (\<lparr>c_model = model_id entry, status = ''ok'',
                            elapsed_s = py_round2 elapsed, content = c, tokens = n,
                            error = None\<rparr>, w1))))"

text \<open>
  \<open>s.splitlines()\<close> for code points below 256: a line ends at the code points 10 to 13,
  28 to 30 and 133, and a carriage return followed by a line feed ends one line only.
\<close>

definition is_linebreak :: "char \<Rightarrow> bool" where
  "is_linebreak c = (of_char c \<in> {10::nat, 11, 12, 13, 28, 29, 30, 133})"

function splitlines :: "string \<Rightarrow> string list" where
  "splitlines [] = []"
| "splitlines (c # cs) =
     takeWhile (\<lambda>d. \<not> is_linebreak d) (c # cs) #
     (case dropWhile (\<lambda>d. \<not> is_linebreak d) (c # cs) of
        [] \<Rightarrow> []
      | b # rest \<Rightarrow>
          (if b = CHR 0x0D \<and> rest \<noteq> [] \<and> hd rest = CHR 0x0A then splitlines (tl rest)
           else splitlines rest))"
  by pat_completeness auto
termination
proof (relation "measure length", goal_cases)
  case 1
  show ?case by simp
next
  case (2 c cs b rest)
  have "length (dropWhile (\<lambda>d. \<not> is_linebreak d) (c # cs)) \<le> length (c # cs)"
    by (rule length_dropWhile_le)
  with 2 show ?case by (cases rest) auto
next
  case (3 c cs b rest)
  have "length (dropWhile (\<lambda>d. \<not> is_linebreak d) (c # cs)) \<le> length (c # cs)"
    by (rule length_dropWhile_le)
  with 3 show ?case by auto
qed

definition startswith_hash :: "string \<Rightarrow> bool" where
  "startswith_hash line = (case line of [] \<Rightarrow> False | c # cs \<Rightarrow> c = CHR ''#'')"

text \<open>
  The score of text content, the body of \<open>_score_result\<close> after its guard. The literals
  \<open>0.1\<close> and \<open>0.3\<close> are the doubles nearest to them; \<open>0.5\<close>, \<open>1.0\<close>, \<open>3.0\<close>, \<open>30.0\<close> and \<open>500.0\<close>
  are doubles. The length is an \<open>int\<close> and the division converts it to a float; the
  elapsed time is read as a float (the conversion changes no double).
\<close>

definition text_score :: "string \<Rightarrow> real \<Rightarrow> real" where
  "text_score s elapsed =
     (let length_score =
            (if length s < 50 then round_double (1 / 10)
             else min (float_div (round_double (real (length s))) 500) 3);
          fence_score = (if sublist ''```'' s then float_add 0 (1 / 2) else 0);
          structure_score =
            (if \<exists>line \<in> set (splitlines s). startswith_hash line
             then float_add fence_score (round_double (3 / 10)) else fence_score);
          speed_score = max 0 (float_sub 1 (float_div (round_double elapsed) 30))
      in float_add (float_add length_score structure_score) speed_score)"

text \<open>
  \<open>_score_result\<close>. Content that is true in a condition and is no string makes it raise:
  \<open>len\<close> of a number or of \<open>True\<close> is a \<open>TypeError\<close>, and a list or a dictionary has no
  \<open>splitlines\<close>.
\<close>

definition score_result :: "CallResult \<Rightarrow> pyexn + real" where
  "score_result result =
     (if status result \<noteq> ''ok'' \<or> \<not> truthy (content result) then Inr (- 1)
      else (case content result of
              PStr s \<Rightarrow> Inr (text_score s (elapsed_s result))
            | PList xs \<Rightarrow> Inl (PyExn AttributeError ''object has no attribute splitlines'')
            | PDict kvs \<Rightarrow> Inl (PyExn AttributeError ''object has no attribute splitlines'')
            | _ \<Rightarrow> Inl (PyExn TypeError ''object has no len()'')))"

text \<open>
  \<open>sorted(xs, key=k, reverse=True)\<close> computes the key of every element first, in the
  order of the list, and raises what the first failing key raises. It then sorts as
  CPython does: reverse the list, sort it by ascending key with a stable sort, reverse
  the result.
\<close>

fun keys_of :: "('a \<Rightarrow> pyexn + real) \<Rightarrow> 'a list \<Rightarrow> pyexn + real list" where
  "keys_of k [] = Inr []"
| "keys_of k (x # xs) =
     (case k x of
        Inl exc \<Rightarrow> Inl exc
      | Inr v \<Rightarrow> (case keys_of k xs of Inl exc \<Rightarrow> Inl exc | Inr vs \<Rightarrow> Inr (v # vs)))"

definition sorted_reverse :: "(real \<times> 'a) list \<Rightarrow> (real \<times> 'a) list" where
  "sorted_reverse kxs = rev (sort_key fst (rev kxs))"

definition rank_results :: "CallResult list \<Rightarrow> pyexn + CallResult list" where
  "rank_results results =
     (case keys_of score_result results of
        Inl exc \<Rightarrow> Inl exc
      | Inr ks \<Rightarrow> Inr (map snd (sorted_reverse (zip ks results))))"

section \<open>Notions used in the statements\<close>

text \<open>Every configured keyword is in lower case already.\<close>

definition keywords_lower :: "SwarmConfig \<Rightarrow> bool" where
  "keywords_lower cfg = (\<forall>kw \<in> deep_keywords cfg. lower kw = kw)"

text \<open>
  The content a call result holds according to the data model: text, or nothing.
\<close>

fun text_or_none :: "pyval \<Rightarrow> bool" where
  "text_or_none PNone = True"
| "text_or_none (PStr s) = True"
| "text_or_none v = False"

text \<open>The score of a result whose score is defined.\<close>

definition score_value :: "CallResult \<Rightarrow> real" where
  "score_value r = (case score_result r of Inr v \<Rightarrow> v | Inl exc \<Rightarrow> 0)"

text \<open>Every occurrence of \<open>a\<close> in the list comes before every occurrence of \<open>b\<close>.\<close>

definition ranks_above :: "'a list \<Rightarrow> 'a \<Rightarrow> 'a \<Rightarrow> bool" where
  "ranks_above ys a b =
     (\<forall>i j. i < length ys \<and> j < length ys \<and> ys ! i = a \<and> ys ! j = b \<longrightarrow> i < j)"

text \<open>The entries of a list whose endpoint is not reported down.\<close>

definition up_entries :: "ServiceHealth option \<Rightarrow> ModelEntry list \<Rightarrow> ModelEntry list" where
  "up_entries health es = filter (\<lambda>e. \<not> reported_down health e) es"

text \<open>
  The candidates of a search in the order in which the router considers them: tier by
  tier in the search order, within a tier in the order of registration, the entries of
  endpoints reported down left out.
\<close>

definition candidates :: "SwarmConfig \<Rightarrow> ServiceHealth option \<Rightarrow> string \<Rightarrow> ModelEntry list" where
  "candidates cfg health detected_tier =
     filter (\<lambda>e. \<not> reported_down health e)
       (concat (map (get_tier_models cfg) (search_order detected_tier)))"

text \<open>
  One attempt of the router, the body of the loop of \<open>auto_route\<close> for an entry that is
  not skipped: the chat completion of the entry's model at the entry's endpoint with
  the timeout of the entry's tier, and the extraction of the text. It gives the
  exception raised, or the text and the rounded latency.
\<close>

definition call_candidate ::
  "'w env \<Rightarrow> SwarmConfig \<Rightarrow> pyval list \<Rightarrow> ModelEntry \<Rightarrow> 'w \<Rightarrow> (pyexn + pyval \<times> real) \<times> 'w" where
  "call_candidate env cfg msgs entry w =
     (let (resp, w1) = chat_completion env (model_id entry) msgs (url (endpoint entry))
                         (api_key (endpoint entry)) (get_tier_timeout cfg (tier entry)) w
      in (case (case resp of Inl exc \<Rightarrow> Inl exc | Inr v \<Rightarrow> extract_text env v) of
            Inl exc \<Rightarrow> Inl exc
          | Inr body \<Rightarrow> Inr (body, py_round2 (float_sub (monotonic env w1) (monotonic env w))), w1))"

text \<open>
  The greedy search as the specification words it (section 4.3, step 3), written apart
  from the two loops of \<open>auto_route\<close> so that they can be compared with it. The candidates
  are attempted one after the other, each in the world the attempt before it has left;
  an attempt that fails is recorded and the search goes on, an attempt that succeeds
  ends the search. The result is the list of the attempts made, each with its outcome,
  and the world after the last one.
\<close>

fun attempts_spec ::
  "'w env \<Rightarrow> SwarmConfig \<Rightarrow> pyval list \<Rightarrow> ModelEntry list \<Rightarrow> 'w \<Rightarrow>
   (ModelEntry \<times> (pyexn + pyval \<times> real)) list \<times> 'w" where
  "attempts_spec env cfg msgs [] w = ([], w)"
| "attempts_spec env cfg msgs (entry # rest) w =
     (case call_candidate env cfg msgs entry w of
        (Inr a, w1) \<Rightarrow> ([(entry, Inr a)], w1)
      | (Inl exc, w1) \<Rightarrow>
          (case attempts_spec env cfg msgs rest w1 of
             (calls, w2) \<Rightarrow> ((entry, Inl exc) # calls, w2)))"

text \<open>
  What the dispatch log holds for an attempt, and what the router returns for an attempt
  that succeeded.
\<close>

definition logged :: "ModelEntry \<times> (pyexn + pyval \<times> real) \<Rightarrow> ModelEntry \<times> pyexn option" where
  "logged c = (fst c, case snd c of Inl exc \<Rightarrow> Some exc | Inr a \<Rightarrow> None)"

definition answer_of :: "ModelEntry \<times> (pyexn + pyval \<times> real) \<Rightarrow> RouteResult option" where
  "answer_of c =
     (case snd c of
        Inl exc \<Rightarrow> None
      | Inr a \<Rightarrow> Some \<lparr>r_model = model_id (fst c), r_tier = tier (fst c), r_response = fst a,
                       r_latency_s = snd a\<rparr>)"

text \<open>The answer of the last attempt, and the exception of the last attempt that failed.\<close>

definition final_answer :: "(ModelEntry \<times> (pyexn + pyval \<times> real)) list \<Rightarrow> RouteResult option" where
  "final_answer calls = (if calls = [] then None else answer_of (last calls))"

fun last_failure ::
  "pyexn option \<Rightarrow> (ModelEntry \<times> (pyexn + pyval \<times> real)) list \<Rightarrow> pyexn option" where
  "last_failure last_error [] = last_error"
| "last_failure last_error (c # calls) =
     last_failure (case snd c of Inl exc \<Rightarrow> Some exc | Inr a \<Rightarrow> last_error) calls"

text \<open>The names a monitor knows: those registered and those with a status.\<close>

definition known_names :: "ServiceHealth \<Rightarrow> string set" where
  "known_names h = fst ` set (h_endpoints h) \<union> fst ` set (h_status h)"

text \<open>
  What makes \<open>_knowledge_search\<close> fail: the request raises (the store is unreachable,
  answers with an error status, or sends no JSON), or the body it sends is neither a
  list nor a dictionary.
\<close>

fun is_dict :: "pyval \<Rightarrow> bool" where
  "is_dict (PDict kvs) = True"
| "is_dict v = False"

definition search_fails :: "'w env \<Rightarrow> string \<Rightarrow> string \<Rightarrow> 'w \<Rightarrow> bool" where
  "search_fails env kurl query w =
     (case fst (search_request env kurl query w) of
        Inl exc \<Rightarrow> True
      | Inr data \<Rightarrow> \<not> is_list data \<and> \<not> is_dict data)"

section \<open>Concrete inputs\<close>

definition ep_primary :: Endpoint where
  "ep_primary = \<lparr>url = ''http://localhost:4000'', api_key = ''sk-key'', name = ''primary''\<rparr>"

text \<open>A configuration with the default thresholds and keywords and no model.\<close>

definition cfg_default :: SwarmConfig where
  "cfg_default =
     \<lparr>primary = ep_primary, secondary = None, knowledge_url = None,
      timeout_fast = (5, 30), timeout_power = (5, 60), timeout_deep = (5, 120),
      models = [], t1_max_words = 20, t2_max_words = 60,
      deep_keywords = default_deep_keywords\<rparr>"

text \<open>The same with the single keyword \<open>Why\<close>, written with a capital letter.\<close>

definition cfg_capital_keyword :: SwarmConfig where
  "cfg_capital_keyword = cfg_default\<lparr>deep_keywords := {''Why''}\<rparr>"

text \<open>Four call results: long and short answers, a timeout, an empty answer.\<close>

definition r_long :: CallResult where
  "r_long = \<lparr>c_model = ''m-long'', status = ''ok'', elapsed_s = 2,
             content = PStr (replicate 600 CHR ''x''), tokens = PInt 150, error = None\<rparr>"

definition r_short :: CallResult where
  "r_short = \<lparr>c_model = ''m-short'', status = ''ok'', elapsed_s = 2,
              content = PStr (replicate 30 CHR ''x''), tokens = PInt 8, error = None\<rparr>"

definition r_timeout :: CallResult where
  "r_timeout = \<lparr>c_model = ''m-slow'', status = ''timeout'', elapsed_s = 60,
                content = PNone, tokens = PNone, error = None\<rparr>"

definition r_ok_empty :: CallResult where
  "r_ok_empty = \<lparr>c_model = ''m-empty'', status = ''ok'', elapsed_s = 2,
                 content = PStr [], tokens = PInt 0, error = None\<rparr>"

text \<open>Three models on the primary endpoint, one for each tier.\<close>

definition m_fast :: ModelEntry where
  "m_fast = \<lparr>model_id = ''fast-1'', tier = ''fast'', endpoint = ep_primary, expected_latency_s = 3\<rparr>"

definition m_power :: ModelEntry where
  "m_power = \<lparr>model_id = ''power-1'', tier = ''power'', endpoint = ep_primary, expected_latency_s = 8\<rparr>"

definition m_deep :: ModelEntry where
  "m_deep = \<lparr>model_id = ''deep-1'', tier = ''deep'', endpoint = ep_primary, expected_latency_s = 25\<rparr>"

definition cfg_fast_only :: SwarmConfig where
  "cfg_fast_only = cfg_default\<lparr>models := [m_fast]\<rparr>"

definition cfg_three :: SwarmConfig where
  "cfg_three = cfg_default\<lparr>models := [m_fast, m_power, m_deep]\<rparr>"

text \<open>The response envelope of a chat completion with the given content.\<close>

definition envelope :: "pyval \<Rightarrow> pyval" where
  "envelope c =
     PDict [(''choices'', PList [PDict [(''message'',
              PDict [(''role'', PStr ''assistant''), (''content'', c)])]]),
            (''usage'', PDict [(''total_tokens'', PInt 12)])]"

text \<open>
  A world whose state is the number of requests made so far, which is also what its
  clock shows. A chat request gets the outcome \<open>chat m\<close> for its model \<open>m\<close>, a health
  probe of the address \<open>u\<close> gets \<open>probe_of u\<close>, a search in the knowledge store gets
  \<open>kb\<close>, and the \<open>i\<close>-th future of a pool is done after \<open>secs i\<close> seconds.
\<close>

definition env_of ::
  "(string \<Rightarrow> pyexn + pyval) \<Rightarrow> (string \<Rightarrow> pyexn + nat) \<Rightarrow> (pyexn + pyval) \<Rightarrow> (nat \<Rightarrow> real) \<Rightarrow>
   nat env" where
  "env_of chat probe_of kb secs =
     \<lparr>py_repr = (\<lambda>v. ''<object>''),
      json_dumps = (\<lambda>v. ''<json>''),
      monotonic = real,
      strftime_now = (\<lambda>w. ''2025-01-01T00:00:00Z''),
      http_post_json = (\<lambda>u h body t w.
         (case getitem_str body ''model'' of Inr (PStr m) \<Rightarrow> chat m | _ \<Rightarrow> kb, Suc w)),
      http_post_status = (\<lambda>u h body t w. (Inr (), Suc w)),
      http_get_status = (\<lambda>u h t w. (probe_of u, Suc w)),
      urlopen_json = (\<lambda>u h body t w.
         (case getitem_str body ''model'' of Inr (PStr m) \<Rightarrow> chat m | _ \<Rightarrow> kb, Suc w)),
      done_after = (\<lambda>w i. secs i)\<rparr>"

definition connection_refused :: pyexn where
  "connection_refused = PyExn OtherError ''Connection refused''"

text \<open>Every model answers \<open>hello\<close>; every model answers with the content \<open>null\<close>.\<close>

definition env_hello :: "nat env" where
  "env_hello = env_of (\<lambda>m. Inr (envelope (PStr ''hello''))) (\<lambda>u. Inr 200) (Inr (PList [])) (\<lambda>i. 1)"

definition env_null_content :: "nat env" where
  "env_null_content = env_of (\<lambda>m. Inr (envelope PNone)) (\<lambda>u. Inr 200) (Inr (PList [])) (\<lambda>i. 1)"

text \<open>
  A second endpoint, an endpoint without a name, and models on them. The monitor
  \<open>monitor_two\<close> knows the primary and the secondary endpoint, as the command line builds
  it; \<open>monitor_primary\<close> knows the primary endpoint only.
\<close>

definition ep_secondary :: Endpoint where
  "ep_secondary = \<lparr>url = ''http://localhost:8100'', api_key = ''sk-two'', name = ''secondary''\<rparr>"

definition ep_unnamed :: Endpoint where
  "ep_unnamed = \<lparr>url = ''http://localhost:5000'', api_key = ''sk-three'', name = []\<rparr>"

definition m_power_secondary :: ModelEntry where
  "m_power_secondary =
     \<lparr>model_id = ''power-2'', tier = ''power'', endpoint = ep_secondary, expected_latency_s = 8\<rparr>"

definition m_fast_unnamed :: ModelEntry where
  "m_fast_unnamed =
     \<lparr>model_id = ''fast-0'', tier = ''fast'', endpoint = ep_unnamed, expected_latency_s = 3\<rparr>"

definition cfg_two_endpoints :: SwarmConfig where
  "cfg_two_endpoints = cfg_default\<lparr>models := [m_power_secondary, m_fast]\<rparr>"

definition cfg_unnamed_first :: SwarmConfig where
  "cfg_unnamed_first = cfg_default\<lparr>models := [m_fast_unnamed, m_fast]\<rparr>"

definition monitor_primary :: ServiceHealth where
  "monitor_primary =
     register ServiceHealth_init ''primary'' ''http://localhost:4000/health/liveliness''
       (Some [(''Authorization'', ''Bearer sk-key'')])"

definition monitor_two :: ServiceHealth where
  "monitor_two =
     register monitor_primary ''secondary'' ''http://localhost:8100/health/liveliness''
       (Some [(''Authorization'', ''Bearer sk-two'')])"

text \<open>
  A world where the primary endpoint is alive and the secondary one answers its probe
  with the status 503, and where every chat request is refused.
\<close>

definition env_refusing :: "nat env" where
  "env_refusing =
     env_of (\<lambda>m. Inl connection_refused)
       (\<lambda>u. if u = ''http://localhost:4000/health/liveliness'' then Inr 200 else Inr 503)
       (Inl connection_refused) (\<lambda>i. 1)"

text \<open>
  A configuration with a fast and a deep model, and a world where every model answers,
  the first future of a pool after one second and the others after 110 seconds: within
  the read timeout of 120 seconds of the deep tier, beyond the 100 seconds that
  \<open>consensus\<close> waits by default.
\<close>

definition cfg_fast_deep :: SwarmConfig where
  "cfg_fast_deep = cfg_default\<lparr>models := [m_fast, m_deep]\<rparr>"

definition env_slow_deep :: "nat env" where
  "env_slow_deep =
     env_of (\<lambda>m. Inr (envelope (PStr ''hello''))) (\<lambda>u. Inr 200) (Inr (PList []))
       (\<lambda>i. if i = 0 then 1 else 110)"

text \<open>A world where only the deep model answers and every other chat request is refused.\<close>

definition env_deep_answers :: "nat env" where
  "env_deep_answers =
     env_of (\<lambda>m. if m = ''deep-1'' then Inr (envelope (PStr ''deep answer''))
                  else Inl connection_refused)
       (\<lambda>u. Inr 200) (Inr (PList [])) (\<lambda>i. 1)"

text \<open>
  A configuration with a knowledge store, and a world where every model answers and the
  knowledge store refuses the connection.
\<close>

definition cfg_with_store :: SwarmConfig where
  "cfg_with_store =
     cfg_default\<lparr>knowledge_url := Some ''http://localhost:8080/api/v1'', models := [m_fast]\<rparr>"

definition env_store_down :: "nat env" where
  "env_store_down =
     env_of (\<lambda>m. Inr (envelope (PStr ''hello''))) (\<lambda>u. Inr 200) (Inl connection_refused)
       (\<lambda>i. 1)"

text \<open>
  A world where every chat request is refused, the first future of a pool being done
  after one second and the others after 110 seconds.
\<close>

definition env_slow_refusing :: "nat env" where
  "env_slow_refusing =
     env_of (\<lambda>m. Inl connection_refused) (\<lambda>u. Inr 200) (Inr (PList []))
       (\<lambda>i. if i = 0 then 1 else 110)"

text \<open>
  A call result whose content is a list of parts, as some backends send it.
\<close>

definition r_parts :: CallResult where
  "r_parts = \<lparr>c_model = ''m-parts'', status = ''ok'', elapsed_s = 2,
              content = PList [PDict [(''type'', PStr ''text''), (''text'', PStr ''hello'')]],
              tokens = PInt 3, error = None\<rparr>"

text \<open>
  Two short answers whose scores are equal in exact arithmetic and differ as floats: one
  has a code fence and took 9 seconds, the other has a heading and took 3 seconds.
\<close>

definition r_fenced :: CallResult where
  "r_fenced = \<lparr>c_model = ''m-fenced'', status = ''ok'', elapsed_s = 9,
               content = PStr ''```'', tokens = PInt 3, error = None\<rparr>"

definition r_heading :: CallResult where
  "r_heading = \<lparr>c_model = ''m-heading'', status = ''ok'', elapsed_s = 3,
                content = PStr ''# a'', tokens = PInt 3, error = None\<rparr>"

text \<open>A world where the power model is refused and every other model answers \<open>hello\<close>.\<close>

definition env_power_refused :: "nat env" where
  "env_power_refused =
     env_of (\<lambda>m. if m = ''power-1'' then Inl connection_refused
                  else Inr (envelope (PStr ''hello'')))
       (\<lambda>u. Inr 200) (Inr (PList [])) (\<lambda>i. 1)"

text \<open>A world where every endpoint answers its probe with the status 503.\<close>

definition env_all_down :: "nat env" where
  "env_all_down =
     env_of (\<lambda>m. Inr (envelope (PStr ''hello''))) (\<lambda>u. Inr 503) (Inr (PList [])) (\<lambda>i. 1)"

section \<open>Floats\<close>

lemma round_even_nonneg: "0 \<le> y \<Longrightarrow> 0 \<le> round_even y"
  by (auto simp: round_even_def Let_def)

lemma pow2_pos: "0 < pow2 e"
  by (simp add: pow2_def)

lemma round_double_nonneg: "0 \<le> x \<Longrightarrow> 0 \<le> round_double x"
  unfolding round_double_def
  by (intro mult_nonneg_nonneg) (simp_all add: round_even_nonneg ulp_def pow2_pos less_imp_le)

lemma float_add_nonneg: "0 \<le> x \<Longrightarrow> 0 \<le> y \<Longrightarrow> 0 \<le> float_add x y"
  by (simp add: float_add_def round_double_nonneg)

text \<open>
  The rounding is a rounding to a nearest double: a positive number lies in the binade
  of its exponent, and the rounded number is a multiple of the unit in the last place
  by an integer of at most 53 bits (54 for the power of two that ends a binade), no
  further from the number than half that unit.
\<close>

lemma pow2_Suc: "pow2 (e + 1) = 2 * pow2 e"
proof (cases "0 \<le> e")
  case True
  then have "nat (e + 1) = Suc (nat e)" by simp
  with True show ?thesis by (simp add: pow2_def)
next
  case False
  then have n: "nat (- e) = Suc (nat (- (e + 1)))" by simp
  show ?thesis
  proof (cases "e = - 1")
    case True
    then show ?thesis by (simp add: pow2_def)
  next
    case False
    with \<open>\<not> 0 \<le> e\<close> have "\<not> 0 \<le> e + 1" by simp
    with \<open>\<not> 0 \<le> e\<close> n show ?thesis by (simp add: pow2_def)
  qed
qed

lemma pow2_pred: "pow2 (e - 1) = pow2 e / 2"
  using pow2_Suc [of "e - 1"] by simp

lemma binade_bounds:
  "0 < x \<Longrightarrow> pow2 (binade x) \<le> x \<and> x < pow2 (binade x + 1)"
proof (induction x rule: binade.induct)
  case (1 x)
  show ?case
  proof (cases "2 \<le> x")
    case True
    define e where "e = binade (x / 2)"
    from True 1 have "pow2 e \<le> x / 2 \<and> x / 2 < pow2 (e + 1)" by (simp add: e_def)
    moreover from True 1 have b: "binade x = e + 1" by (simp add: binade.simps [of x] e_def)
    moreover have "pow2 (e + 1) = 2 * pow2 e" and "pow2 (e + 1 + 1) = 2 * pow2 (e + 1)"
      by (rule pow2_Suc)+
    ultimately show ?thesis by simp
  next
    case False
    show ?thesis
    proof (cases "x < 1")
      case True
      define e where "e = binade (x * 2)"
      from True 1 False have "pow2 e \<le> x * 2 \<and> x * 2 < pow2 (e + 1)" by (simp add: e_def)
      moreover from True False 1 have b: "binade x = e - 1" by (simp add: binade.simps [of x] e_def)
      moreover have "pow2 (e - 1) = pow2 e / 2" by (rule pow2_pred)
      moreover have "pow2 (e + 1) = 2 * pow2 e" by (rule pow2_Suc)
      ultimately show ?thesis by simp
    next
      case f: False
      with False 1 have "binade x = 0" by (simp add: binade.simps [of x])
      with f False show ?thesis by (simp add: pow2_def)
    qed
  qed
qed

lemma round_even_error: "\<bar>of_int (round_even y) - y\<bar> \<le> 1 / 2"
  unfolding round_even_def Let_def by (auto simp: abs_le_iff)

lemma round_double_error: "\<bar>round_double x - x\<bar> \<le> ulp x / 2"
proof -
  have u: "0 < ulp x" by (simp add: ulp_def pow2_pos)
  have "\<bar>of_int (round_even (x / ulp x)) - x / ulp x\<bar> \<le> 1 / 2" by (rule round_even_error)
  then have "\<bar>of_int (round_even (x / ulp x)) - x / ulp x\<bar> * ulp x \<le> 1 / 2 * ulp x"
    using u by (intro mult_right_mono) simp_all
  moreover have "\<bar>of_int (round_even (x / ulp x)) - x / ulp x\<bar> * ulp x
      = \<bar>of_int (round_even (x / ulp x)) * ulp x - x\<bar>"
  proof -
    have "\<bar>of_int (round_even (x / ulp x)) - x / ulp x\<bar> * ulp x
        = \<bar>(of_int (round_even (x / ulp x)) - x / ulp x) * ulp x\<bar>"
      using u by (simp add: abs_mult)
    also have "(of_int (round_even (x / ulp x)) - x / ulp x) * ulp x
        = of_int (round_even (x / ulp x)) * ulp x - x"
      using u by (simp add: algebra_simps)
    finally show ?thesis .
  qed
  ultimately show ?thesis by (simp add: round_double_def)
qed

lemma pow2_powi: "pow2 e = 2 powi e"
  by (simp add: pow2_def power_int_def power_inverse inverse_eq_divide power_one_over)

lemma pow2_diff: "pow2 (a - b) = pow2 a / pow2 b"
  by (simp add: pow2_powi power_int_diff)

lemma pow2_mono: "a \<le> b \<Longrightarrow> pow2 a \<le> pow2 b"
  by (simp add: pow2_powi power_int_increasing)

lemma round_even_le: "y \<le> of_int n \<Longrightarrow> round_even y \<le> n"
proof -
  assume h: "y \<le> of_int n"
  show ?thesis
  proof (cases "y = of_int n")
    case True
    then show ?thesis by (simp add: round_even_def)
  next
    case False
    with h have "y < of_int n" by simp
    then have "\<lfloor>y\<rfloor> < n" by (simp add: floor_less_iff)
    then show ?thesis by (auto simp: round_even_def Let_def)
  qed
qed

lemma round_even_ge: "of_int n \<le> y \<Longrightarrow> n \<le> round_even y"
proof -
  assume "of_int n \<le> y"
  then have "n \<le> \<lfloor>y\<rfloor>" by (simp add: le_floor_iff)
  then show ?thesis by (auto simp: round_even_def Let_def)
qed

lemma significand_bound: "\<bar>x\<bar> / ulp x \<le> 2 ^ 53"
proof (cases "x = 0")
  case True
  then show ?thesis by simp
next
  case False
  then have p: "0 < \<bar>x\<bar>" by simp
  define b where "b = binade \<bar>x\<bar>"
  from binade_bounds [OF p] have up: "\<bar>x\<bar> < pow2 (b + 1)" by (simp add: b_def)
  have u: "ulp x = pow2 (max b (- 1022) - 52)" by (simp add: ulp_def b_def)
  have "pow2 (b + 1) \<le> pow2 (max b (- 1022) + 1)" by (intro pow2_mono) simp
  also have "\<dots> = pow2 (max b (- 1022) - 52) * 2 ^ 53"
  proof -
    have "pow2 (max b (- 1022) - 52) = pow2 (max b (- 1022) + 1) / pow2 53"
      using pow2_diff [of "max b (- 1022) + 1" 53] by simp
    moreover have "pow2 53 = 2 ^ 53" by (simp add: pow2_def)
    ultimately show ?thesis by simp
  qed
  finally have "pow2 (b + 1) \<le> ulp x * 2 ^ 53" by (simp add: u)
  with up have "\<bar>x\<bar> \<le> ulp x * 2 ^ 53" by simp
  moreover have "0 < ulp x" by (simp add: ulp_def pow2_pos)
  ultimately show ?thesis by (simp add: field_simps)
qed

lemma round_double_significand:
  "round_double x = of_int (round_even (x / ulp x)) * ulp x \<and> \<bar>round_even (x / ulp x)\<bar> \<le> 2 ^ 53"
proof -
  have u: "0 < ulp x" by (simp add: ulp_def pow2_pos)
  from u have "\<bar>ulp x\<bar> = ulp x" by simp
  then have "\<bar>x / ulp x\<bar> = \<bar>x\<bar> / ulp x" by (simp only: abs_divide)
  with significand_bound [of x] have a: "\<bar>x / ulp x\<bar> \<le> 2 ^ 53" by (simp only:)
  from a have "x / ulp x \<le> 2 ^ 53" by (rule abs_le_D1)
  moreover from a have "- (x / ulp x) \<le> 2 ^ 53" by (rule abs_le_D2)
  ultimately have le: "x / ulp x \<le> of_int (2 ^ 53)" and ge: "of_int (- (2 ^ 53)) \<le> x / ulp x"
    by simp_all
  from le have "round_even (x / ulp x) \<le> 2 ^ 53" by (rule round_even_le)
  moreover from ge have "- (2 ^ 53) \<le> round_even (x / ulp x)" by (rule round_even_ge)
  ultimately show ?thesis by (simp add: round_double_def abs_le_iff)
qed

text \<open>The rules that compute an operation on given numbers.\<close>

lemmas float_defs = float_add_def float_sub_def float_div_def round_double_def ulp_def pow2_def
  binade.simps round_even_def

text \<open>The latency between two readings of the clock one second apart, and two apart.\<close>

lemma deadline_values: "float_add 90 10 = 100"
  by (simp add: float_defs)

lemma latency_values:
  "py_round2 (float_sub 1 0) = 1" "py_round2 (float_sub 2 1) = 1" "py_round2 (float_sub 3 2) = 1"
  "py_round2 (float_sub 2 0) = 2" "py_round2 (float_sub 3 1) = 2" "py_round2 (float_sub 4 3) = 1"
  by (simp_all add: py_round2_def float_defs)

section \<open>The complexity classifier\<close>

lemma default_keywords_lower:
  "\<forall>kw \<in> default_deep_keywords. lower kw = kw"
  by (simp add: default_deep_keywords_def lower_def lower_char_def)

lemma classify_complexity_unfold:
  "classify_complexity cfg p =
     (if (\<exists>kw \<in> deep_keywords cfg. sublist kw (lower p))
         \<or> int (length (split_ws p)) > t2_max_words cfg then ''T3''
      else if int (length (split_ws p)) > t1_max_words cfg then ''T2''
      else ''T1'')"
  by (simp add: classify_complexity_def Let_def)

lemma classify_lower_keywords:
  assumes "\<forall>kw \<in> deep_keywords cfg. lower kw = kw"
  shows "classify_complexity cfg p = classify_spec cfg p"
proof -
  from assms have "(\<exists>kw \<in> deep_keywords cfg. sublist kw (lower p))
      = (\<exists>kw \<in> deep_keywords cfg. ci_substring kw p)"
    by (auto simp: ci_substring_def)
  then show ?thesis
    by (simp add: classify_complexity_unfold classify_spec_def)
qed

lemma why_is_deep:
  assumes "deep_keywords cfg = default_deep_keywords"
  shows "classify_complexity cfg ''why'' = ''T3''"
  using assms
  by (simp add: classify_complexity_def default_deep_keywords_def lower_def lower_char_def)

text \<open>
  Claim C2, as amended. \<open>classify_complexity\<close> depends on the prompt, the two thresholds
  and the keyword set only. It returns T3 when some configured keyword, taken as it is
  written, occurs in the lower-cased prompt, or when the prompt has more than
  \<open>t2_max_words\<close> words; otherwise T2 when it has more than \<open>t1_max_words\<close> words;
  otherwise T1. When every configured keyword is in lower case, as in the default set,
  this is the case-insensitive match of the specification. Under the default keyword
  set the prompt \<open>why\<close> is T3.
\<close>

theorem classify_complexity_tiers:
  "classify_complexity cfg p =
     (if (\<exists>kw \<in> deep_keywords cfg. sublist kw (lower p))
         \<or> int (length (split_ws p)) > t2_max_words cfg then ''T3''
      else if int (length (split_ws p)) > t1_max_words cfg then ''T2''
      else ''T1'')
   \<and> (keywords_lower cfg \<longrightarrow> classify_complexity cfg p = classify_spec cfg p)
   \<and> (deep_keywords cfg = default_deep_keywords \<longrightarrow>
        keywords_lower cfg \<and> classify_complexity cfg ''why'' = ''T3'')"
proof (intro conjI impI)
  show "classify_complexity cfg p =
     (if (\<exists>kw \<in> deep_keywords cfg. sublist kw (lower p))
         \<or> int (length (split_ws p)) > t2_max_words cfg then ''T3''
      else if int (length (split_ws p)) > t1_max_words cfg then ''T2''
      else ''T1'')"
    by (rule classify_complexity_unfold)
next
  assume "keywords_lower cfg"
  then show "classify_complexity cfg p = classify_spec cfg p"
    by (simp add: keywords_lower_def classify_lower_keywords)
next
  assume "deep_keywords cfg = default_deep_keywords"
  then show "keywords_lower cfg"
    by (simp add: keywords_lower_def default_keywords_lower)
next
  assume "deep_keywords cfg = default_deep_keywords"
  then show "classify_complexity cfg ''why'' = ''T3''"
    by (rule why_is_deep)
qed

text \<open>
  The theorem at the default configuration and the prompt \<open>Tell me WHY\<close>: the keyword
  \<open>why\<close> matches the capitals of the prompt.
\<close>

theorem classify_complexity_tiers_witness:
  "deep_keywords cfg_default = default_deep_keywords
   \<and> keywords_lower cfg_default
   \<and> classify_complexity cfg_default ''Tell me WHY'' = ''T3''
   \<and> classify_spec cfg_default ''Tell me WHY'' = ''T3''
   \<and> classify_complexity cfg_default ''why'' = ''T3''"
proof -
  have d: "deep_keywords cfg_default = default_deep_keywords"
    by (simp add: cfg_default_def)
  from classify_complexity_tiers [of cfg_default "''Tell me WHY''"] d
  have k: "keywords_lower cfg_default"
    and w: "classify_complexity cfg_default ''why'' = ''T3''"
    and e: "classify_complexity cfg_default ''Tell me WHY'' = classify_spec cfg_default ''Tell me WHY''"
    by blast+
  have "sublist ''why'' (lower ''Tell me WHY'')"
    by code_simp
  then have "classify_complexity cfg_default ''Tell me WHY'' = ''T3''"
    by (auto simp: classify_complexity_unfold cfg_default_def default_deep_keywords_def)
  with d k w e show ?thesis by simp
qed

text \<open>
  The claim as stated fails where a configured keyword has a capital letter: the
  keyword \<open>Why\<close> occurs in the prompt \<open>Why\<close>, as it is written and a fortiori with letter
  case ignored, and the prompt is classified T1, since only the prompt is lower-cased
  before the test.
\<close>

theorem classify_capital_keyword_counterexample:
  "''Why'' \<in> deep_keywords cfg_capital_keyword
   \<and> sublist ''Why'' ''Why''
   \<and> ci_substring ''Why'' ''Why''
   \<and> classify_spec cfg_capital_keyword ''Why'' = ''T3''
   \<and> classify_complexity cfg_capital_keyword ''Why'' = ''T1''"
proof -
  have "''Why'' \<in> deep_keywords cfg_capital_keyword"
    by (simp add: cfg_capital_keyword_def)
  moreover have "sublist ''Why'' ''Why''"
    by simp
  moreover have "ci_substring ''Why'' ''Why''"
    by (simp add: ci_substring_def)
  moreover have "classify_spec cfg_capital_keyword ''Why'' = ''T3''"
    by (simp add: classify_spec_def cfg_capital_keyword_def ci_substring_def)
  moreover have "classify_complexity cfg_capital_keyword ''Why'' = ''T1''"
    by code_simp
  ultimately show ?thesis by simp
qed

section \<open>Ranking\<close>

lemma keys_of_Inr_D:
  "keys_of k xs = Inr ks \<Longrightarrow> map k xs = map Inr ks"
  by (induction xs arbitrary: ks) (auto split: sum.splits)

lemma keys_of_Inr_I:
  "map k xs = map Inr ks \<Longrightarrow> keys_of k xs = Inr ks"
proof (induction xs arbitrary: ks)
  case Nil
  then show ?case by simp
next
  case (Cons x xs)
  then obtain v vs where ks: "ks = v # vs" by (cases ks) auto
  with Cons.prems have "k x = Inr v" and "map k xs = map Inr vs" by simp_all
  with Cons.IH [of vs] ks show ?case by simp
qed

lemma insort_key_decorate:
  "insort_key fst (f x, x) (map (\<lambda>y. (f y, y)) ys) = map (\<lambda>y. (f y, y)) (insort_key f x ys)"
  by (induction ys) auto

lemma sort_key_decorate:
  "sort_key fst (map (\<lambda>y. (f y, y)) xs) = map (\<lambda>y. (f y, y)) (sort_key f xs)"
  by (induction xs) (auto simp: insort_key_decorate)

lemma zip_decorate: "zip (map f xs) xs = map (\<lambda>y. (f y, y)) xs"
  by (induction xs) auto

lemma sorted_reverse_decorated:
  "map snd (sorted_reverse (zip (map f xs) xs)) = rev (sort_key f (rev xs))"
proof -
  have "rev (zip (map f xs) xs) = map (\<lambda>y. (f y, y)) (rev xs)"
    by (simp add: zip_decorate rev_map)
  then have "sorted_reverse (zip (map f xs) xs) = rev (map (\<lambda>y. (f y, y)) (sort_key f (rev xs)))"
    by (simp add: sorted_reverse_def sort_key_decorate)
  then show ?thesis
    by (simp add: rev_map [symmetric] comp_def)
qed

lemma rev_sort_rev:
  fixes f :: "'a \<Rightarrow> real"
  shows "rev (sort_key f (rev xs)) = sort_key (\<lambda>x. - f x) xs"
proof (rule properties_for_sort_key [symmetric])
  show "mset (rev (sort_key f (rev xs))) = mset xs" by simp
next
  fix k
  have "filter (\<lambda>x. f x = f k) (sort_key f (rev xs)) = filter (\<lambda>x. f x = f k) (rev xs)"
    by (rule sort_key_stable)
  then have "filter (\<lambda>x. f k = f x) (sort_key f (rev xs)) = filter (\<lambda>x. f k = f x) (rev xs)"
    by (simp add: eq_commute)
  then show "filter (\<lambda>x. - f k = - f x) (rev (sort_key f (rev xs))) = filter (\<lambda>x. - f k = - f x) xs"
    by (simp add: rev_filter [symmetric])
next
  have "sorted (map f (sort_key f (rev xs)))" by simp
  then have "sorted_wrt (\<lambda>a b. f a \<le> f b) (sort_key f (rev xs))"
    by (simp add: sorted_map)
  then have "sorted_wrt (\<lambda>a b. f b \<le> f a) (rev (sort_key f (rev xs)))"
    by (simp add: sorted_wrt_rev)
  then show "sorted (map (\<lambda>x. - f x) (rev (sort_key f (rev xs))))"
    by (simp add: sorted_map)
qed


lemma score_result_typed:
  "text_or_none (content r) \<Longrightarrow> score_result r = Inr (score_value r)"
  by (cases "content r") (auto simp: score_value_def score_result_def)

lemma keys_of_score_value:
  assumes "keys_of score_result rs = Inr ks"
  shows "ks = map score_value rs"
proof -
  from assms have "map score_result rs = map Inr ks" by (rule keys_of_Inr_D)
  then have "map (\<lambda>r. case score_result r of Inr v \<Rightarrow> v | Inl exc \<Rightarrow> 0) rs = ks"
    by (induction rs arbitrary: ks) auto
  then show ?thesis by (simp add: score_value_def [abs_def])
qed

lemma rank_results_Inr:
  assumes "rank_results rs = Inr ys"
  shows "ys = sort_key (\<lambda>r. - score_value r) rs" and "\<forall>r \<in> set rs. score_result r = Inr (score_value r)"
proof -
  from assms obtain ks where ks: "keys_of score_result rs = Inr ks"
    and ys: "ys = map snd (sorted_reverse (zip ks rs))"
    by (auto simp: rank_results_def split: sum.splits)
  from ks have "ks = map score_value rs" by (rule keys_of_score_value)
  with ys show "ys = sort_key (\<lambda>r. - score_value r) rs"
    by (simp add: sorted_reverse_decorated rev_sort_rev)
  from ks have "map score_result rs = map Inr ks" by (rule keys_of_Inr_D)
  with \<open>ks = map score_value rs\<close> show "\<forall>r \<in> set rs. score_result r = Inr (score_value r)"
    by auto
qed

lemma rank_results_total:
  assumes "\<forall>r \<in> set rs. score_result r = Inr (score_value r)"
  shows "rank_results rs = Inr (sort_key (\<lambda>r. - score_value r) rs)"
proof -
  from assms have "map score_result rs = map Inr (map score_value rs)" by simp
  then have "keys_of score_result rs = Inr (map score_value rs)" by (rule keys_of_Inr_I)
  then show ?thesis
    by (simp add: rank_results_def sorted_reverse_decorated rev_sort_rev)
qed

lemma sorted_desc_sort_key:
  fixes f :: "'a \<Rightarrow> real"
  shows "sorted_wrt (\<lambda>a b. f b \<le> f a) (sort_key (\<lambda>x. - f x) xs)"
proof -
  have "sorted (map (\<lambda>x. - f x) (sort_key (\<lambda>x. - f x) xs))" by simp
  then show ?thesis by (simp add: sorted_map)
qed

lemma sorted_desc_ranks_above:
  fixes f :: "'a \<Rightarrow> real"
  assumes "sorted_wrt (\<lambda>a b. f b \<le> f a) ys" and "f b < f a"
  shows "ranks_above ys a b"
  unfolding ranks_above_def
proof (intro allI impI)
  fix i j
  assume h: "i < length ys \<and> j < length ys \<and> ys ! i = a \<and> ys ! j = b"
  show "i < j"
  proof (rule ccontr)
    assume "\<not> i < j"
    then have "j < i \<or> j = i" by auto
    then show False
    proof
      assume "j < i"
      with assms(1) h have "f (ys ! i) \<le> f (ys ! j)"
        by (auto simp: sorted_wrt_iff_nth_less)
      with h assms(2) show False by simp
    next
      assume "j = i"
      with h assms(2) show False by auto
    qed
  qed
qed

lemma text_score_formula:
  "text_score s e =
     float_add
       (float_add
          (if length s < 50 then round_double (1 / 10)
           else min (float_div (round_double (real (length s))) 500) 3)
          (if \<exists>line \<in> set (splitlines s). startswith_hash line
           then float_add (if sublist ''```'' s then float_add 0 (1 / 2) else 0) (round_double (3 / 10))
           else (if sublist ''```'' s then float_add 0 (1 / 2) else 0)))
       (max 0 (float_sub 1 (float_div (round_double e) 30)))"
  by (simp add: text_score_def Let_def)

lemma text_score_nonneg: "0 \<le> text_score s e"
proof -
  have l: "0 \<le> (if length s < 50 then round_double (1 / 10)
             else min (float_div (round_double (real (length s))) 500) 3)"
    by (simp add: float_div_def round_double_nonneg)
  have f: "0 \<le> (if sublist ''```'' s then float_add 0 (1 / 2) else 0)"
    by (simp add: float_add_nonneg)
  then have st: "0 \<le> (if \<exists>line \<in> set (splitlines s). startswith_hash line
             then float_add (if sublist ''```'' s then float_add 0 (1 / 2) else 0) (round_double (3 / 10))
             else (if sublist ''```'' s then float_add 0 (1 / 2) else 0))"
    by (simp add: float_add_nonneg round_double_nonneg)
  have sp: "0 \<le> max 0 (float_sub 1 (float_div (round_double e) 30))" by simp
  from l st sp show ?thesis
    unfolding text_score_def Let_def by (intro float_add_nonneg)
qed

lemma text_score_600_values:
  "float_add (float_add (min (float_div (round_double 600) 500) 3) 0) (max 0 (float_sub 1 (float_div (round_double 2) 30))) = 4803839602528529 / 2251799813685248"
  "float_add (float_add (min (float_div (round_double 600) 500) 3) (float_add 0 (round_double (3 / 10)))) (max 0 (float_sub 1 (float_div (round_double 2) 30))) = 684922443329263 / 281474976710656"
  "float_add (float_add (min (float_div (round_double 600) 500) 3) (float_add 0 (1 / 2))) (max 0 (float_sub 1 (float_div (round_double 2) 30))) = 5929739509371153 / 2251799813685248"
  "float_add (float_add (min (float_div (round_double 600) 500) 3) (float_add (float_add 0 (1 / 2)) (round_double (3 / 10)))) (max 0 (float_sub 1 (float_div (round_double 2) 30))) = 825659931684591 / 281474976710656"
  by (simp_all add: float_defs)

lemma text_score_600:
  assumes "length s = 600"
  shows "4803839602528529 / 2251799813685248 \<le> text_score s 2"
proof -
  let ?F = "sublist ''```'' s"
  let ?H = "\<exists>line \<in> set (splitlines s). startswith_hash line"
  consider (plain) "\<not> ?F" "\<not> ?H" | (hash) "\<not> ?F" "?H" | (fence) "?F" "\<not> ?H" | (both) "?F" "?H"
    by blast
  then show ?thesis
  proof cases
    case plain
    with assms have "text_score s 2 = float_add (float_add (min (float_div (round_double 600) 500) 3) 0) (max 0 (float_sub 1 (float_div (round_double 2) 30)))"
      by (simp add: text_score_formula)
    then have "text_score s 2 = 4803839602528529 / 2251799813685248"
      by (simp only: text_score_600_values)
    then show ?thesis by simp
  next
    case hash
    with assms have "text_score s 2 = float_add (float_add (min (float_div (round_double 600) 500) 3) (float_add 0 (round_double (3 / 10)))) (max 0 (float_sub 1 (float_div (round_double 2) 30)))"
      by (simp add: text_score_formula)
    then have "text_score s 2 = 684922443329263 / 281474976710656"
      by (simp only: text_score_600_values)
    then show ?thesis by simp
  next
    case fence
    with assms have "text_score s 2 = float_add (float_add (min (float_div (round_double 600) 500) 3) (float_add 0 (1 / 2))) (max 0 (float_sub 1 (float_div (round_double 2) 30)))"
      by (simp add: text_score_formula)
    then have "text_score s 2 = 5929739509371153 / 2251799813685248"
      by (simp only: text_score_600_values)
    then show ?thesis by simp
  next
    case both
    with assms have "text_score s 2 = float_add (float_add (min (float_div (round_double 600) 500) 3) (float_add (float_add 0 (1 / 2)) (round_double (3 / 10)))) (max 0 (float_sub 1 (float_div (round_double 2) 30)))"
      by (simp add: text_score_formula)
    then have "text_score s 2 = 825659931684591 / 281474976710656"
      by (simp only: text_score_600_values)
    then show ?thesis by simp
  qed
qed

lemma text_score_30_values:
  "float_add (float_add (round_double (1 / 10)) 0) (max 0 (float_sub 1 (float_div (round_double 2) 30))) = 4653719614949513 / 4503599627370496"
  "float_add (float_add (round_double (1 / 10)) (float_add 0 (round_double (3 / 10)))) (max 0 (float_sub 1 (float_div (round_double 2) 30))) = 3002399751580331 / 2251799813685248"
  "float_add (float_add (round_double (1 / 10)) (float_add 0 (1 / 2))) (max 0 (float_sub 1 (float_div (round_double 2) 30))) = 863189928579345 / 562949953421312"
  "float_add (float_add (round_double (1 / 10)) (float_add (float_add 0 (1 / 2)) (round_double (3 / 10)))) (max 0 (float_sub 1 (float_div (round_double 2) 30))) = 4128299658422955 / 2251799813685248"
  by (simp_all add: float_defs)

lemma text_score_30:
  assumes "length t = 30"
  shows "text_score t 2 \<le> 4128299658422955 / 2251799813685248"
proof -
  let ?F = "sublist ''```'' t"
  let ?H = "\<exists>line \<in> set (splitlines t). startswith_hash line"
  consider (plain) "\<not> ?F" "\<not> ?H" | (hash) "\<not> ?F" "?H" | (fence) "?F" "\<not> ?H" | (both) "?F" "?H"
    by blast
  then show ?thesis
  proof cases
    case plain
    with assms have "text_score t 2 = float_add (float_add (round_double (1 / 10)) 0) (max 0 (float_sub 1 (float_div (round_double 2) 30)))"
      by (simp add: text_score_formula)
    then have "text_score t 2 = 4653719614949513 / 4503599627370496"
      by (simp only: text_score_30_values)
    then show ?thesis by simp
  next
    case hash
    with assms have "text_score t 2 = float_add (float_add (round_double (1 / 10)) (float_add 0 (round_double (3 / 10)))) (max 0 (float_sub 1 (float_div (round_double 2) 30)))"
      by (simp add: text_score_formula)
    then have "text_score t 2 = 3002399751580331 / 2251799813685248"
      by (simp only: text_score_30_values)
    then show ?thesis by simp
  next
    case fence
    with assms have "text_score t 2 = float_add (float_add (round_double (1 / 10)) (float_add 0 (1 / 2))) (max 0 (float_sub 1 (float_div (round_double 2) 30)))"
      by (simp add: text_score_formula)
    then have "text_score t 2 = 863189928579345 / 562949953421312"
      by (simp only: text_score_30_values)
    then show ?thesis by simp
  next
    case both
    with assms have "text_score t 2 = float_add (float_add (round_double (1 / 10)) (float_add (float_add 0 (1 / 2)) (round_double (3 / 10)))) (max 0 (float_sub 1 (float_div (round_double 2) 30)))"
      by (simp add: text_score_formula)
    then have "text_score t 2 = 4128299658422955 / 2251799813685248"
      by (simp only: text_score_30_values)
    then show ?thesis by simp
  qed
qed

lemma text_score_600_30:
  assumes "length s = 600" and "length t = 30"
  shows "text_score t 2 < text_score s 2"
proof -
  from assms(2) have "text_score t 2 \<le> 4128299658422955 / 2251799813685248"
    by (rule text_score_30)
  moreover from assms(1) have "4803839602528529 / 2251799813685248 \<le> text_score s 2"
    by (rule text_score_600)
  ultimately show ?thesis by linarith
qed


lemma score_value_failed:
  "status r \<noteq> ''ok'' \<or> \<not> truthy (content r) \<Longrightarrow> score_value r = - 1"
  by (auto simp: score_value_def score_result_def)

lemma score_value_text:
  "status r = ''ok'' \<Longrightarrow> content r = PStr s \<Longrightarrow> s \<noteq> [] \<Longrightarrow>
   score_value r = text_score s (elapsed_s r)"
  by (simp add: score_value_def score_result_def)

lemma score_value_ok_truthy:
  assumes "text_or_none (content r)" and "status r = ''ok''" and "truthy (content r)"
  shows "0 \<le> score_value r"
proof (cases "content r")
  case (PStr s)
  with assms have "s \<noteq> []" by simp
  with assms PStr have "score_value r = text_score s (elapsed_s r)"
    by (simp add: score_value_text)
  with text_score_nonneg [of s "elapsed_s r"] show ?thesis
    by (simp only:)
qed (use assms in auto)

lemma splitlines_chars:
  "line \<in> set (splitlines s) \<Longrightarrow> set line \<subseteq> set s"
proof (induction s arbitrary: line rule: splitlines.induct)
  case 1
  then show ?case by simp
next
  case (2 c cs)
  let ?p = "\<lambda>d. \<not> is_linebreak d"
  have first: "set (takeWhile ?p (c # cs)) \<subseteq> set (c # cs)"
    using set_takeWhileD by fastforce
  have sub: "set (dropWhile ?p (c # cs)) \<subseteq> set (c # cs)"
    using set_dropWhileD by fastforce
  show ?case
  proof (cases "dropWhile ?p (c # cs)")
    case Nil
    with "2.prems" have "line = takeWhile ?p (c # cs)"
      by (simp del: takeWhile.simps dropWhile.simps)
    with first show ?thesis by simp
  next
    case (Cons b rest)
    with sub have rest: "set rest \<subseteq> set (c # cs)" by auto
    show ?thesis
    proof (cases "b = CHR 0x0D \<and> rest \<noteq> [] \<and> hd rest = CHR 0x0A")
      case True
      with Cons "2.prems" have "line = takeWhile ?p (c # cs) \<or> line \<in> set (splitlines (tl rest))"
        by (simp del: takeWhile.simps dropWhile.simps)
      then show ?thesis
      proof
        assume "line = takeWhile ?p (c # cs)"
        with first show ?thesis by simp
      next
        assume "line \<in> set (splitlines (tl rest))"
        with "2.IH"(1) [OF Cons True] have "set line \<subseteq> set (tl rest)" .
        moreover have "set (tl rest) \<subseteq> set rest" by (cases rest) auto
        ultimately show ?thesis using rest by blast
      qed
    next
      case False
      with Cons "2.prems" have "line = takeWhile ?p (c # cs) \<or> line \<in> set (splitlines rest)"
        by (simp del: takeWhile.simps dropWhile.simps)
      then show ?thesis
      proof
        assume "line = takeWhile ?p (c # cs)"
        with first show ?thesis by simp
      next
        assume "line \<in> set (splitlines rest)"
        with "2.IH"(2) [OF Cons False] have "set line \<subseteq> set rest" .
        with rest show ?thesis by blast
      qed
    qed
  qed
qed

lemma text_score_plain:
  assumes "CHR ''#'' \<notin> set s" and "CHR 0x60 \<notin> set s"
  shows "text_score s e =
     float_add
       (float_add
          (if length s < 50 then round_double (1 / 10)
           else min (float_div (round_double (real (length s))) 500) 3) 0)
       (max 0 (float_sub 1 (float_div (round_double e) 30)))"
proof -
  have "\<not> sublist ''```'' s"
  proof
    assume "sublist ''```'' s"
    then have "set ''```'' \<subseteq> set s" by (rule set_mono_sublist)
    with assms(2) show False by simp
  qed
  moreover have "\<not> (\<exists>line \<in> set (splitlines s). startswith_hash line)"
  proof
    assume "\<exists>line \<in> set (splitlines s). startswith_hash line"
    then obtain line where "line \<in> set (splitlines s)" and "startswith_hash line" by blast
    then have "set line \<subseteq> set s" and "CHR ''#'' \<in> set line"
      by (auto simp: splitlines_chars startswith_hash_def split: list.splits)
    with assms(1) show False by blast
  qed
  ultimately show ?thesis by (simp add: text_score_formula)
qed

lemma eval_scores:
  "score_result r_long = Inr (4803839602528529 / 2251799813685248)"
  "score_result r_short = Inr (4653719614949513 / 4503599627370496)"
  "score_result r_timeout = Inr (- 1)" "score_result r_ok_empty = Inr (- 1)"
proof -
  have "score_result r_long = Inr (float_add (float_add (min (float_div (round_double 600) 500) 3) 0)
      (max 0 (float_sub 1 (float_div (round_double 2) 30))))"
    by (simp add: score_result_def r_long_def text_score_plain)
  then show "score_result r_long = Inr (4803839602528529 / 2251799813685248)"
    by (simp only: text_score_600_values)
  have "score_result r_short = Inr (float_add (float_add (round_double (1 / 10)) 0)
      (max 0 (float_sub 1 (float_div (round_double 2) 30))))"
    by (simp add: score_result_def r_short_def text_score_plain)
  then show "score_result r_short = Inr (4653719614949513 / 4503599627370496)"
    by (simp only: text_score_30_values)
  show "score_result r_timeout = Inr (- 1)" "score_result r_ok_empty = Inr (- 1)"
    by (simp_all add: score_result_def r_timeout_def r_ok_empty_def)
qed

text \<open>
  The scores of the fenced and of the headed answer: \<open>0.1 + 0.5 + 0.7\<close> and
  \<open>0.1 + 0.3 + 0.9\<close>. Both are \<open>1.3\<close> in exact arithmetic; as floats the first is
  \<open>1.2999999999999998\<close>, the second \<open>1.3\<close>, and the headed answer ranks first.
\<close>

lemma structure_fenced:
  "sublist ''```'' ''```''" "\<not> (\<exists>line \<in> set (splitlines ''```''). startswith_hash line)"
  by (simp_all add: startswith_hash_def is_linebreak_def)

lemma structure_heading:
  "\<not> sublist ''```'' ''# a''" "\<exists>line \<in> set (splitlines ''# a''). startswith_hash line"
proof -
  show "\<not> sublist ''```'' ''# a''"
  proof
    assume "sublist ''```'' ''# a''"
    then have "set ''```'' \<subseteq> set ''# a''" by (rule set_mono_sublist)
    then show False by simp
  qed
  show "\<exists>line \<in> set (splitlines ''# a''). startswith_hash line"
    by (simp add: startswith_hash_def is_linebreak_def)
qed

lemma rounded_values:
  "float_add (float_add (round_double (1 / 10)) (float_add 0 (1 / 2)))
     (max 0 (float_sub 1 (float_div (round_double 9) 30))) = 1463669878895411 / 1125899906842624"
  "float_add (float_add (round_double (1 / 10)) (float_add 0 (round_double (3 / 10))))
     (max 0 (float_sub 1 (float_div (round_double 3) 30))) = 5854679515581645 / 4503599627370496"
  by (simp_all add: float_defs)

lemma eval_scores_rounded:
  "score_result r_fenced = Inr (1463669878895411 / 1125899906842624)"
  "score_result r_heading = Inr (5854679515581645 / 4503599627370496)"
proof -
  have "score_result r_fenced = Inr (float_add (float_add (round_double (1 / 10)) (float_add 0 (1 / 2)))
     (max 0 (float_sub 1 (float_div (round_double 9) 30))))"
    by (simp add: score_result_def r_fenced_def text_score_formula structure_fenced
          del: splitlines.simps)
  then show "score_result r_fenced = Inr (1463669878895411 / 1125899906842624)"
    by (simp only: rounded_values)
  have "score_result r_heading = Inr (float_add (float_add (round_double (1 / 10)) (float_add 0 (round_double (3 / 10))))
     (max 0 (float_sub 1 (float_div (round_double 3) 30))))"
    by (simp add: score_result_def r_heading_def text_score_formula structure_heading
          del: splitlines.simps)
  then show "score_result r_heading = Inr (5854679515581645 / 4503599627370496)"
    by (simp only: rounded_values)
qed

lemma rank_results_rounded:
  "rank_results [r_fenced, r_heading] = Inr [r_heading, r_fenced]"
  by (simp add: rank_results_def eval_scores_rounded sorted_reverse_def)


lemma rank_results_order_kept:
  assumes "rank_results rs = Inr ys"
  shows "filter (\<lambda>r. score_value r = k) ys = filter (\<lambda>r. score_value r = k) rs"
proof -
  from assms have "ys = sort_key (\<lambda>r. - score_value r) rs"
    by (rule rank_results_Inr)
  moreover have "filter (\<lambda>r. - score_value r = - k) (sort_key (\<lambda>r. - score_value r) rs)
      = filter (\<lambda>r. - score_value r = - k) rs"
    by (rule sort_key_stable)
  ultimately show ?thesis by simp
qed

lemma rank_results_again:
  assumes "rank_results rs = Inr ys"
  shows "rank_results ys = Inr ys"
proof -
  from assms have ys: "ys = sort_key (\<lambda>r. - score_value r) rs"
    and sc: "\<forall>r \<in> set rs. score_result r = Inr (score_value r)"
    by (rule rank_results_Inr)+
  from ys sc have "\<forall>r \<in> set ys. score_result r = Inr (score_value r)" by simp
  then have "rank_results ys = Inr (sort_key (\<lambda>r. - score_value r) ys)"
    by (rule rank_results_total)
  moreover from ys have "sorted (map (\<lambda>r. - score_value r) ys)" by simp
  then have "sort_key (\<lambda>r. - score_value r) ys = ys"
    by (rule sort_key_id_if_sorted)
  ultimately show ?thesis by simp
qed

text \<open>
  Claim C5, as amended. On a list of results whose content is text or nothing,
  \<open>rank_results\<close> returns a permutation of the list in descending order of score. A
  result whose status is not \<open>ok\<close> or whose content is missing or empty scores \<open>-1\<close>; an
  \<open>ok\<close> result with text scores the length score (\<open>0.1\<close> below 50 characters, else the
  length over 500, at most 3), plus \<open>0.5\<close> for a code fence, plus \<open>0.3\<close> for a line that
  starts with a hash sign, plus the speed score. So an \<open>ok\<close> result with 600 characters
  at 2 seconds ranks above one with 30 characters at 2 seconds, and a result that is not
  \<open>ok\<close> ranks below every \<open>ok\<close> result whose content is not empty; results of equal
  score, such as a timeout and an \<open>ok\<close> result with empty content, keep the order they
  have in the input. The sums are those of Python's floats.
\<close>

theorem rank_results_by_score:
  assumes typed: "\<forall>r \<in> set rs. text_or_none (content r)"
  shows "\<exists>ys. rank_results rs = Inr ys \<and> mset ys = mset rs
     \<and> sorted_wrt (\<lambda>a b. score_value b \<le> score_value a) ys
     \<and> (\<forall>r \<in> set rs. score_result r = Inr (score_value r)
          \<and> (status r \<noteq> ''ok'' \<or> \<not> truthy (content r) \<longrightarrow> score_value r = - 1)
          \<and> (\<forall>s. status r = ''ok'' \<and> content r = PStr s \<and> s \<noteq> [] \<longrightarrow>
                score_value r =
                  float_add
                    (float_add
                       (if length s < 50 then round_double (1 / 10)
                        else min (float_div (round_double (real (length s))) 500) 3)
                       (if \<exists>line \<in> set (splitlines s). startswith_hash line
                        then float_add (if sublist ''```'' s then float_add 0 (1 / 2) else 0)
                               (round_double (3 / 10))
                        else (if sublist ''```'' s then float_add 0 (1 / 2) else 0)))
                    (max 0 (float_sub 1 (float_div (round_double (elapsed_s r)) 30)))))
     \<and> (\<forall>a \<in> set rs. \<forall>b \<in> set rs. \<forall>s t.
          status a = ''ok'' \<and> content a = PStr s \<and> length s = 600 \<and> elapsed_s a = 2 \<and>
          status b = ''ok'' \<and> content b = PStr t \<and> length t = 30 \<and> elapsed_s b = 2
          \<longrightarrow> ranks_above ys a b)
     \<and> (\<forall>a \<in> set rs. \<forall>b \<in> set rs.
          status a = ''ok'' \<and> truthy (content a) \<and> status b \<noteq> ''ok'' \<longrightarrow> ranks_above ys a b)
     \<and> (\<forall>k. filter (\<lambda>r. score_value r = k) ys = filter (\<lambda>r. score_value r = k) rs)"
proof -
  let ?ys = "sort_key (\<lambda>r. - score_value r) rs"
  from typed have sc: "\<forall>r \<in> set rs. score_result r = Inr (score_value r)"
    by (simp add: score_result_typed)
  then have rank: "rank_results rs = Inr ?ys"
    by (rule rank_results_total)
  have perm: "mset ?ys = mset rs" by simp
  have desc: "sorted_wrt (\<lambda>a b. score_value b \<le> score_value a) ?ys"
    by (rule sorted_desc_sort_key)
  have scores: "\<forall>r \<in> set rs. score_result r = Inr (score_value r)
          \<and> (status r \<noteq> ''ok'' \<or> \<not> truthy (content r) \<longrightarrow> score_value r = - 1)
          \<and> (\<forall>s. status r = ''ok'' \<and> content r = PStr s \<and> s \<noteq> [] \<longrightarrow>
                score_value r =
                  float_add
                    (float_add
                       (if length s < 50 then round_double (1 / 10)
                        else min (float_div (round_double (real (length s))) 500) 3)
                       (if \<exists>line \<in> set (splitlines s). startswith_hash line
                        then float_add (if sublist ''```'' s then float_add 0 (1 / 2) else 0)
                               (round_double (3 / 10))
                        else (if sublist ''```'' s then float_add 0 (1 / 2) else 0)))
                    (max 0 (float_sub 1 (float_div (round_double (elapsed_s r)) 30))))"
    using sc by (auto simp: score_value_failed score_value_text text_score_formula)
  have longer: "ranks_above ?ys a b"
    if "status a = ''ok'' \<and> content a = PStr s \<and> length s = 600 \<and> elapsed_s a = 2 \<and>
        status b = ''ok'' \<and> content b = PStr t \<and> length t = 30 \<and> elapsed_s b = 2"
    for a b s t
  proof -
    from that have "s \<noteq> []" and "t \<noteq> []" by auto
    with that have "score_value a = text_score s 2" and "score_value b = text_score t 2"
      by (simp_all add: score_value_text)
    moreover from that have "text_score t 2 < text_score s 2"
      by (simp add: text_score_600_30)
    ultimately have "score_value b < score_value a" by simp
    with desc show ?thesis by (rule sorted_desc_ranks_above)
  qed
  have failed: "ranks_above ?ys a b"
    if "a \<in> set rs" and "status a = ''ok'' \<and> truthy (content a) \<and> status b \<noteq> ''ok''"
    for a b
  proof -
    from that typed have "text_or_none (content a)" by blast
    with that have "0 \<le> score_value a"
      by (intro score_value_ok_truthy) simp_all
    moreover from that have "score_value b = - 1"
      by (simp add: score_value_failed)
    ultimately have "score_value b < score_value a" by simp
    with desc show ?thesis by (rule sorted_desc_ranks_above)
  qed
  from rank have kept: "\<forall>k. filter (\<lambda>r. score_value r = k) ?ys = filter (\<lambda>r. score_value r = k) rs"
    by (simp add: rank_results_order_kept)
  from rank perm desc scores longer failed kept show ?thesis
    by blast
qed

text \<open>The theorem on a short answer, a timeout and a long answer.\<close>

theorem rank_results_by_score_witness:
  "text_or_none (content r_short) \<and> text_or_none (content r_timeout) \<and> text_or_none (content r_long)
   \<and> rank_results [r_short, r_timeout, r_long] = Inr [r_long, r_short, r_timeout]
   \<and> ranks_above [r_long, r_short, r_timeout] r_long r_short
   \<and> ranks_above [r_long, r_short, r_timeout] r_short r_timeout"
proof -
  have t: "\<forall>r \<in> set [r_short, r_timeout, r_long]. text_or_none (content r)"
    by (simp add: r_short_def r_timeout_def r_long_def)
  have e: "rank_results [r_short, r_timeout, r_long] = Inr [r_long, r_short, r_timeout]"
    by (simp add: rank_results_def eval_scores sorted_reverse_def)
  have l: "status r_long = ''ok'' \<and> content r_long = PStr (replicate 600 CHR ''x'') \<and>
           length (replicate 600 CHR ''x'') = 600 \<and> elapsed_s r_long = 2"
    by (simp add: r_long_def)
  have s: "status r_short = ''ok'' \<and> content r_short = PStr (replicate 30 CHR ''x'') \<and>
           length (replicate 30 CHR ''x'') = 30 \<and> elapsed_s r_short = 2 \<and> truthy (content r_short)"
    by (simp add: r_short_def)
  have f: "status r_timeout \<noteq> ''ok''"
    by (simp add: r_timeout_def)
  from rank_results_by_score [OF t] e
  have "ranks_above [r_long, r_short, r_timeout] r_long r_short"
    and "ranks_above [r_long, r_short, r_timeout] r_short r_timeout"
    using l s f by auto
  with t e show ?thesis by simp
qed

text \<open>
  The scores above are those of results whose content is text or absent. A result whose
  content is a list of parts has no score: \<open>_score_result\<close> raises on it, and so does the
  ranking of a list that holds it.
\<close>

lemma rank_results_content_parts:
  "rank_results [r_parts] = Inl (PyExn AttributeError ''object has no attribute splitlines'')"
  by (simp add: rank_results_def score_result_def r_parts_def)

text \<open>
  The last part of the claim as stated fails for an \<open>ok\<close> result with empty content: it
  scores \<open>-1\<close> like the timeout, the sort is stable, and a timeout that comes first in the
  input stays first.
\<close>

theorem timeout_before_empty_ok_counterexample:
  "status r_timeout = ''timeout'' \<and> status r_ok_empty = ''ok''
   \<and> rank_results [r_timeout, r_ok_empty] = Inr [r_timeout, r_ok_empty]
   \<and> \<not> ranks_above [r_timeout, r_ok_empty] r_ok_empty r_timeout"
proof -
  have "rank_results [r_timeout, r_ok_empty] = Inr [r_timeout, r_ok_empty]"
    by (simp add: rank_results_def eval_scores sorted_reverse_def)
  moreover have "\<not> ranks_above [r_timeout, r_ok_empty] r_ok_empty r_timeout"
  proof
    assume "ranks_above [r_timeout, r_ok_empty] r_ok_empty r_timeout"
    then have "(1::nat) < 0"
      unfolding ranks_above_def by (elim allE [of _ 1] allE [of _ 0]) simp
    then show False by simp
  qed
  ultimately show ?thesis
    by (simp add: r_timeout_def r_ok_empty_def)
qed


lemma score_value_formula:
  assumes "status r = ''ok''" and "content r = PStr s" and "s \<noteq> []"
  shows "score_value r =
     float_add
       (float_add
          (if length s < 50 then round_double (1 / 10)
           else min (float_div (round_double (real (length s))) 500) 3)
          (if \<exists>line \<in> set (splitlines s). startswith_hash line
           then float_add (if sublist ''```'' s then float_add 0 (1 / 2) else 0) (round_double (3 / 10))
           else (if sublist ''```'' s then float_add 0 (1 / 2) else 0)))
       (max 0 (float_sub 1 (float_div (round_double (elapsed_s r)) 30)))"
  using assms by (simp add: score_value_text text_score_formula)

text \<open>
  Claim C9. The tier depends on the prompt, the thresholds and the keywords only, so the
  same prompt under the same configuration gets the same tier. \<open>rank_results\<close> returns a
  list for every list of results whose content is text or nothing. Whenever it returns,
  the list returned is the stable sort of the input by descending score: it is a
  permutation of the input, the scores go down along it, and the results of any one
  score are in the order of the input. Ranking the ranked list returns it unchanged. The
  score is the one \<open>_score_result\<close> computes: \<open>-1\<close> for a result that is not \<open>ok\<close> or has no
  content, else the sum, in floats, of the length, structure and speed scores.
\<close>

theorem classify_deterministic_rank_stable:
  "(t1_max_words c1 = t1_max_words c2 \<and> t2_max_words c1 = t2_max_words c2
      \<and> deep_keywords c1 = deep_keywords c2
      \<longrightarrow> classify_complexity c1 p = classify_complexity c2 p)
   \<and> ((\<forall>r \<in> set rs. text_or_none (content r)) \<longrightarrow> (\<exists>ys. rank_results rs = Inr ys))
   \<and> (rank_results rs = Inr ys \<longrightarrow>
        mset ys = mset rs
        \<and> sorted_wrt (\<lambda>a b. score_value b \<le> score_value a) ys
        \<and> (\<forall>k. filter (\<lambda>r. score_value r = k) ys = filter (\<lambda>r. score_value r = k) rs)
        \<and> rank_results ys = Inr ys
        \<and> (\<forall>r \<in> set rs. score_result r = Inr (score_value r)
             \<and> (status r \<noteq> ''ok'' \<or> \<not> truthy (content r) \<longrightarrow> score_value r = - 1)
             \<and> (\<forall>s. status r = ''ok'' \<and> content r = PStr s \<and> s \<noteq> [] \<longrightarrow>
                   score_value r =
                     float_add
                       (float_add
                          (if length s < 50 then round_double (1 / 10)
                           else min (float_div (round_double (real (length s))) 500) 3)
                          (if \<exists>line \<in> set (splitlines s). startswith_hash line
                           then float_add (if sublist ''```'' s then float_add 0 (1 / 2) else 0)
                                  (round_double (3 / 10))
                           else (if sublist ''```'' s then float_add 0 (1 / 2) else 0)))
                       (max 0 (float_sub 1 (float_div (round_double (elapsed_s r)) 30))))))"
proof (intro conjI impI)
  assume "t1_max_words c1 = t1_max_words c2 \<and> t2_max_words c1 = t2_max_words c2
      \<and> deep_keywords c1 = deep_keywords c2"
  then show "classify_complexity c1 p = classify_complexity c2 p"
    by (simp add: classify_complexity_unfold)
next
  assume "\<forall>r \<in> set rs. text_or_none (content r)"
  then have "\<forall>r \<in> set rs. score_result r = Inr (score_value r)"
    by (simp add: score_result_typed)
  then have "rank_results rs = Inr (sort_key (\<lambda>r. - score_value r) rs)"
    by (rule rank_results_total)
  then show "\<exists>ys. rank_results rs = Inr ys" by blast
next
  assume ranked: "rank_results rs = Inr ys"
  then have ys: "ys = sort_key (\<lambda>r. - score_value r) rs"
    by (rule rank_results_Inr)
  from ys show "mset ys = mset rs" by simp
  from ys show "sorted_wrt (\<lambda>a b. score_value b \<le> score_value a) ys"
    by (simp only: sorted_desc_sort_key)
  from ranked show "\<forall>k. filter (\<lambda>r. score_value r = k) ys = filter (\<lambda>r. score_value r = k) rs"
    by (simp add: rank_results_order_kept)
  from ranked show "rank_results ys = Inr ys"
    by (rule rank_results_again)
  from ranked have sc: "\<forall>r \<in> set rs. score_result r = Inr (score_value r)"
    by (rule rank_results_Inr)
  show "\<forall>r \<in> set rs. score_result r = Inr (score_value r)
             \<and> (status r \<noteq> ''ok'' \<or> \<not> truthy (content r) \<longrightarrow> score_value r = - 1)
             \<and> (\<forall>s. status r = ''ok'' \<and> content r = PStr s \<and> s \<noteq> [] \<longrightarrow>
                   score_value r =
                     float_add
                       (float_add
                          (if length s < 50 then round_double (1 / 10)
                           else min (float_div (round_double (real (length s))) 500) 3)
                          (if \<exists>line \<in> set (splitlines s). startswith_hash line
                           then float_add (if sublist ''```'' s then float_add 0 (1 / 2) else 0)
                                  (round_double (3 / 10))
                           else (if sublist ''```'' s then float_add 0 (1 / 2) else 0)))
                       (max 0 (float_sub 1 (float_div (round_double (elapsed_s r)) 30))))"
  proof (rule ballI, intro conjI impI allI)
    fix r :: CallResult assume "r \<in> set rs"
    with sc show "score_result r = Inr (score_value r)" by blast
  next
    fix r :: CallResult assume "status r \<noteq> ''ok'' \<or> \<not> truthy (content r)"
    then show "score_value r = - 1" by (rule score_value_failed)
  next
    fix r :: CallResult and s assume "status r = ''ok'' \<and> content r = PStr s \<and> s \<noteq> []"
    then show "score_value r =
                     float_add
                       (float_add
                          (if length s < 50 then round_double (1 / 10)
                           else min (float_div (round_double (real (length s))) 500) 3)
                          (if \<exists>line \<in> set (splitlines s). startswith_hash line
                           then float_add (if sublist ''```'' s then float_add 0 (1 / 2) else 0)
                                  (round_double (3 / 10))
                           else (if sublist ''```'' s then float_add 0 (1 / 2) else 0)))
                       (max 0 (float_sub 1 (float_div (round_double (elapsed_s r)) 30)))"
      by (intro score_value_formula) simp_all
  qed
qed

text \<open>
  The theorem on a timeout, the fenced answer, an empty answer and the headed answer.
  The two results of score \<open>-1\<close> keep their order; the fenced and the headed answer do
  not tie, the floats \<open>1.2999999999999998\<close> and \<open>1.3\<close> being different, and the headed
  answer moves to the front.
\<close>

theorem classify_deterministic_rank_stable_witness:
  "rank_results [r_timeout, r_fenced, r_ok_empty, r_heading]
     = Inr [r_heading, r_fenced, r_timeout, r_ok_empty]
   \<and> rank_results [r_heading, r_fenced, r_timeout, r_ok_empty]
     = Inr [r_heading, r_fenced, r_timeout, r_ok_empty]
   \<and> filter (\<lambda>r. score_value r = - 1) [r_heading, r_fenced, r_timeout, r_ok_empty]
     = [r_timeout, r_ok_empty]
   \<and> score_value r_fenced = 1463669878895411 / 1125899906842624
   \<and> score_value r_heading = 5854679515581645 / 4503599627370496
   \<and> classify_complexity cfg_default ''why''
     = classify_complexity (cfg_default\<lparr>knowledge_url := Some ''http://kb''\<rparr>) ''why''"
proof -
  have e: "rank_results [r_timeout, r_fenced, r_ok_empty, r_heading]
      = Inr [r_heading, r_fenced, r_timeout, r_ok_empty]"
    by (simp add: rank_results_def eval_scores eval_scores_rounded sorted_reverse_def)
  have v: "score_value r_timeout = - 1" "score_value r_ok_empty = - 1"
    "score_value r_fenced = 1463669878895411 / 1125899906842624"
    "score_value r_heading = 5854679515581645 / 4503599627370496"
    by (simp_all add: score_value_def eval_scores eval_scores_rounded)
  note t = classify_deterministic_rank_stable
    [of cfg_default "cfg_default\<lparr>knowledge_url := Some ''http://kb''\<rparr>" "''why''"
        "[r_timeout, r_fenced, r_ok_empty, r_heading]" "[r_heading, r_fenced, r_timeout, r_ok_empty]"]
  from t e have again: "rank_results [r_heading, r_fenced, r_timeout, r_ok_empty]
      = Inr [r_heading, r_fenced, r_timeout, r_ok_empty]"
    by blast
  from t e have "filter (\<lambda>r. score_value r = - 1) [r_heading, r_fenced, r_timeout, r_ok_empty]
      = filter (\<lambda>r. score_value r = - 1) [r_timeout, r_fenced, r_ok_empty, r_heading]"
    by blast
  then have kept: "filter (\<lambda>r. score_value r = - 1) [r_heading, r_fenced, r_timeout, r_ok_empty]
      = [r_timeout, r_ok_empty]"
    by (simp add: v)
  from t have c: "classify_complexity cfg_default ''why''
      = classify_complexity (cfg_default\<lparr>knowledge_url := Some ''http://kb''\<rparr>) ''why''"
    by simp
  show ?thesis by (intro conjI e again kept v(3) v(4) c)
qed

section \<open>Results of a single model call\<close>

lemma call_failed_content:
  "content (call_failed env entry start exc w) = PNone"
  "status (call_failed env entry start exc w) = ''timeout''
   \<or> status (call_failed env entry start exc w) = ''error''"
  by (simp_all add: call_failed_def)

lemma call_model_cases:
  assumes "call_model env entry prompt timeout w = (r, w')"
  shows "(\<exists>start exc. r = call_failed env entry start exc w')
         \<or> (status r = ''ok'' \<and> (\<exists>resp. fst (call_model_post env entry prompt timeout w) = Inr resp
               \<and> content_of_envelope resp = Inr (content r)))"
  using assms unfolding call_model_def Let_def
  by (auto split: prod.splits sum.splits)

lemma post_hello:
  "call_model_post env_hello m_fast ''Hi'' 60 0 = (Inr (envelope (PStr ''hello'')), 1)"
  by (simp add: call_model_post_def env_hello_def env_of_def m_fast_def)

lemma call_hello:
  "call_model env_hello m_fast ''Hi'' 60 0 =
     (\<lparr>c_model = ''fast-1'', status = ''ok'', elapsed_s = 1, content = PStr ''hello'',
       tokens = PInt 12, error = None\<rparr>, 1)"
  unfolding call_model_def Let_def post_hello
  by (simp add: env_hello_def env_of_def m_fast_def
        content_of_envelope_def envelope_def total_tokens_def latency_values)

text \<open>
  Claim C8, as amended. Every result of \<open>call_model\<close> has the status \<open>ok\<close>, \<open>timeout\<close> or
  \<open>error\<close>. A result of status \<open>timeout\<close> or \<open>error\<close> carries the content \<open>None\<close>, whatever
  the backend sent and however the call failed; so content that is not \<open>None\<close> comes with
  the status \<open>ok\<close> only. A result of status \<open>ok\<close> carries the field
  \<open>choices[0].message.content\<close> of the response as it is, which is \<open>None\<close> when the
  backend sent \<open>null\<close> there.
\<close>

theorem call_model_content:
  assumes "call_model env entry prompt timeout w = (r, w')"
  shows "status r \<in> {''ok'', ''timeout'', ''error''}
     \<and> (status r \<noteq> ''ok'' \<longrightarrow> content r = PNone)
     \<and> (content r \<noteq> PNone \<longrightarrow> status r = ''ok'')
     \<and> (status r = ''ok'' \<longrightarrow>
          (\<exists>resp. fst (call_model_post env entry prompt timeout w) = Inr resp
             \<and> content_of_envelope resp = Inr (content r)))"
proof -
  from call_model_cases [OF assms] show ?thesis
  proof
    assume "\<exists>start exc. r = call_failed env entry start exc w'"
    then obtain start exc where r: "r = call_failed env entry start exc w'" by blast
    have "content r = PNone" and "status r = ''timeout'' \<or> status r = ''error''"
      unfolding r by (rule call_failed_content)+
    then show ?thesis by auto
  next
    assume "status r = ''ok'' \<and> (\<exists>resp. fst (call_model_post env entry prompt timeout w) = Inr resp
               \<and> content_of_envelope resp = Inr (content r))"
    then show ?thesis by simp
  qed
qed

text \<open>The theorem in the world where every model answers \<open>hello\<close>.\<close>

theorem call_model_content_witness:
  "call_model env_hello m_fast ''Hi'' 60 0 =
     (\<lparr>c_model = ''fast-1'', status = ''ok'', elapsed_s = 1, content = PStr ''hello'',
       tokens = PInt 12, error = None\<rparr>, 1)
   \<and> content_of_envelope (envelope (PStr ''hello'')) = Inr (PStr ''hello'')"
proof -
  let ?r = "\<lparr>c_model = ''fast-1'', status = ''ok'', elapsed_s = 1, content = PStr ''hello'',
       tokens = PInt 12, error = None\<rparr>"
  from call_model_content [OF call_hello]
  obtain resp where "fst (call_model_post env_hello m_fast ''Hi'' 60 0) = Inr resp"
    and c: "content_of_envelope resp = Inr (content ?r)"
    by auto
  then have "resp = envelope (PStr ''hello'')"
    by (simp add: post_hello)
  with c call_hello show ?thesis by simp
qed

text \<open>
  The claim as stated fails from \<open>ok\<close> to populated content: a response whose content is
  \<open>null\<close> gives a result of status \<open>ok\<close> with content \<open>None\<close>.
\<close>

theorem call_model_ok_without_content_counterexample:
  "call_model env_null_content m_fast ''Hi'' 60 0 =
     (\<lparr>c_model = ''fast-1'', status = ''ok'', elapsed_s = 1, content = PNone,
       tokens = PInt 12, error = None\<rparr>, 1)"
  by (simp add: call_model_def Let_def call_model_post_def env_null_content_def env_of_def m_fast_def
        content_of_envelope_def envelope_def total_tokens_def latency_values)

section \<open>The auto-router\<close>

lemma up_entries_simps [simp]:
  "up_entries health [] = []"
  "up_entries health (e # es) = (if reported_down health e then up_entries health es else e # up_entries health es)"
  "up_entries health (es @ fs) = up_entries health es @ up_entries health fs"
  by (simp_all add: up_entries_def)

lemma try_candidates_step:
  "\<not> reported_down health entry \<Longrightarrow>
   try_candidates env health msgs t timeout (entry # rest) last_error w =
     (case chat_completion env (model_id entry) msgs (url (endpoint entry)) (api_key (endpoint entry)) timeout w of
        (resp, w1) \<Rightarrow>
          (case (case resp of Inl exc \<Rightarrow> Inl exc | Inr v \<Rightarrow> extract_text env v) of
             Inr text \<Rightarrow>
               ((Some \<lparr>r_model = model_id entry, r_tier = t, r_response = text,
                       r_latency_s = py_round2 (float_sub (monotonic env w1) (monotonic env w))\<rparr>, last_error),
                [(entry, None)], w1)
           | Inl exc \<Rightarrow>
               (case try_candidates env health msgs t timeout rest (Some exc) w1 of
                  (res, dispatched, w2) \<Rightarrow> (res, (entry, Some exc) # dispatched, w2))))"
  by (simp add: Let_def split: prod.splits)

lemma try_candidates_none:
  assumes "try_candidates env health msgs t timeout es last_error w = ((None, last1), dispatched, w')"
  shows "map fst dispatched = up_entries health es
     \<and> (\<forall>x \<in> set dispatched. snd x \<noteq> None)
     \<and> last1 = (if dispatched = [] then last_error else snd (last dispatched))"
  using assms
proof (induction es arbitrary: last_error w dispatched)
  case Nil
  then show ?case by simp
next
  case (Cons entry rest)
  show ?case
  proof (cases "reported_down health entry")
    case True
    with Cons show ?thesis by simp
  next
    case False
    obtain resp w1 where c: "chat_completion env (model_id entry) msgs (url (endpoint entry))
        (api_key (endpoint entry)) timeout w = (resp, w1)"
      by (cases "chat_completion env (model_id entry) msgs (url (endpoint entry))
        (api_key (endpoint entry)) timeout w")
    show ?thesis
    proof (cases "case resp of Inl exc \<Rightarrow> Inl exc | Inr v \<Rightarrow> extract_text env v")
      case (Inr body)
      with Cons.prems False c show ?thesis
        by (simp add: try_candidates_step)
    next
      case (Inl exc)
      obtain res d2 w2 where r: "try_candidates env health msgs t timeout rest (Some exc) w1 = (res, d2, w2)"
        by (cases "try_candidates env health msgs t timeout rest (Some exc) w1")
      with Cons.prems False c Inl have res: "res = (None, last1)"
        and d: "dispatched = (entry, Some exc) # d2" and w2: "w2 = w'"
        by (simp_all add: try_candidates_step)
      from r res w2 have "try_candidates env health msgs t timeout rest (Some exc) w1 = ((None, last1), d2, w')"
        by simp
      from Cons.IH [OF this] d False show ?thesis by auto
    qed
  qed
qed

lemma try_candidates_some:
  assumes "try_candidates env health msgs t timeout es last_error w = ((Some r, last1), dispatched, w')"
  shows "\<exists>init e. dispatched = init @ [(e, None)] \<and> (\<forall>x \<in> set init. snd x \<noteq> None)
     \<and> prefix (map fst dispatched) (up_entries health es) \<and> e \<in> set es
     \<and> r_model r = model_id e \<and> r_tier r = t
     \<and> last1 = (if init = [] then last_error else snd (last init))"
  using assms
proof (induction es arbitrary: last_error w dispatched)
  case Nil
  then show ?case by simp
next
  case (Cons entry rest)
  show ?case
  proof (cases "reported_down health entry")
    case True
    with Cons.prems have "try_candidates env health msgs t timeout rest last_error w = ((Some r, last1), dispatched, w')"
      by simp
    from Cons.IH [OF this] True show ?thesis by auto
  next
    case False
    obtain resp w1 where c: "chat_completion env (model_id entry) msgs (url (endpoint entry))
        (api_key (endpoint entry)) timeout w = (resp, w1)"
      by (cases "chat_completion env (model_id entry) msgs (url (endpoint entry))
        (api_key (endpoint entry)) timeout w")
    show ?thesis
    proof (cases "case resp of Inl exc \<Rightarrow> Inl exc | Inr v \<Rightarrow> extract_text env v")
      case (Inr body)
      with Cons.prems False c have "dispatched = [] @ [(entry, None)]"
        and "r_model r = model_id entry" and "r_tier r = t" and "last1 = last_error"
        by (auto simp: try_candidates_step)
      with False show ?thesis by auto
    next
      case (Inl exc)
      obtain res d2 w2 where rr: "try_candidates env health msgs t timeout rest (Some exc) w1 = (res, d2, w2)"
        by (cases "try_candidates env health msgs t timeout rest (Some exc) w1")
      with Cons.prems False c Inl have res: "res = (Some r, last1)"
        and d: "dispatched = (entry, Some exc) # d2" and w2: "w2 = w'"
        by (simp_all add: try_candidates_step)
      from rr res w2 have "try_candidates env health msgs t timeout rest (Some exc) w1 = ((Some r, last1), d2, w')"
        by simp
      from Cons.IH [OF this] obtain init e where i: "d2 = init @ [(e, None)]"
        and f: "\<forall>x \<in> set init. snd x \<noteq> None"
        and p: "prefix (map fst d2) (up_entries health rest)" and e: "e \<in> set rest"
        and m: "r_model r = model_id e" "r_tier r = t"
        and l: "last1 = (if init = [] then Some exc else snd (last init))"
        by blast
      from d i have "dispatched = ((entry, Some exc) # init) @ [(e, None)]" by simp
      moreover from f have "\<forall>x \<in> set ((entry, Some exc) # init). snd x \<noteq> None" by simp
      moreover from d p False have "prefix (map fst dispatched) (up_entries health (entry # rest))" by simp
      moreover from l have "last1 = (if (entry, Some exc) # init = [] then last_error
          else snd (last ((entry, Some exc) # init)))" by simp
      ultimately show ?thesis using e m by (intro exI [of _ "(entry, Some exc) # init"] exI [of _ e]) simp
    qed
  qed
qed


lemma try_tiers_none:
  assumes "try_tiers env cfg health msgs ts last_error w = ((None, last1), dispatched, w')"
  shows "map fst dispatched = up_entries health (concat (map (get_tier_models cfg) ts))
     \<and> (\<forall>x \<in> set dispatched. snd x \<noteq> None)
     \<and> last1 = (if dispatched = [] then last_error else snd (last dispatched))"
  using assms
proof (induction ts arbitrary: last_error w dispatched)
  case Nil
  then show ?case by simp
next
  case (Cons t ts)
  obtain res0 last0 d1 w1 where c: "try_candidates env health msgs t (get_tier_timeout cfg t)
      (get_tier_models cfg t) last_error w = ((res0, last0), d1, w1)"
    by (metis surj_pair)
  show ?case
  proof (cases res0)
    case (Some r)
    with Cons.prems c show ?thesis by simp
  next
    case None
    obtain res d2 w2 where r: "try_tiers env cfg health msgs ts last0 w1 = (res, d2, w2)"
      by (metis surj_pair)
    with Cons.prems c None have res: "res = (None, last1)" and d: "dispatched = d1 @ d2" and w2: "w2 = w'"
      by simp_all
    from c None have c1: "map fst d1 = up_entries health (get_tier_models cfg t)
        \<and> (\<forall>x \<in> set d1. snd x \<noteq> None) \<and> last0 = (if d1 = [] then last_error else snd (last d1))"
      by (intro try_candidates_none) simp
    from r res w2 have "try_tiers env cfg health msgs ts last0 w1 = ((None, last1), d2, w')" by simp
    from Cons.IH [OF this] have c2: "map fst d2 = up_entries health (concat (map (get_tier_models cfg) ts))
        \<and> (\<forall>x \<in> set d2. snd x \<noteq> None) \<and> last1 = (if d2 = [] then last0 else snd (last d2))" .
    from c1 c2 d show ?thesis by auto
  qed
qed

lemma try_tiers_some:
  assumes "try_tiers env cfg health msgs ts last_error w = ((Some r, last1), dispatched, w')"
  shows "\<exists>init e. dispatched = init @ [(e, None)] \<and> (\<forall>x \<in> set init. snd x \<noteq> None)
     \<and> prefix (map fst dispatched) (up_entries health (concat (map (get_tier_models cfg) ts)))
     \<and> e \<in> set (models cfg) \<and> r_model r = model_id e \<and> r_tier r = tier e"
  using assms
proof (induction ts arbitrary: last_error w dispatched)
  case Nil
  then show ?case by simp
next
  case (Cons t ts)
  obtain res0 last0 d1 w1 where c: "try_candidates env health msgs t (get_tier_timeout cfg t)
      (get_tier_models cfg t) last_error w = ((res0, last0), d1, w1)"
    by (metis surj_pair)
  show ?case
  proof (cases res0)
    case (Some r0)
    with Cons.prems c have eq: "r0 = r" "d1 = dispatched" by simp_all
    from c Some eq have "try_candidates env health msgs t (get_tier_timeout cfg t)
      (get_tier_models cfg t) last_error w = ((Some r, last0), dispatched, w1)" by simp
    from try_candidates_some [OF this] obtain init e where
      "dispatched = init @ [(e, None)]" "\<forall>x \<in> set init. snd x \<noteq> None"
      "prefix (map fst dispatched) (up_entries health (get_tier_models cfg t))"
      "e \<in> set (get_tier_models cfg t)" "r_model r = model_id e" "r_tier r = t"
      by blast
    moreover from this have "e \<in> set (models cfg)" and "tier e = t"
      by (simp_all add: get_tier_models_def)
    ultimately show ?thesis
      by (intro exI [of _ init] exI [of _ e]) (auto intro: prefix_order.trans)
  next
    case None
    obtain res d2 w2 where rr: "try_tiers env cfg health msgs ts last0 w1 = (res, d2, w2)"
      by (metis surj_pair)
    with Cons.prems c None have res: "res = (Some r, last1)" and d: "dispatched = d1 @ d2" and w2: "w2 = w'"
      by simp_all
    from c None have c1: "map fst d1 = up_entries health (get_tier_models cfg t)
        \<and> (\<forall>x \<in> set d1. snd x \<noteq> None) \<and> last0 = (if d1 = [] then last_error else snd (last d1))"
      by (intro try_candidates_none) simp
    from rr res w2 have "try_tiers env cfg health msgs ts last0 w1 = ((Some r, last1), d2, w')" by simp
    from Cons.IH [OF this] obtain init e where i: "d2 = init @ [(e, None)]"
      and f: "\<forall>x \<in> set init. snd x \<noteq> None"
      and p: "prefix (map fst d2) (up_entries health (concat (map (get_tier_models cfg) ts)))"
      and e: "e \<in> set (models cfg)" "r_model r = model_id e" "r_tier r = tier e"
      by blast
    from d i have "dispatched = (d1 @ init) @ [(e, None)]" by simp
    moreover from c1 f have "\<forall>x \<in> set (d1 @ init). snd x \<noteq> None" by auto
    moreover from d c1 p have "prefix (map fst dispatched)
        (up_entries health (concat (map (get_tier_models cfg) (t # ts))))" by simp
    ultimately show ?thesis using e
      by (intro exI [of _ "d1 @ init"] exI [of _ e]) simp
  qed
qed

lemma auto_route_refresh_failed:
  assumes "refresh_opt env health w = (Inl exc, health1, w1)"
  shows "auto_route env prompt system forced cfg health w = (Inl exc, health1, [], w1)"
  using assms by (simp add: auto_route_def)

lemma auto_route_health:
  assumes "auto_route env prompt system forced cfg health w = (res, health1, dispatched, w')"
  shows "\<exists>r w1. refresh_opt env health w = (r, health1, w1)"
  using assms by (auto simp: auto_route_def Let_def split: prod.splits sum.splits option.splits)

lemma auto_route_refreshed:
  assumes "refresh_opt env health w = (Inr u, health1, w1)"
  shows "auto_route env prompt system forced cfg health w =
     (case try_tiers env cfg health1 (build_messages system prompt)
             (search_order (detect_tier cfg forced prompt)) None w1 of
        ((Some r, last_error), dispatched, w2) \<Rightarrow> (Inr r, health1, dispatched, w2)
      | ((None, last_error), dispatched, w2) \<Rightarrow>
          (Inl (PyExn RuntimeError (exhausted_message (detect_tier cfg forced prompt) last_error)),
           health1, dispatched, w2))"
  using assms by (simp add: auto_route_def Let_def)

lemma auto_route_Inr:
  assumes "auto_route env prompt system forced cfg health w = (Inr r, health1, dispatched, w')"
  shows "\<exists>init e. dispatched = init @ [(e, None)] \<and> (\<forall>x \<in> set init. snd x \<noteq> None)
     \<and> prefix (map fst dispatched) (candidates cfg health1 (detect_tier cfg forced prompt))
     \<and> e \<in> set (models cfg) \<and> r_model r = model_id e \<and> r_tier r = tier e"
proof -
  obtain rr h1 w1 where rf: "refresh_opt env health w = (rr, h1, w1)" by (metis surj_pair)
  show ?thesis
  proof (cases rr)
    case (Inl exc)
    with rf assms show ?thesis by (simp add: auto_route_refresh_failed)
  next
    case (Inr u)
    obtain res last1 d w2 where t: "try_tiers env cfg h1 (build_messages system prompt)
        (search_order (detect_tier cfg forced prompt)) None w1 = ((res, last1), d, w2)"
      by (metis surj_pair)
    with rf Inr assms have "res = Some r" and "h1 = health1" and "d = dispatched"
      by (auto simp: auto_route_refreshed split: option.splits)
    with t have "try_tiers env cfg health1 (build_messages system prompt)
        (search_order (detect_tier cfg forced prompt)) None w1 = ((Some r, last1), dispatched, w2)"
      by simp
    from try_tiers_some [OF this] show ?thesis
      by (simp add: candidates_def up_entries_def)
  qed
qed

lemma auto_route_Inl:
  assumes "auto_route env prompt system forced cfg health w = (Inl exc, health1, dispatched, w')"
    and "fst (refresh_opt env health w) = Inr u"
  shows "exc = PyExn RuntimeError (exhausted_message (detect_tier cfg forced prompt)
            (if dispatched = [] then None else snd (last dispatched)))
     \<and> map fst dispatched = candidates cfg health1 (detect_tier cfg forced prompt)
     \<and> (\<forall>x \<in> set dispatched. snd x \<noteq> None)"
proof -
  from assms(2) obtain h1 w1 where rf: "refresh_opt env health w = (Inr u, h1, w1)"
    by (metis fst_conv surj_pair)
  obtain res last1 d w2 where t: "try_tiers env cfg h1 (build_messages system prompt)
      (search_order (detect_tier cfg forced prompt)) None w1 = ((res, last1), d, w2)"
    by (metis surj_pair)
  with rf assms(1) have res: "res = None" and h: "h1 = health1" and d: "d = dispatched"
    and e: "exc = PyExn RuntimeError (exhausted_message (detect_tier cfg forced prompt) last1)"
    by (auto simp: auto_route_refreshed split: option.splits)
  with t have "try_tiers env cfg health1 (build_messages system prompt)
      (search_order (detect_tier cfg forced prompt)) None w1 = ((None, last1), dispatched, w2)"
    by simp
  from try_tiers_none [OF this] e show ?thesis
    by (simp add: candidates_def up_entries_def)
qed

lemma auto_route_prefix:
  assumes "auto_route env prompt system forced cfg health w = (res, health1, dispatched, w')"
  shows "prefix (map fst dispatched) (candidates cfg health1 (detect_tier cfg forced prompt))
     \<and> (\<forall>x \<in> set (butlast dispatched). snd x \<noteq> None)"
proof (cases res)
  case (Inr r)
  with assms auto_route_Inr [of env prompt system forced cfg health w r health1 dispatched w']
  show ?thesis by auto
next
  case (Inl exc)
  obtain rr h1 w1 where rf: "refresh_opt env health w = (rr, h1, w1)" by (metis surj_pair)
  show ?thesis
  proof (cases rr)
    case inner: (Inl e2)
    with rf assms show ?thesis by (simp add: auto_route_refresh_failed)
  next
    case inner: (Inr u)
    with rf have "fst (refresh_opt env health w) = Inr u" by simp
    with assms Inl auto_route_Inl [of env prompt system forced cfg health w exc health1 dispatched w' u]
    show ?thesis by (auto dest: in_set_butlastD)
  qed
qed

lemma dict_update_all_keys:
  "fst ` set (dict_update_all d result) = fst ` set d \<union> fst ` set result"
  unfolding dict_update_all_def
  by (induction result arbitrary: d) (auto simp: dom_update)

lemma run_tasks_length:
  "run_tasks f xs w = (rs, w') \<Longrightarrow> length rs = length xs"
  by (induction xs arbitrary: w rs w') (auto simp: Let_def split: prod.splits)

lemma run_tasks_probe_names:
  "run_tasks (probe env) eps w = (rs, w') \<Longrightarrow> map fst rs = map fst eps"
  by (induction eps arbitrary: w rs w')
     (auto simp: probe_def Let_def split: prod.splits sum.splits)

lemma as_completed_values:
  assumes "as_completed timeout futs = Inr finished"
  shows "set finished = fst ` set futs"
  using assms by (force simp: as_completed_def split: if_splits)

lemma pool_submit_all_values:
  assumes "pool_submit_all env f xs w = (futs, w1)"
  shows "\<exists>rs. run_tasks f xs w = (rs, w1) \<and> map fst futs = rs
           \<and> map snd futs = map (done_after env w) [0..<length xs]"
proof -
  obtain rs w2 where r: "run_tasks f xs w = (rs, w2)" by (metis surj_pair)
  then have "length rs = length xs" by (rule run_tasks_length)
  with r assms show ?thesis
    by (auto simp: pool_submit_all_def Let_def)
qed

lemma refresh_known_names:
  assumes "refresh env h w = (r, h1, w1)"
  shows "known_names h1 = known_names h"
proof -
  obtain futs w2 where p: "pool_submit_all env (probe env) (h_endpoints h) w = (futs, w2)"
    by (metis surj_pair)
  show ?thesis
  proof (cases "as_completed 10 futs")
    case (Inl exc)
    with p assms show ?thesis by (simp add: refresh_def)
  next
    case (Inr finished)
    with p assms have h1: "h1 = h\<lparr>h_status := dict_update_all (h_status h) (dict_update_all [] finished)\<rparr>"
      by (simp add: refresh_def Let_def)
    from Inr have f: "set finished = fst ` set futs" by (rule as_completed_values)
    from pool_submit_all_values [OF p] obtain rs
      where rs: "run_tasks (probe env) (h_endpoints h) w = (rs, w2)" and m: "map fst futs = rs"
      by blast
    from rs have n: "map fst rs = map fst (h_endpoints h)" by (rule run_tasks_probe_names)
    from f have "fst ` set finished = set (map fst (map fst futs))"
      by (simp add: image_image)
    with m n have "fst ` set finished = fst ` set (h_endpoints h)" by simp
    with h1 show ?thesis
      by (auto simp: known_names_def dict_update_all_keys)
  qed
qed

lemma is_up_known:
  "is_up h nm \<Longrightarrow> nm \<in> fst ` set (h_status h)"
  by (auto simp: is_up_def split: option.splits dest: map_of_SomeD intro: rev_image_eqI)

lemma refresh_opt_known_names:
  assumes "refresh_opt env (Some h) w = (r, health1, w1)"
  shows "\<exists>h1. health1 = Some h1 \<and> known_names h1 = known_names h"
proof -
  obtain r0 h1 w2 where rf: "refresh env h w = (r0, h1, w2)" by (metis surj_pair)
  then have "known_names h1 = known_names h" by (rule refresh_known_names)
  moreover from rf assms have "health1 = Some h1"
    by (cases r0) (simp_all add: refresh_opt_def)
  ultimately show ?thesis by blast
qed

lemma refresh_opt_some:
  assumes "refresh_opt env health w = (r, health1, w1)"
  shows "(health = None \<longrightarrow> health1 = None) \<and> (\<forall>h. health = Some h \<longrightarrow> (\<exists>h1. health1 = Some h1))"
  using assms by (auto simp: refresh_opt_def split: option.splits prod.splits sum.splits)

lemma auto_route_dispatched_up:
  assumes "auto_route env prompt system forced cfg health w = (res, health1, dispatched, w')"
  shows "\<forall>x \<in> set dispatched. \<not> reported_down health1 (fst x)"
proof -
  from assms have "prefix (map fst dispatched) (candidates cfg health1 (detect_tier cfg forced prompt))"
    by (simp add: auto_route_prefix)
  then have "set (map fst dispatched) \<subseteq> set (candidates cfg health1 (detect_tier cfg forced prompt))"
    by (rule set_mono_prefix)
  then show ?thesis by (auto simp: candidates_def)
qed

text \<open>
  The two loops of \<open>auto_route\<close> make the attempts of the greedy search over the
  candidates, and nothing else.
\<close>

lemma last_failure_append:
  "last_failure le (c1 @ c2) = last_failure (last_failure le c1) c2"
  by (induction c1 arbitrary: le) simp_all

lemma attempts_Cons:
  assumes "attempts_spec env cfg msgs (e # rest) w = (calls, w2)"
  shows "(\<exists>a. call_candidate env cfg msgs e w = (Inr a, w2) \<and> calls = [(e, Inr a)])
     \<or> (\<exists>exc w1 calls1. call_candidate env cfg msgs e w = (Inl exc, w1)
            \<and> attempts_spec env cfg msgs rest w1 = (calls1, w2) \<and> calls = (e, Inl exc) # calls1)"
proof -
  obtain r w1 where c: "call_candidate env cfg msgs e w = (r, w1)" by (metis surj_pair)
  show ?thesis
  proof (cases r)
    case (Inr a)
    with c assms show ?thesis by simp
  next
    case (Inl exc)
    obtain calls1 w3 where a: "attempts_spec env cfg msgs rest w1 = (calls1, w3)" by (metis surj_pair)
    with c Inl assms show ?thesis by simp
  qed
qed

lemma final_answer_simps:
  "final_answer [] = None"
  "final_answer [(e, Inr a)] = Some \<lparr>r_model = model_id e, r_tier = tier e, r_response = fst a,
                                     r_latency_s = snd a\<rparr>"
  "final_answer ((e, Inl exc) # calls) = final_answer calls"
  by (simp_all add: final_answer_def answer_of_def)

lemma attempts_failed_before:
  assumes "attempts_spec env cfg msgs cs w = (calls, w2)"
  shows "prefix (map fst calls) cs \<and> (\<forall>c \<in> set (butlast calls). isl (snd c))"
  using assms
proof (induction cs arbitrary: w calls)
  case Nil
  then show ?case by simp
next
  case (Cons e rest)
  from attempts_Cons [OF Cons.prems] show ?case
  proof (elim disjE exE conjE)
    fix a assume "calls = [(e, Inr a)]"
    then show ?thesis by simp
  next
    fix exc w1 calls1
    assume a: "attempts_spec env cfg msgs rest w1 = (calls1, w2)" and calls: "calls = (e, Inl exc) # calls1"
    from Cons.IH [OF a] have "prefix (map fst calls1) rest" and "\<forall>c \<in> set (butlast calls1). isl (snd c)"
      by simp_all
    with calls show ?thesis by auto
  qed
qed

lemma attempts_none_iff:
  assumes "attempts_spec env cfg msgs cs w = (calls, w2)"
  shows "final_answer calls = None \<longleftrightarrow> (\<forall>c \<in> set calls. isl (snd c))"
  using assms
proof (induction cs arbitrary: w calls)
  case Nil
  then show ?case by (simp add: final_answer_simps)
next
  case (Cons e rest)
  from attempts_Cons [OF Cons.prems] show ?case
  proof (elim disjE exE conjE)
    fix a assume "calls = [(e, Inr a)]"
    then show ?thesis by (simp add: final_answer_simps)
  next
    fix exc w1 calls1
    assume a: "attempts_spec env cfg msgs rest w1 = (calls1, w2)" and calls: "calls = (e, Inl exc) # calls1"
    from Cons.IH [OF a] calls show ?thesis by (simp add: final_answer_simps)
  qed
qed

lemma attempts_none_all:
  assumes "attempts_spec env cfg msgs cs w = (calls, w2)" and "final_answer calls = None"
  shows "map fst calls = cs"
  using assms
proof (induction cs arbitrary: w calls)
  case Nil
  then show ?case by simp
next
  case (Cons e rest)
  from attempts_Cons [OF Cons.prems(1)] show ?case
  proof (elim disjE exE conjE)
    fix a assume "calls = [(e, Inr a)]"
    with Cons.prems(2) show ?thesis by (simp add: final_answer_simps)
  next
    fix exc w1 calls1
    assume a: "attempts_spec env cfg msgs rest w1 = (calls1, w2)" and calls: "calls = (e, Inl exc) # calls1"
    with Cons.prems(2) have "final_answer calls1 = None" by (simp add: final_answer_simps)
    with Cons.IH [OF a] calls show ?thesis by simp
  qed
qed

lemma attempts_append:
  assumes "attempts_spec env cfg msgs xs w = (c1, w1)"
  shows "attempts_spec env cfg msgs (xs @ ys) w =
     (if final_answer c1 = None
      then (case attempts_spec env cfg msgs ys w1 of (c2, w2) \<Rightarrow> (c1 @ c2, w2))
      else (c1, w1))"
  using assms
proof (induction xs arbitrary: w c1)
  case Nil
  then show ?case by (simp add: final_answer_simps split: prod.splits)
next
  case (Cons e rest)
  from attempts_Cons [OF Cons.prems] show ?case
  proof (elim disjE exE conjE)
    fix a assume "call_candidate env cfg msgs e w = (Inr a, w1)" and "c1 = [(e, Inr a)]"
    then show ?thesis by (simp add: final_answer_simps)
  next
    fix exc w0 calls1
    assume c: "call_candidate env cfg msgs e w = (Inl exc, w0)"
      and a: "attempts_spec env cfg msgs rest w0 = (calls1, w1)" and c1: "c1 = (e, Inl exc) # calls1"
    from Cons.IH [OF a] c show ?thesis
      unfolding c1 by (simp add: final_answer_simps split: prod.splits)
  qed
qed

lemma try_candidates_attempts:
  assumes "\<forall>m \<in> set ms. tier m = t"
    and "attempts_spec env cfg msgs (up_entries health ms) w = (calls, w2)"
  shows "try_candidates env health msgs t (get_tier_timeout cfg t) ms last_error w =
     ((final_answer calls, last_failure last_error calls), map logged calls, w2)"
  using assms
proof (induction ms arbitrary: last_error w calls)
  case Nil
  then show ?case by (simp add: final_answer_simps)
next
  case (Cons e rest)
  show ?case
  proof (cases "reported_down health e")
    case True
    with Cons show ?thesis by simp
  next
    case False
    from Cons.prems have te: "tier e = t" and tr: "\<forall>m \<in> set rest. tier m = t" by simp_all
    from False Cons.prems(2) have "attempts_spec env cfg msgs (e # up_entries health rest) w = (calls, w2)"
      by simp
    from attempts_Cons [OF this] show ?thesis
    proof (elim disjE exE conjE)
      fix a
      assume c: "call_candidate env cfg msgs e w = (Inr a, w2)" and calls: "calls = [(e, Inr a)]"
      from c te False show ?thesis
        unfolding calls
        by (auto simp: call_candidate_def final_answer_simps logged_def Let_def
              split: prod.splits sum.splits)
    next
      fix exc w1 calls1
      assume c: "call_candidate env cfg msgs e w = (Inl exc, w1)"
        and a: "attempts_spec env cfg msgs (up_entries health rest) w1 = (calls1, w2)"
        and calls: "calls = (e, Inl exc) # calls1"
      from Cons.IH [OF tr a, of "Some exc"] c te False show ?thesis
        unfolding calls
        by (auto simp: call_candidate_def final_answer_simps logged_def Let_def
              split: prod.splits sum.splits)
    qed
  qed
qed

lemma try_tiers_attempts:
  assumes "attempts_spec env cfg msgs (concat (map (\<lambda>t. up_entries health (get_tier_models cfg t)) ts)) w
      = (calls, w2)"
  shows "try_tiers env cfg health msgs ts last_error w =
     ((final_answer calls, last_failure last_error calls), map logged calls, w2)"
  using assms
proof (induction ts arbitrary: last_error w calls)
  case Nil
  then show ?case by (simp add: final_answer_simps)
next
  case (Cons t ts)
  let ?xs = "up_entries health (get_tier_models cfg t)"
  let ?ys = "concat (map (\<lambda>t. up_entries health (get_tier_models cfg t)) ts)"
  obtain c1 w1 where a1: "attempts_spec env cfg msgs ?xs w = (c1, w1)" by (metis surj_pair)
  have tt: "\<forall>m \<in> set (get_tier_models cfg t). tier m = t"
    by (simp add: get_tier_models_def)
  from try_candidates_attempts [OF tt a1]
  have tc: "try_candidates env health msgs t (get_tier_timeout cfg t) (get_tier_models cfg t) last_error w =
     ((final_answer c1, last_failure last_error c1), map logged c1, w1)" .
  from Cons.prems have ap: "attempts_spec env cfg msgs (?xs @ ?ys) w = (calls, w2)" by simp
  show ?case
  proof (cases "final_answer c1")
    case (Some r)
    with ap attempts_append [OF a1, of ?ys] have "calls = c1" and "w2 = w1" by simp_all
    with tc Some show ?thesis by simp
  next
    case None
    obtain c2 w3 where a2: "attempts_spec env cfg msgs ?ys w1 = (c2, w3)" by (metis surj_pair)
    with None ap attempts_append [OF a1, of ?ys] have calls: "calls = c1 @ c2" and w2: "w2 = w3"
      by simp_all
    have f: "final_answer (c1 @ c2) = final_answer c2"
      using None by (cases "c2 = []") (simp_all add: final_answer_def)
    from a2 w2 have a3: "attempts_spec env cfg msgs ?ys w1 = (c2, w2)" by simp
    from Cons.IH [OF a3, of "last_failure last_error c1"] tc None show ?thesis
      unfolding calls f by (simp add: last_failure_append)
  qed
qed

lemma candidates_by_tier:
  "candidates cfg health t =
     concat (map (\<lambda>t. up_entries health (get_tier_models cfg t)) (search_order t))"
  by (simp add: candidates_def up_entries_def filter_concat comp_def)

lemma auto_route_attempts:
  assumes "refresh_opt env health w = (Inr u, health1, w1)"
    and "attempts_spec env cfg (build_messages system prompt)
           (candidates cfg health1 (detect_tier cfg forced prompt)) w1 = (calls, w2)"
  shows "auto_route env prompt system forced cfg health w =
     ((case final_answer calls of
         Some r \<Rightarrow> Inr r
       | None \<Rightarrow> Inl (PyExn RuntimeError
                  (exhausted_message (detect_tier cfg forced prompt) (last_failure None calls)))),
      health1, map logged calls, w2)"
proof -
  from assms(2) have "attempts_spec env cfg (build_messages system prompt)
      (concat (map (\<lambda>t. up_entries health1 (get_tier_models cfg t))
         (search_order (detect_tier cfg forced prompt)))) w1 = (calls, w2)"
    by (simp add: candidates_by_tier)
  from try_tiers_attempts [OF this, of None] assms(1) show ?thesis
    by (simp add: auto_route_def Let_def split: option.splits)
qed

lemmas world_defs = env_hello_def env_refusing_def env_null_content_def env_of_def envelope_def
  connection_refused_def env_power_refused_def env_all_down_def
lemmas input_defs = cfg_default_def cfg_fast_only_def cfg_three_def cfg_two_endpoints_def
  cfg_unnamed_first_def m_fast_def m_power_def m_deep_def m_power_secondary_def m_fast_unnamed_def
  ep_primary_def ep_secondary_def ep_unnamed_def monitor_primary_def monitor_two_def
  ServiceHealth_init_def register_def
lemmas route_defs = auto_route_def refresh_opt_def refresh_def pool_submit_all_def as_completed_def
  probe_def dict_update_all_def detect_tier_def search_order_def get_tier_models_def
  get_tier_timeout_def reported_down_def is_up_def chat_completion_def extract_text_def
  content_of_envelope_def build_messages_def message_def latency_values exhausted_message_def
  Let_def

lemma route_fast_only:
  "auto_route env_hello ''Hi'' None (Some ''T3'') cfg_fast_only None 0 =
     (Inr \<lparr>r_model = ''fast-1'', r_tier = ''fast'', r_response = PStr ''hello'', r_latency_s = 1\<rparr>,
      None, [(m_fast, None)], 1)"
  by (simp add: route_defs world_defs input_defs)

lemma route_all_refused:
  "auto_route env_refusing ''Hi'' None (Some ''T2'') cfg_two_endpoints (Some monitor_two) 0 =
     (Inl (PyExn RuntimeError ''All models exhausted for tier T2. Last error: Connection refused''),
      Some (monitor_two\<lparr>h_status := [(''primary'', True), (''secondary'', False)]\<rparr>),
      [(m_fast, Some connection_refused)], 3)"
  by (simp add: route_defs world_defs input_defs)

lemma route_unnamed_skipped:
  "auto_route env_hello ''Hi'' None None cfg_unnamed_first (Some monitor_primary) 0 =
     (Inr \<lparr>r_model = ''fast-1'', r_tier = ''fast'', r_response = PStr ''hello'', r_latency_s = 1\<rparr>,
      Some (monitor_primary\<lparr>h_status := [(''primary'', True)]\<rparr>), [(m_fast, None)], 2)"
  by (simp add: route_defs world_defs input_defs classify_complexity_def default_deep_keywords_def
        lower_def lower_char_def is_space_def)

lemma candidates_unfold:
  "candidates cfg health t =
     filter (\<lambda>e. \<not> reported_down health e)
       (concat (map (\<lambda>t. filter (\<lambda>m. tier m = t) (models cfg)) (search_order t)))"
  by (simp add: candidates_def get_tier_models_def [abs_def])

lemma detect_tier_forced: "t \<noteq> [] \<Longrightarrow> detect_tier cfg (Some t) prompt = t"
  by (simp add: detect_tier_def)

lemma last_failure_all_failed:
  assumes "\<forall>c \<in> set calls. isl (snd c)"
  shows "last_failure last_error calls =
     (if calls = [] then last_error
      else (case snd (last calls) of Inl exc \<Rightarrow> Some exc | Inr a \<Rightarrow> None))"
  using assms
proof (induction calls arbitrary: last_error)
  case Nil
  then show ?case by simp
next
  case (Cons c calls)
  then obtain exc where c: "snd c = Inl exc" by (cases "snd c") auto
  from Cons.prems have "\<forall>c \<in> set calls. isl (snd c)" by simp
  from Cons.IH [OF this, of "Some exc"] c show ?case by simp
qed

lemma final_answer_last:
  assumes "calls \<noteq> []" and "last calls = (m, Inr (body, lat))"
  shows "final_answer calls = Some \<lparr>r_model = model_id m, r_tier = tier m, r_response = body,
                                     r_latency_s = lat\<rparr>"
  using assms by (simp add: final_answer_def answer_of_def)

lemma detect_tier_classified:
  "forced = None \<or> forced = Some [] \<Longrightarrow> detect_tier cfg forced prompt = classify_complexity cfg prompt"
  by (auto simp: detect_tier_def)

lemma search_order_other:
  "t \<noteq> ''T1'' \<and> t \<noteq> ''T2'' \<and> t \<noteq> ''T3'' \<Longrightarrow> search_order t = [''fast'']"
  by (simp add: search_order_def)

lemma auto_route_attempts_run:
  assumes run: "auto_route env prompt system forced cfg health w = (res, health1, dispatched, w')"
    and rf: "refresh_opt env health w = (Inr u, health1, w1)"
    and at: "attempts_spec env cfg (build_messages system prompt)
           (candidates cfg health1 (detect_tier cfg forced prompt)) w1 = (calls, w2)"
  shows "dispatched = map logged calls" and "w' = w2"
    and "res = (case final_answer calls of
                  Some r \<Rightarrow> Inr r
                | None \<Rightarrow> Inl (PyExn RuntimeError
                    (exhausted_message (detect_tier cfg forced prompt) (last_failure None calls))))"
  using auto_route_attempts [OF rf at] run by simp_all

lemma auto_route_all_failed:
  assumes run: "auto_route env prompt system forced cfg health w = (res, health1, dispatched, w')"
    and rf: "refresh_opt env health w = (Inr u, health1, w1)"
    and at: "attempts_spec env cfg (build_messages system prompt)
           (candidates cfg health1 (detect_tier cfg forced prompt)) w1 = (calls, w2)"
    and failed: "\<forall>c \<in> set calls. isl (snd c)"
  shows "map fst calls = candidates cfg health1 (detect_tier cfg forced prompt)"
    and "res = Inl (PyExn RuntimeError
           (''All models exhausted for tier '' @ detect_tier cfg forced prompt @ ''. Last error: '' @
            (if calls = [] then ''None''
             else (case snd (last calls) of Inl exc \<Rightarrow> exn_str exc | Inr a \<Rightarrow> ''None''))))"
proof -
  from failed attempts_none_iff [OF at] have none: "final_answer calls = None" by simp
  with at show "map fst calls = candidates cfg health1 (detect_tier cfg forced prompt)"
    by (rule attempts_none_all)
  from failed have "last_failure None calls =
     (if calls = [] then None else (case snd (last calls) of Inl exc \<Rightarrow> Some exc | Inr a \<Rightarrow> None))"
    by (rule last_failure_all_failed)
  with auto_route_attempts_run(3) [OF run rf at] none
  show "res = Inl (PyExn RuntimeError
           (''All models exhausted for tier '' @ detect_tier cfg forced prompt @ ''. Last error: '' @
            (if calls = [] then ''None''
             else (case snd (last calls) of Inl exc \<Rightarrow> exn_str exc | Inr a \<Rightarrow> ''None''))))"
    by (simp add: exhausted_message_def split: sum.splits)
qed

lemma auto_route_all_down:
  assumes run: "auto_route env prompt system forced cfg health w = (res, health1, dispatched, w')"
    and rf: "refresh_opt env health w = (Inr u, health1, w1)"
    and down: "\<forall>m \<in> set (concat (map (get_tier_models cfg) (search_order (detect_tier cfg forced prompt)))).
                reported_down health1 m"
  shows "dispatched = []"
    and "res = Inl (PyExn RuntimeError
           (''All models exhausted for tier '' @ detect_tier cfg forced prompt @ ''. Last error: None''))"
proof -
  from down have "candidates cfg health1 (detect_tier cfg forced prompt) = []"
    unfolding candidates_def by (simp add: filter_empty_conv)
  then have at: "attempts_spec env cfg (build_messages system prompt)
           (candidates cfg health1 (detect_tier cfg forced prompt)) w1 = ([], w1)"
    by simp
  from auto_route_attempts_run(1) [OF run rf at] show "dispatched = []" by simp
  from auto_route_all_failed(2) [OF run rf at] show "res = Inl (PyExn RuntimeError
           (''All models exhausted for tier '' @ detect_tier cfg forced prompt @ ''. Last error: None''))"
    by simp
qed

lemma auto_route_some_answer:
  assumes run: "auto_route env prompt system forced cfg health w = (res, health1, dispatched, w')"
    and rf: "refresh_opt env health w = (Inr u, health1, w1)"
    and at: "attempts_spec env cfg (build_messages system prompt)
           (candidates cfg health1 (detect_tier cfg forced prompt)) w1 = (calls, w2)"
    and last: "calls \<noteq> []" "last calls = (m, Inr (body, lat))"
  shows "res = Inr \<lparr>r_model = model_id m, r_tier = tier m, r_response = body, r_latency_s = lat\<rparr>"
  using auto_route_attempts_run(3) [OF run rf at] final_answer_last [OF last] by simp

lemma route_power_refused:
  "auto_route env_power_refused ''Hi'' None (Some ''T2'') cfg_three None 0 =
     (Inr \<lparr>r_model = ''fast-1'', r_tier = ''fast'', r_response = PStr ''hello'', r_latency_s = 1\<rparr>,
      None, [(m_power, Some connection_refused), (m_fast, None)], 2)"
  by (simp add: route_defs world_defs input_defs)

lemma attempts_power_refused:
  "attempts_spec env_power_refused cfg_three (build_messages None ''Hi'') [m_power, m_fast] 0 =
     ([(m_power, Inl connection_refused), (m_fast, Inr (PStr ''hello'', 1))], 2)"
  by (simp add: call_candidate_def route_defs world_defs input_defs)

lemma route_all_down:
  "auto_route env_all_down ''Hi'' None (Some ''T3'') cfg_three (Some monitor_primary) 0 =
     (Inl (PyExn RuntimeError ''All models exhausted for tier T3. Last error: None''),
      Some (monitor_primary\<lparr>h_status := [(''primary'', False)]\<rparr>), [], 1)"
  by (simp add: route_defs world_defs input_defs)

lemma attempts_all_refused:
  "attempts_spec env_refusing cfg_two_endpoints (build_messages None ''Hi'') [m_fast] 2 =
     ([(m_fast, Inl connection_refused)], 3)"
  by (simp add: call_candidate_def route_defs world_defs input_defs)

lemma refresh_all_refused:
  "refresh_opt env_refusing (Some monitor_two) 0 =
     (Inr (), Some (monitor_two\<lparr>h_status := [(''primary'', True), (''secondary'', False)]\<rparr>), 2)"
  by (simp add: route_defs world_defs input_defs)

lemma refresh_all_down:
  "refresh_opt env_all_down (Some monitor_primary) 0 =
     (Inr (), Some (monitor_primary\<lparr>h_status := [(''primary'', False)]\<rparr>), 1)"
  by (simp add: route_defs world_defs input_defs)

text \<open>
  Claim C1. The search order is \<open>[fast]\<close> for T1, \<open>[power, fast]\<close> for T2 and
  \<open>[deep, power, fast]\<close> for T3 (and \<open>[fast]\<close> for any other name); the effective tier is
  the forced one when one is given, else the tier of the classifier. The candidates of a
  run are the registered models of the tiers of the search order, tier by tier and
  within a tier in the order of registration (a tier with no model adds nothing), those
  reported down left out. After the refresh \<open>auto_route\<close> makes exactly the attempts of
  the greedy search over this list, from the first candidate on and up to the first
  attempt that succeeds: its dispatch log is the list of these attempts, each marked
  with the exception the backend's answer made it raise; the result is the answer of the
  attempt that succeeded, with the model and the tier of its entry; with no such attempt
  the route raises. So the calls go to an initial part of the candidates, in their
  order, and every call but the last has failed. For a configuration whose only model
  is in the tier \<open>fast\<close>, with T3 forced and the model not reported down, the tiers \<open>deep\<close>
  and \<open>power\<close> are empty, the one call goes to that model, and a result names it.
\<close>

theorem auto_route_search_order:
  assumes run: "auto_route env prompt system forced cfg health w = (res, health1, dispatched, w')"
  shows "search_order ''T1'' = [''fast''] \<and> search_order ''T2'' = [''power'', ''fast'']
     \<and> search_order ''T3'' = [''deep'', ''power'', ''fast'']
     \<and> (\<forall>t. t \<noteq> ''T1'' \<and> t \<noteq> ''T2'' \<and> t \<noteq> ''T3'' \<longrightarrow> search_order t = [''fast''])
     \<and> (\<forall>t. forced = Some t \<and> t \<noteq> [] \<longrightarrow> detect_tier cfg forced prompt = t)
     \<and> (forced = None \<or> forced = Some [] \<longrightarrow>
           detect_tier cfg forced prompt = classify_complexity cfg prompt)
     \<and> candidates cfg health1 (detect_tier cfg forced prompt) =
         filter (\<lambda>e. \<not> reported_down health1 e)
           (concat (map (\<lambda>t. filter (\<lambda>m. tier m = t) (models cfg))
                      (search_order (detect_tier cfg forced prompt))))
     \<and> prefix (map fst dispatched) (candidates cfg health1 (detect_tier cfg forced prompt))
     \<and> (\<forall>x \<in> set (butlast dispatched). snd x \<noteq> None)
     \<and> (\<forall>r. res = Inr r \<longrightarrow>
           dispatched \<noteq> [] \<and> snd (last dispatched) = None
           \<and> r_model r = model_id (fst (last dispatched)) \<and> r_tier r = tier (fst (last dispatched)))
     \<and> (\<forall>exc u. res = Inl exc \<and> fst (refresh_opt env health w) = Inr u \<longrightarrow>
           map fst dispatched = candidates cfg health1 (detect_tier cfg forced prompt)
           \<and> (\<forall>x \<in> set dispatched. snd x \<noteq> None))
     \<and> (\<forall>u w1 calls w2.
           refresh_opt env health w = (Inr u, health1, w1)
           \<and> attempts_spec env cfg (build_messages system prompt)
                 (candidates cfg health1 (detect_tier cfg forced prompt)) w1 = (calls, w2) \<longrightarrow>
           dispatched = map logged calls \<and> w' = w2
           \<and> res = (case final_answer calls of
                        Some r \<Rightarrow> Inr r
                      | None \<Rightarrow> Inl (PyExn RuntimeError
                          (exhausted_message (detect_tier cfg forced prompt)
                             (last_failure None calls))))
           \<and> (\<forall>m body lat. calls \<noteq> [] \<and> last calls = (m, Inr (body, lat)) \<longrightarrow>
                 res = Inr \<lparr>r_model = model_id m, r_tier = tier m, r_response = body,
                            r_latency_s = lat\<rparr>)
           \<and> (final_answer calls = None \<longleftrightarrow> (\<forall>c \<in> set calls. isl (snd c))))
     \<and> (\<forall>m u. models cfg = [m] \<and> tier m = ''fast'' \<and> forced = Some ''T3''
             \<and> fst (refresh_opt env health w) = Inr u \<and> \<not> reported_down health1 m \<longrightarrow>
           get_tier_models cfg ''deep'' = [] \<and> get_tier_models cfg ''power'' = []
           \<and> map fst dispatched = [m]
           \<and> (\<forall>r. res = Inr r \<longrightarrow> r_model r = model_id m \<and> r_tier r = ''fast''))"
proof -
  have order: "search_order ''T1'' = [''fast''] \<and> search_order ''T2'' = [''power'', ''fast'']
     \<and> search_order ''T3'' = [''deep'', ''power'', ''fast'']"
    by (simp add: search_order_def)
  have other: "\<forall>t. t \<noteq> ''T1'' \<and> t \<noteq> ''T2'' \<and> t \<noteq> ''T3'' \<longrightarrow> search_order t = [''fast'']"
    by (simp add: search_order_other)
  have given: "\<forall>t. forced = Some t \<and> t \<noteq> [] \<longrightarrow> detect_tier cfg forced prompt = t"
    by (simp add: detect_tier_forced)
  have classified: "forced = None \<or> forced = Some [] \<longrightarrow>
      detect_tier cfg forced prompt = classify_complexity cfg prompt"
    by (simp add: detect_tier_classified)
  have cands: "candidates cfg health1 (detect_tier cfg forced prompt) =
         filter (\<lambda>e. \<not> reported_down health1 e)
           (concat (map (\<lambda>t. filter (\<lambda>m. tier m = t) (models cfg))
                      (search_order (detect_tier cfg forced prompt))))"
    by (rule candidates_unfold)
  from run have pre: "prefix (map fst dispatched) (candidates cfg health1 (detect_tier cfg forced prompt))
     \<and> (\<forall>x \<in> set (butlast dispatched). snd x \<noteq> None)"
    by (rule auto_route_prefix)
  have ok: "dispatched \<noteq> [] \<and> snd (last dispatched) = None
      \<and> r_model r = model_id (fst (last dispatched)) \<and> r_tier r = tier (fst (last dispatched))"
    if "res = Inr r" for r
  proof -
    from run that have "auto_route env prompt system forced cfg health w = (Inr r, health1, dispatched, w')"
      by simp
    from auto_route_Inr [OF this] show ?thesis by auto
  qed
  have failed: "map fst dispatched = candidates cfg health1 (detect_tier cfg forced prompt)
      \<and> (\<forall>x \<in> set dispatched. snd x \<noteq> None)"
    if "res = Inl exc \<and> fst (refresh_opt env health w) = Inr u" for exc u
  proof -
    from run that have "auto_route env prompt system forced cfg health w = (Inl exc, health1, dispatched, w')"
      and "fst (refresh_opt env health w) = Inr u" by simp_all
    from auto_route_Inl [OF this] show ?thesis by simp
  qed
  have greedy: "dispatched = map logged calls \<and> w' = w2
           \<and> res = (case final_answer calls of
                        Some r \<Rightarrow> Inr r
                      | None \<Rightarrow> Inl (PyExn RuntimeError
                          (exhausted_message (detect_tier cfg forced prompt)
                             (last_failure None calls))))
           \<and> (\<forall>m body lat. calls \<noteq> [] \<and> last calls = (m, Inr (body, lat)) \<longrightarrow>
                 res = Inr \<lparr>r_model = model_id m, r_tier = tier m, r_response = body,
                            r_latency_s = lat\<rparr>)
           \<and> (final_answer calls = None \<longleftrightarrow> (\<forall>c \<in> set calls. isl (snd c)))"
    if h: "refresh_opt env health w = (Inr u, health1, w1)
           \<and> attempts_spec env cfg (build_messages system prompt)
                 (candidates cfg health1 (detect_tier cfg forced prompt)) w1 = (calls, w2)"
    for u w1 calls w2
  proof -
    from h have rf: "refresh_opt env health w = (Inr u, health1, w1)"
      and at: "attempts_spec env cfg (build_messages system prompt)
                 (candidates cfg health1 (detect_tier cfg forced prompt)) w1 = (calls, w2)"
      by simp_all
    note a = auto_route_attempts_run [OF run rf at]
    have "res = Inr \<lparr>r_model = model_id m, r_tier = tier m, r_response = body, r_latency_s = lat\<rparr>"
      if "calls \<noteq> [] \<and> last calls = (m, Inr (body, lat))" for m body lat
      using that by (intro auto_route_some_answer [OF run rf at]) simp_all
    with a attempts_none_iff [OF at] show ?thesis by blast
  qed
  have only: "get_tier_models cfg ''deep'' = [] \<and> get_tier_models cfg ''power'' = []
      \<and> map fst dispatched = [m]
      \<and> (\<forall>r. res = Inr r \<longrightarrow> r_model r = model_id m \<and> r_tier r = ''fast'')"
    if h: "models cfg = [m] \<and> tier m = ''fast'' \<and> forced = Some ''T3''
             \<and> fst (refresh_opt env health w) = Inr u \<and> \<not> reported_down health1 m" for m u
  proof -
    from h have e: "get_tier_models cfg ''deep'' = [] \<and> get_tier_models cfg ''power'' = []"
      by (simp add: get_tier_models_def)
    from h have "detect_tier cfg forced prompt = ''T3''" by (simp add: detect_tier_forced)
    with h have c: "candidates cfg health1 (detect_tier cfg forced prompt) = [m]"
      by (simp add: candidates_def search_order_def get_tier_models_def)
    have d: "map fst dispatched = [m]"
    proof (cases res)
      case (Inl exc)
      with failed [of exc u] h c show ?thesis by simp
    next
      case (Inr r)
      with ok have "dispatched \<noteq> []" by simp
      moreover from pre c have "prefix (map fst dispatched) [m]" by simp
      ultimately show ?thesis by (cases dispatched) auto
    qed
    from d have "fst (last dispatched) = m" by (cases dispatched) auto
    with ok h d e show ?thesis by auto
  qed
  show ?thesis
    apply (intro conjI)
    subgoal using order by simp
    subgoal using order by simp
    subgoal using order by simp
    subgoal by (rule other)
    subgoal by (rule given)
    subgoal by (rule classified)
    subgoal by (rule cands)
    subgoal using pre by simp
    subgoal using pre by simp
    subgoal using ok by blast
    subgoal using failed by blast
    subgoal using greedy by blast
    subgoal using only by blast
    done
qed

text \<open>
  The theorem on two runs without monitor. In the first, with a fast, a power and a deep
  model and T2 forced, the power model is refused: the candidates are the power and the
  fast model, both are called in this order, the first call is logged with the refusal,
  and the result is the answer of the fast model. In the second there is one fast
  model and T3 is forced: the tiers \<open>deep\<close> and \<open>power\<close> are empty and the call goes to the
  fast model.
\<close>

theorem auto_route_search_order_witness:
  "auto_route env_power_refused ''Hi'' None (Some ''T2'') cfg_three None 0 =
     (Inr \<lparr>r_model = ''fast-1'', r_tier = ''fast'', r_response = PStr ''hello'', r_latency_s = 1\<rparr>,
      None, [(m_power, Some connection_refused), (m_fast, None)], 2)
   \<and> models cfg_three = [m_fast, m_power, m_deep]
   \<and> candidates cfg_three None ''T2'' = [m_power, m_fast]
   \<and> attempts_spec env_power_refused cfg_three (build_messages None ''Hi'') [m_power, m_fast] 0 =
       ([(m_power, Inl connection_refused), (m_fast, Inr (PStr ''hello'', 1))], 2)
   \<and> [(m_power, Some connection_refused), (m_fast, None)] =
       map logged [(m_power, Inl connection_refused), (m_fast, Inr (PStr ''hello'', 1))]
   \<and> auto_route env_hello ''Hi'' None (Some ''T3'') cfg_fast_only None 0 =
     (Inr \<lparr>r_model = ''fast-1'', r_tier = ''fast'', r_response = PStr ''hello'', r_latency_s = 1\<rparr>,
      None, [(m_fast, None)], 1)
   \<and> models cfg_fast_only = [m_fast] \<and> tier m_fast = ''fast''
   \<and> get_tier_models cfg_fast_only ''deep'' = [] \<and> get_tier_models cfg_fast_only ''power'' = []
   \<and> candidates cfg_fast_only None ''T3'' = [m_fast]
   \<and> map fst [(m_fast, None :: pyexn option)] = [m_fast]"
proof -
  have m3: "models cfg_three = [m_fast, m_power, m_deep]"
    by (simp add: cfg_three_def)
  have dt: "detect_tier cfg_three (Some ''T2'') ''Hi'' = ''T2''"
    by (simp add: detect_tier_def)
  note t2 = auto_route_search_order [OF route_power_refused]
  from t2 have "candidates cfg_three None (detect_tier cfg_three (Some ''T2'') ''Hi'') =
      filter (\<lambda>e. \<not> reported_down None e)
        (concat (map (\<lambda>t. filter (\<lambda>m. tier m = t) (models cfg_three))
                   (search_order (detect_tier cfg_three (Some ''T2'') ''Hi''))))"
    by (rule conjunct2 [THEN conjunct2, THEN conjunct2, THEN conjunct2, THEN conjunct2,
          THEN conjunct2, THEN conjunct1])
  then have c2: "candidates cfg_three None ''T2'' = [m_power, m_fast]"
    by (simp add: detect_tier_def search_order_def reported_down_def cfg_three_def
          m_fast_def m_power_def m_deep_def)
  have rf2: "refresh_opt env_power_refused None 0 = (Inr (), None, 0)"
    by (simp add: refresh_opt_def)
  from attempts_power_refused c2 dt
  have at2: "attempts_spec env_power_refused cfg_three (build_messages None ''Hi'')
      (candidates cfg_three None (detect_tier cfg_three (Some ''T2'') ''Hi'')) 0 =
       ([(m_power, Inl connection_refused), (m_fast, Inr (PStr ''hello'', 1))], 2)"
    by simp
  note g = t2 [THEN conjunct2, THEN conjunct2, THEN conjunct2, THEN conjunct2, THEN conjunct2,
      THEN conjunct2, THEN conjunct2, THEN conjunct2, THEN conjunct2, THEN conjunct2,
      THEN conjunct2, THEN conjunct1, rule_format, OF conjI [OF rf2 at2]]
  from g have l2: "[(m_power, Some connection_refused), (m_fast, None)] =
       map logged [(m_power, Inl connection_refused), (m_fast, Inr (PStr ''hello'', 1))]"
    by (rule conjunct1)
  have m1: "models cfg_fast_only = [m_fast]" and m2: "tier m_fast = ''fast''"
    by (simp_all add: cfg_fast_only_def m_fast_def)
  have e1: "get_tier_models cfg_fast_only ''deep'' = []"
    and e2: "get_tier_models cfg_fast_only ''power'' = []"
    by (simp_all add: get_tier_models_def cfg_fast_only_def m_fast_def)
  have rf: "fst (refresh_opt env_hello None 0) = Inr ()"
    by (simp add: refresh_opt_def)
  have up: "\<not> reported_down None m_fast"
    by (simp add: reported_down_def)
  note t3 = auto_route_search_order [OF route_fast_only]
  from t3 have "candidates cfg_fast_only None (detect_tier cfg_fast_only (Some ''T3'') ''Hi'') =
      filter (\<lambda>e. \<not> reported_down None e)
        (concat (map (\<lambda>t. filter (\<lambda>m. tier m = t) (models cfg_fast_only))
                   (search_order (detect_tier cfg_fast_only (Some ''T3'') ''Hi''))))"
    by (rule conjunct2 [THEN conjunct2, THEN conjunct2, THEN conjunct2, THEN conjunct2,
          THEN conjunct2, THEN conjunct1])
  then have c: "candidates cfg_fast_only None ''T3'' = [m_fast]"
    by (simp add: detect_tier_def search_order_def reported_down_def cfg_fast_only_def m_fast_def)
  note o = t3 [THEN conjunct2, THEN conjunct2, THEN conjunct2, THEN conjunct2, THEN conjunct2,
      THEN conjunct2, THEN conjunct2, THEN conjunct2, THEN conjunct2, THEN conjunct2,
      THEN conjunct2, THEN conjunct2, rule_format,
      OF conjI [OF m1 conjI [OF m2 conjI [OF refl conjI [OF rf up]]]]]
  from o have d: "map fst [(m_fast, None :: pyexn option)] = [m_fast]"
    by (rule conjunct2 [THEN conjunct2, THEN conjunct1])
  show ?thesis
    by (intro conjI route_power_refused m3 c2 attempts_power_refused l2 route_fast_only m1 m2 e1 e2 c d)
qed

text \<open>
  Claim C6. Every call \<open>auto_route\<close> dispatches goes to an entry that the monitor, as
  the refresh left it, does not report down; with a monitor, the endpoint of every entry
  called is up. After the refresh, when every attempt of the greedy search over the
  candidates that are not skipped fails, every such candidate is called, the log holds
  these calls, and \<open>auto_route\<close> raises the \<open>RuntimeError\<close> whose text names the tier and
  ends with the text of the error of the last call, or with \<open>None\<close> when no call was
  made; in particular it raises this error, with \<open>None\<close> and without any call, when every
  entry of the tiers searched is reported down. Conversely, when the route fails after
  the refresh, every candidate that was not skipped was called and failed, and the
  exception is that error.
\<close>

theorem auto_route_skips_down_and_exhausts:
  assumes run: "auto_route env prompt system forced cfg health w = (res, health1, dispatched, w')"
  shows "(\<forall>x \<in> set dispatched. \<not> reported_down health1 (fst x))
     \<and> (\<forall>h. health = Some h \<longrightarrow>
           (\<exists>h1. health1 = Some h1 \<and> (\<forall>x \<in> set dispatched. is_up h1 (name (endpoint (fst x))))))
     \<and> (\<forall>exc u. res = Inl exc \<and> fst (refresh_opt env health w) = Inr u \<longrightarrow>
           map fst dispatched = candidates cfg health1 (detect_tier cfg forced prompt)
           \<and> (\<forall>x \<in> set dispatched. snd x \<noteq> None)
           \<and> exc = PyExn RuntimeError
                (''All models exhausted for tier '' @ detect_tier cfg forced prompt @
                 ''. Last error: '' @
                 (case (if dispatched = [] then None else snd (last dispatched)) of
                    None \<Rightarrow> ''None'' | Some last_exc \<Rightarrow> exn_str last_exc)))
     \<and> (\<forall>u w1 calls w2.
           refresh_opt env health w = (Inr u, health1, w1)
           \<and> attempts_spec env cfg (build_messages system prompt)
                 (candidates cfg health1 (detect_tier cfg forced prompt)) w1 = (calls, w2)
           \<and> (\<forall>c \<in> set calls. isl (snd c)) \<longrightarrow>
           map fst calls = candidates cfg health1 (detect_tier cfg forced prompt)
           \<and> dispatched = map logged calls
           \<and> res = Inl (PyExn RuntimeError
                  (''All models exhausted for tier '' @ detect_tier cfg forced prompt @
                   ''. Last error: '' @
                   (if calls = [] then ''None''
                    else (case snd (last calls) of
                            Inl exc \<Rightarrow> exn_str exc | Inr a \<Rightarrow> ''None'')))))
     \<and> (\<forall>u w1.
           refresh_opt env health w = (Inr u, health1, w1)
           \<and> (\<forall>m \<in> set (concat (map (get_tier_models cfg)
                                (search_order (detect_tier cfg forced prompt)))).
                  reported_down health1 m) \<longrightarrow>
           dispatched = []
           \<and> res = Inl (PyExn RuntimeError
                  (''All models exhausted for tier '' @ detect_tier cfg forced prompt @
                   ''. Last error: None'')))
     \<and> (\<forall>t. forced = Some t \<and> t \<noteq> [] \<longrightarrow> detect_tier cfg forced prompt = t)
     \<and> (forced = None \<or> forced = Some [] \<longrightarrow>
           detect_tier cfg forced prompt = classify_complexity cfg prompt)"
proof -
  from run have up: "\<forall>x \<in> set dispatched. \<not> reported_down health1 (fst x)"
    by (rule auto_route_dispatched_up)
  have monitor: "\<exists>h1. health1 = Some h1 \<and> (\<forall>x \<in> set dispatched. is_up h1 (name (endpoint (fst x))))"
    if "health = Some h" for h
  proof -
    from auto_route_health [OF run] obtain r w1
      where rf: "refresh_opt env health w = (r, health1, w1)" by blast
    from refresh_opt_some [OF rf] that obtain h1 where h1: "health1 = Some h1"
      by blast
    from up have "\<forall>x \<in> set dispatched. is_up h1 (name (endpoint (fst x)))"
      unfolding h1 reported_down_def by simp
    with h1 show ?thesis by blast
  qed
  have failed: "map fst dispatched = candidates cfg health1 (detect_tier cfg forced prompt)
           \<and> (\<forall>x \<in> set dispatched. snd x \<noteq> None)
           \<and> exc = PyExn RuntimeError
                (''All models exhausted for tier '' @ detect_tier cfg forced prompt @
                 ''. Last error: '' @
                 (case (if dispatched = [] then None else snd (last dispatched)) of
                    None \<Rightarrow> ''None'' | Some last_exc \<Rightarrow> exn_str last_exc))"
    if "res = Inl exc \<and> fst (refresh_opt env health w) = Inr u" for exc u
  proof -
    from run that have "auto_route env prompt system forced cfg health w = (Inl exc, health1, dispatched, w')"
      and "fst (refresh_opt env health w) = Inr u" by simp_all
    from auto_route_Inl [OF this] show ?thesis
      unfolding exhausted_message_def by blast
  qed
  have exhausted: "map fst calls = candidates cfg health1 (detect_tier cfg forced prompt)
           \<and> dispatched = map logged calls
           \<and> res = Inl (PyExn RuntimeError
                  (''All models exhausted for tier '' @ detect_tier cfg forced prompt @
                   ''. Last error: '' @
                   (if calls = [] then ''None''
                    else (case snd (last calls) of
                            Inl exc \<Rightarrow> exn_str exc | Inr a \<Rightarrow> ''None''))))"
    if h: "refresh_opt env health w = (Inr u, health1, w1)
           \<and> attempts_spec env cfg (build_messages system prompt)
                 (candidates cfg health1 (detect_tier cfg forced prompt)) w1 = (calls, w2)
           \<and> (\<forall>c \<in> set calls. isl (snd c))"
    for u w1 calls w2
  proof -
    from h have rf: "refresh_opt env health w = (Inr u, health1, w1)"
      and at: "attempts_spec env cfg (build_messages system prompt)
                 (candidates cfg health1 (detect_tier cfg forced prompt)) w1 = (calls, w2)"
      and fl: "\<forall>c \<in> set calls. isl (snd c)"
      by simp_all
    from auto_route_all_failed [OF run rf at fl] auto_route_attempts_run(1) [OF run rf at]
    show ?thesis by (intro conjI)
  qed
  have all_down: "dispatched = []
           \<and> res = Inl (PyExn RuntimeError
                  (''All models exhausted for tier '' @ detect_tier cfg forced prompt @
                   ''. Last error: None''))"
    if h: "refresh_opt env health w = (Inr u, health1, w1)
           \<and> (\<forall>m \<in> set (concat (map (get_tier_models cfg)
                                (search_order (detect_tier cfg forced prompt)))).
                  reported_down health1 m)"
    for u w1
  proof -
    from h have rf: "refresh_opt env health w = (Inr u, health1, w1)"
      and dn: "\<forall>m \<in> set (concat (map (get_tier_models cfg)
                                (search_order (detect_tier cfg forced prompt)))).
                  reported_down health1 m"
      by simp_all
    from auto_route_all_down [OF run rf dn] show ?thesis by (intro conjI)
  qed
  have given: "\<forall>t. forced = Some t \<and> t \<noteq> [] \<longrightarrow> detect_tier cfg forced prompt = t"
    by (simp add: detect_tier_forced)
  have classified: "forced = None \<or> forced = Some [] \<longrightarrow>
      detect_tier cfg forced prompt = classify_complexity cfg prompt"
    by (simp add: detect_tier_classified)
  show ?thesis
    apply (intro conjI)
    subgoal by (rule up)
    subgoal using monitor by blast
    subgoal using failed by blast
    subgoal using exhausted by blast
    subgoal using all_down by blast
    subgoal by (rule given)
    subgoal by (rule classified)
    done
qed


text \<open>
  The theorem on two runs. In the first the secondary endpoint is down and every chat
  request is refused: the power model on the secondary endpoint is skipped, the fast
  model is called and fails, and the route fails with the text of that error. In the
  second every endpoint is down: no call is made, and the route fails with the text
  \<open>None\<close> for the last error.
\<close>

theorem auto_route_skips_down_and_exhausts_witness:
  "auto_route env_refusing ''Hi'' None (Some ''T2'') cfg_two_endpoints (Some monitor_two) 0 =
     (Inl (PyExn RuntimeError ''All models exhausted for tier T2. Last error: Connection refused''),
      Some (monitor_two\<lparr>h_status := [(''primary'', True), (''secondary'', False)]\<rparr>),
      [(m_fast, Some connection_refused)], 3)
   \<and> fst (refresh_opt env_refusing (Some monitor_two) 0) = Inr ()
   \<and> models cfg_two_endpoints = [m_power_secondary, m_fast]
   \<and> is_up (monitor_two\<lparr>h_status := [(''primary'', True), (''secondary'', False)]\<rparr>)
        (name (endpoint m_fast))
   \<and> \<not> is_up (monitor_two\<lparr>h_status := [(''primary'', True), (''secondary'', False)]\<rparr>)
        (name (endpoint m_power_secondary))
   \<and> candidates cfg_two_endpoints
        (Some (monitor_two\<lparr>h_status := [(''primary'', True), (''secondary'', False)]\<rparr>)) ''T2''
      = [m_fast]
   \<and> attempts_spec env_refusing cfg_two_endpoints (build_messages None ''Hi'') [m_fast] 2 =
       ([(m_fast, Inl connection_refused)], 3)
   \<and> [(m_fast, Some connection_refused)] = map logged [(m_fast, Inl connection_refused)]
   \<and> auto_route env_all_down ''Hi'' None (Some ''T3'') cfg_three (Some monitor_primary) 0 =
     (Inl (PyExn RuntimeError ''All models exhausted for tier T3. Last error: None''),
      Some (monitor_primary\<lparr>h_status := [(''primary'', False)]\<rparr>), [], 1)
   \<and> reported_down (Some (monitor_primary\<lparr>h_status := [(''primary'', False)]\<rparr>)) m_deep
   \<and> reported_down (Some (monitor_primary\<lparr>h_status := [(''primary'', False)]\<rparr>)) m_power
   \<and> reported_down (Some (monitor_primary\<lparr>h_status := [(''primary'', False)]\<rparr>)) m_fast
   \<and> (Inl (PyExn RuntimeError ''All models exhausted for tier T3. Last error: None'')
        :: pyexn + RouteResult) =
      Inl (PyExn RuntimeError (''All models exhausted for tier '' @
        detect_tier cfg_three (Some ''T3'') ''Hi'' @ ''. Last error: None''))"
proof -
  let ?h1 = "monitor_two\<lparr>h_status := [(''primary'', True), (''secondary'', False)]\<rparr>"
  let ?h2 = "monitor_primary\<lparr>h_status := [(''primary'', False)]\<rparr>"
  have rf: "fst (refresh_opt env_refusing (Some monitor_two) 0) = Inr ()"
    by (simp add: refresh_all_refused)
  have dt: "detect_tier cfg_two_endpoints (Some ''T2'') ''Hi'' = ''T2''"
    by (simp add: detect_tier_def)
  note t = auto_route_skips_down_and_exhausts [OF route_all_refused]
  from t have "\<forall>x \<in> set [(m_fast, Some connection_refused)]. \<not> reported_down (Some ?h1) (fst x)"
    by (rule conjunct1)
  then have up: "is_up ?h1 (name (endpoint m_fast))"
    by (simp add: reported_down_def)
  note old = t [THEN conjunct2, THEN conjunct2, THEN conjunct1, rule_format, OF conjI [OF refl rf]]
  from old have "map fst [(m_fast, Some connection_refused)]
      = candidates cfg_two_endpoints (Some ?h1) (detect_tier cfg_two_endpoints (Some ''T2'') ''Hi'')"
    by (rule conjunct1)
  with dt have cand: "candidates cfg_two_endpoints (Some ?h1) ''T2'' = [m_fast]"
    by simp
  have down: "\<not> is_up ?h1 (name (endpoint m_power_secondary))"
    by (simp add: is_up_def m_power_secondary_def ep_secondary_def)
  have ms: "models cfg_two_endpoints = [m_power_secondary, m_fast]"
    by (simp add: cfg_two_endpoints_def)
  from attempts_all_refused cand dt
  have at: "attempts_spec env_refusing cfg_two_endpoints (build_messages None ''Hi'')
      (candidates cfg_two_endpoints (Some ?h1) (detect_tier cfg_two_endpoints (Some ''T2'') ''Hi'')) 2 =
       ([(m_fast, Inl connection_refused)], 3)"
    by simp
  have fl: "\<forall>c \<in> set [(m_fast, Inl connection_refused :: pyexn + pyval \<times> real)]. isl (snd c)"
    by simp
  note ex = t [THEN conjunct2, THEN conjunct2, THEN conjunct2, THEN conjunct1, rule_format,
      OF conjI [OF refresh_all_refused conjI [OF at fl]]]
  from ex have lg: "[(m_fast, Some connection_refused)] = map logged [(m_fast, Inl connection_refused)]"
    by (rule conjunct2 [THEN conjunct1])
  have dn: "reported_down (Some ?h2) m_deep" "reported_down (Some ?h2) m_power"
    "reported_down (Some ?h2) m_fast"
    by (simp_all add: reported_down_def is_up_def m_deep_def m_power_def m_fast_def ep_primary_def)
  have "detect_tier cfg_three (Some ''T3'') ''Hi'' = ''T3''"
    by (simp add: detect_tier_def)
  with dn have all: "\<forall>m \<in> set (concat (map (get_tier_models cfg_three)
        (search_order (detect_tier cfg_three (Some ''T3'') ''Hi'')))). reported_down (Some ?h2) m"
    by (simp add: search_order_def get_tier_models_def cfg_three_def m_deep_def m_power_def m_fast_def)
  note t2 = auto_route_skips_down_and_exhausts [OF route_all_down]
  note nd = t2 [THEN conjunct2, THEN conjunct2, THEN conjunct2, THEN conjunct2, THEN conjunct1,
      rule_format, OF conjI [OF refresh_all_down all]]
  from nd have msg: "(Inl (PyExn RuntimeError ''All models exhausted for tier T3. Last error: None'')
        :: pyexn + RouteResult) =
      Inl (PyExn RuntimeError (''All models exhausted for tier '' @
        detect_tier cfg_three (Some ''T3'') ''Hi'' @ ''. Last error: None''))"
    by (rule conjunct2)
  show ?thesis
    by (intro conjI route_all_refused rf ms up down cand attempts_all_refused lg route_all_down dn msg)
qed

lemma is_up_fresh: "\<not> is_up ServiceHealth_init nm"
  by (simp add: is_up_def ServiceHealth_init_def)

lemma is_up_registered: "\<not> is_up (register h nm health_url hdrs) nm"
  by (simp add: is_up_def register_def update_conv')

text \<open>
  Claim C10. \<open>is_up\<close> is false for every name on a new monitor, for a name that has no
  status, and for a name just registered. So when a monitor is passed, \<open>auto_route\<close>
  dispatches no call to an entry whose endpoint name the monitor does not know: the
  refresh gives a status to registered names only.
\<close>

theorem unknown_endpoint_never_dispatched:
  "\<not> is_up ServiceHealth_init nm
   \<and> \<not> is_up (register h nm health_url hdrs) nm
   \<and> (nm \<notin> fst ` set (h_status h) \<longrightarrow> \<not> is_up h nm)
   \<and> (auto_route env prompt system forced cfg (Some h) w = (res, health1, dispatched, w') \<longrightarrow>
        (\<forall>e. name (endpoint e) \<notin> known_names h \<longrightarrow> e \<notin> fst ` set dispatched))"
proof (intro conjI impI allI)
  show "\<not> is_up ServiceHealth_init nm" by (rule is_up_fresh)
  show "\<not> is_up (register h nm health_url hdrs) nm" by (rule is_up_registered)
next
  assume "nm \<notin> fst ` set (h_status h)"
  then show "\<not> is_up h nm" using is_up_known by blast
next
  fix e :: ModelEntry
  assume run: "auto_route env prompt system forced cfg (Some h) w = (res, health1, dispatched, w')"
    and unknown: "name (endpoint e) \<notin> known_names h"
  from auto_route_health [OF run] obtain r w1
    where rf: "refresh_opt env (Some h) w = (r, health1, w1)" by blast
  from refresh_opt_known_names [OF rf] obtain h1
    where h1: "health1 = Some h1" and k: "known_names h1 = known_names h"
    by blast
  show "e \<notin> fst ` set dispatched"
  proof
    assume "e \<in> fst ` set dispatched"
    then obtain x where "x \<in> set dispatched" and "e = fst x" by blast
    with auto_route_dispatched_up [OF run] have "\<not> reported_down health1 e" by blast
    then have "is_up h1 (name (endpoint e))" unfolding h1 reported_down_def by simp
    then have "name (endpoint e) \<in> fst ` set (h_status h1)" by (rule is_up_known)
    then have "name (endpoint e) \<in> known_names h1" unfolding known_names_def by blast
    with k unknown show False by simp
  qed
qed

text \<open>
  The theorem with a monitor that knows the primary endpoint only: the model on the
  endpoint without a name is passed over and the next one is called.
\<close>

theorem unknown_endpoint_never_dispatched_witness:
  "auto_route env_hello ''Hi'' None None cfg_unnamed_first (Some monitor_primary) 0 =
     (Inr \<lparr>r_model = ''fast-1'', r_tier = ''fast'', r_response = PStr ''hello'', r_latency_s = 1\<rparr>,
      Some (monitor_primary\<lparr>h_status := [(''primary'', True)]\<rparr>), [(m_fast, None)], 2)
   \<and> models cfg_unnamed_first = [m_fast_unnamed, m_fast]
   \<and> name (endpoint m_fast_unnamed) \<notin> known_names monitor_primary
   \<and> m_fast_unnamed \<notin> fst ` set [(m_fast, None :: pyexn option)]
   \<and> \<not> is_up monitor_primary ''primary''"
proof -
  have u: "name (endpoint m_fast_unnamed) \<notin> known_names monitor_primary"
    by (simp add: known_names_def input_defs)
  have "\<not> is_up (register ServiceHealth_init ''primary'' ''http://localhost:4000/health/liveliness''
            (Some [(''Authorization'', ''Bearer sk-key'')])) ''primary''"
    by (rule unknown_endpoint_never_dispatched [THEN conjunct2, THEN conjunct1])
  then have down: "\<not> is_up monitor_primary ''primary''"
    unfolding monitor_primary_def .
  have "auto_route env_hello ''Hi'' None None cfg_unnamed_first (Some monitor_primary) 0 =
       (Inr \<lparr>r_model = ''fast-1'', r_tier = ''fast'', r_response = PStr ''hello'', r_latency_s = 1\<rparr>,
        Some (monitor_primary\<lparr>h_status := [(''primary'', True)]\<rparr>), [(m_fast, None)], 2) \<longrightarrow>
     (\<forall>e. name (endpoint e) \<notin> known_names monitor_primary \<longrightarrow>
        e \<notin> fst ` set [(m_fast, None :: pyexn option)])"
    by (rule unknown_endpoint_never_dispatched [THEN conjunct2, THEN conjunct2, THEN conjunct2])
  with route_unnamed_skipped u
  have skipped: "m_fast_unnamed \<notin> fst ` set [(m_fast, None :: pyexn option)]"
    by blast
  have ms: "models cfg_unnamed_first = [m_fast_unnamed, m_fast]"
    by (simp add: cfg_unnamed_first_def)
  show ?thesis
    by (intro conjI route_unnamed_skipped ms u skipped down)
qed

section \<open>Consensus\<close>

lemma show_nat_digits:
  "show_nat (Suc 0) = ''1''" "show_nat (Suc (Suc 0)) = ''2''"
  by (simp_all add: show_nat.simps digit_char_def)

lemmas gather_defs = consensus_def consensus_gather_def consensus_synthesize_def default_models_def
  call_entry_def successful_replies_def synthesis_prompt_def synthesis_section_def
  labelled_answer_def concatenated_answers_def py_str_def deadline_values

lemma consensus_slow_deep:
  "consensus env_slow_deep ''Hi'' None None 5 90 cfg_fast_deep None 0 =
     (Inl (PyExn TimeoutError ''1 (of 2) futures unfinished''), None, 2)"
  by (simp add: gather_defs route_defs world_defs input_defs env_slow_deep_def cfg_fast_deep_def
        show_nat_digits)

lemma consensus_deep_answers:
  "consensus env_deep_answers ''Hi'' None None 5 90 cfg_three None 0 =
     (Inr \<lparr>merged = PStr (''[deep-1]'' @ [CHR 0x0A] @ ''deep answer''),
           individual =
             [\<lparr>m_model = ''fast-1'', m_response = PNone, m_latency_s = None,
               m_error = Some ''Connection refused''\<rparr>,
              \<lparr>m_model = ''power-1'', m_response = PNone, m_latency_s = None,
               m_error = Some ''Connection refused''\<rparr>,
              \<lparr>m_model = ''deep-1'', m_response = PStr ''deep answer'', m_latency_s = Some 1,
               m_error = None\<rparr>],
           model_count = 1\<rparr>, None, 5)"
  by (simp add: gather_defs route_defs world_defs input_defs env_deep_answers_def show_nat_digits)

lemma sublist_concat_map:
  "x \<in> set xs \<Longrightarrow> sublist (f x) (concat (map f xs))"
proof -
  assume "x \<in> set xs"
  then obtain ys zs where "xs = ys @ x # zs" by (auto dest: split_list)
  then have "concat (map f xs) = concat (map f ys) @ f x @ concat (map f zs)" by simp
  then show ?thesis by (simp only: sublist_appendI)
qed

lemma synthesis_prompt_question:
  "sublist prompt (synthesis_prompt env prompt successful)"
proof -
  have "\<exists>ps ss. synthesis_prompt env prompt successful = ps @ prompt @ ss"
    unfolding synthesis_prompt_def
    by (intro exI [of _ "''You are a synthesis agent. Multiple AI models answered the same question.'' @ [CHR 0x0A] @
     ''Combine their insights into a single, comprehensive, non-redundant answer.'' @
     [CHR 0x0A, CHR 0x0A] @ ''ORIGINAL QUESTION:'' @ [CHR 0x0A]"] exI) simp
  then show ?thesis by (simp add: sublist_def)
qed

lemma synthesis_prompt_answer:
  assumes "r \<in> set successful"
  shows "sublist (py_str env (m_response r)) (synthesis_prompt env prompt successful)"
proof -
  let ?f = "\<lambda>(i, r). synthesis_section env (Suc i) r"
  from assms obtain i where "i < length successful" and "successful ! i = r"
    by (auto simp: in_set_conv_nth)
  then have i: "(i, r) \<in> set (enumerate 0 successful)"
    by (simp add: in_set_enumerate_eq)
  have "sublist (py_str env (m_response r)) (?f (i, r))"
  proof -
    have "\<exists>ps ss. ?f (i, r) = ps @ py_str env (m_response r) @ ss"
      by (intro exI [of _ "[CHR 0x0A] @ ''--- Model '' @ show_nat (Suc i) @ '': '' @ m_model r @ '' ---'' @ [CHR 0x0A]"] exI)
         (simp add: synthesis_section_def)
    then show ?thesis by (simp add: sublist_def)
  qed
  moreover from i have "sublist (?f (i, r)) (concat (map ?f (enumerate 0 successful)))"
    by (rule sublist_concat_map)
  moreover have "sublist (concat (map ?f (enumerate 0 successful))) (synthesis_prompt env prompt successful)"
  proof -
    have "\<exists>ps ss. synthesis_prompt env prompt successful = ps @ concat (map ?f (enumerate 0 successful)) @ ss"
      unfolding synthesis_prompt_def
      by (intro exI [of _ "''You are a synthesis agent. Multiple AI models answered the same question.'' @ [CHR 0x0A] @
     ''Combine their insights into a single, comprehensive, non-redundant answer.'' @
     [CHR 0x0A, CHR 0x0A] @ ''ORIGINAL QUESTION:'' @ [CHR 0x0A] @ prompt @ [CHR 0x0A, CHR 0x0A] @
     ''MODEL RESPONSES:'' @ [CHR 0x0A]"] exI) simp
    then show ?thesis by (simp add: sublist_def)
  qed
  ultimately show ?thesis by (meson sublist_order.order.trans)
qed

lemma consensus_after_gather:
  assumes "consensus_gather env prompt chosen system max_workers call_timeout cfg health w = (Inr results, health1, w1)"
  shows "consensus env prompt chosen system max_workers call_timeout cfg health w =
     consensus_synthesize env prompt cfg health1 results w1"
  using assms by (simp add: consensus_def)

lemma synthesize_none:
  assumes "successful_replies results = []"
  shows "consensus_synthesize env prompt cfg health results w =
     (Inl (PyExn RuntimeError ''All consensus models failed.''), health, w)"
  using assms by (simp add: consensus_synthesize_def Let_def)

lemma synthesize_some:
  assumes "successful_replies results \<noteq> []"
  shows "\<exists>c h2 w2. consensus_synthesize env prompt cfg health results w = (Inr c, h2, w2)
     \<and> individual c = results \<and> model_count c = length (successful_replies results)
     \<and> (case fst (auto_route env (synthesis_prompt env prompt (successful_replies results))
                    None (Some ''T2'') cfg health w) of
           Inr routed \<Rightarrow> merged c = r_response routed
         | Inl exc \<Rightarrow> merged c = PStr (concatenated_answers env (successful_replies results)))"
proof -
  obtain res h2 d w2 where r: "auto_route env (synthesis_prompt env prompt (successful_replies results))
      None (Some ''T2'') cfg health w = (res, h2, d, w2)"
    by (metis surj_pair)
  show ?thesis
  proof (cases res)
    case (Inl exc)
    with assms r show ?thesis by (simp add: consensus_synthesize_def Let_def)
  next
    case (Inr routed)
    with assms r show ?thesis by (simp add: consensus_synthesize_def Let_def)
  qed
qed

lemma successful_replies_empty:
  "successful_replies results = [] \<longleftrightarrow> (\<forall>r \<in> set results. \<not> truthy (m_response r))"
  by (simp add: successful_replies_def filter_empty_conv)

lemma gather_replies:
  assumes "consensus_gather env prompt chosen system max_workers call_timeout cfg health w = (Inr results, health1, w1)"
  shows "\<exists>u w0 replies. refresh_opt env health w = (Inr u, health1, w0)
     \<and> run_tasks (call_entry env cfg health1 (build_messages system prompt))
          (case chosen of None \<Rightarrow> default_models cfg | Some l \<Rightarrow> l) w0 = (replies, w1)
     \<and> mset results = mset replies"
proof -
  let ?ms = "case chosen of None \<Rightarrow> default_models cfg | Some l \<Rightarrow> l"
  obtain rr h0 w0 where rf: "refresh_opt env health w = (rr, h0, w0)" by (metis surj_pair)
  obtain futs w2 where p: "pool_submit_all env (call_entry env cfg h0 (build_messages system prompt)) ?ms w0 = (futs, w2)"
    by (metis surj_pair)
  from assms rf p obtain u where u: "rr = Inr u" and h: "h0 = health1" and w: "w2 = w1"
    and a: "as_completed (float_add call_timeout 10) futs = Inr results"
    by (cases rr) (auto simp: consensus_gather_def Let_def split: if_splits)
  from pool_submit_all_values [OF p] obtain replies
    where r: "run_tasks (call_entry env cfg h0 (build_messages system prompt)) ?ms w0 = (replies, w2)"
      and m: "map fst futs = replies" by blast
  from a have "results = map fst (sort_key snd futs)"
    by (auto simp: as_completed_def split: if_splits)
  then have "mset results = mset (map fst futs)" by simp
  with m have "mset results = mset replies" by simp
  with rf u h w r show ?thesis by auto
qed

text \<open>
  Claim C3. A reply is successful when its response is true in a condition, that is
  neither \<open>None\<close> nor empty. Once the replies of the dispatched calls are gathered (each
  call has its reply in the list), \<open>consensus\<close> raises the error \<open>All consensus models
  failed.\<close> exactly when no reply is successful. Otherwise it returns a result that holds
  all replies and the number of successful ones; the synthesis prompt contains the
  question and every successful answer and goes through \<open>auto_route\<close> with the tier T2
  forced; the merged answer is the response of that route, or, when that route raises,
  the labelled successful answers joined by the separator. No exception of the synthesis
  route leaves \<open>consensus\<close>.
\<close>

theorem consensus_synthesis:
  assumes gathered: "consensus_gather env prompt chosen system max_workers call_timeout cfg health w
      = (Inr results, health1, w1)"
  shows "(\<exists>u w0 replies. refresh_opt env health w = (Inr u, health1, w0)
           \<and> run_tasks (call_entry env cfg health1 (build_messages system prompt))
                (case chosen of None \<Rightarrow> default_models cfg | Some l \<Rightarrow> l) w0 = (replies, w1)
           \<and> mset results = mset replies)
     \<and> set (successful_replies results) = {r \<in> set results. truthy (m_response r)}
     \<and> ((\<exists>h2 w2. consensus env prompt chosen system max_workers call_timeout cfg health w
             = (Inl (PyExn RuntimeError ''All consensus models failed.''), h2, w2))
          \<longleftrightarrow> successful_replies results = [])
     \<and> (successful_replies results \<noteq> [] \<longrightarrow>
          (\<exists>c h2 w2. consensus env prompt chosen system max_workers call_timeout cfg health w
               = (Inr c, h2, w2)
             \<and> individual c = results \<and> model_count c = length (successful_replies results)
             \<and> (case fst (auto_route env (synthesis_prompt env prompt (successful_replies results))
                            None (Some ''T2'') cfg health1 w1) of
                   Inr routed \<Rightarrow> merged c = r_response routed
                 | Inl exc \<Rightarrow>
                     merged c = PStr (join ([CHR 0x0A, CHR 0x0A] @ ''---'' @ [CHR 0x0A, CHR 0x0A])
                       (map (\<lambda>r. ''['' @ m_model r @ '']'' @ [CHR 0x0A] @ py_str env (m_response r))
                          (successful_replies results))))))
     \<and> sublist prompt (synthesis_prompt env prompt (successful_replies results))
     \<and> (\<forall>r \<in> set (successful_replies results).
           sublist (py_str env (m_response r))
             (synthesis_prompt env prompt (successful_replies results)))"
proof (intro conjI)
  from gathered show "\<exists>u w0 replies. refresh_opt env health w = (Inr u, health1, w0)
           \<and> run_tasks (call_entry env cfg health1 (build_messages system prompt))
                (case chosen of None \<Rightarrow> default_models cfg | Some l \<Rightarrow> l) w0 = (replies, w1)
           \<and> mset results = mset replies"
    by (rule gather_replies)
next
  show "set (successful_replies results) = {r \<in> set results. truthy (m_response r)}"
    by (simp add: successful_replies_def)
next
  note c = consensus_after_gather [OF gathered]
  show "(\<exists>h2 w2. consensus env prompt chosen system max_workers call_timeout cfg health w
             = (Inl (PyExn RuntimeError ''All consensus models failed.''), h2, w2))
          \<longleftrightarrow> successful_replies results = []"
  proof
    assume "successful_replies results = []"
    then show "\<exists>h2 w2. consensus env prompt chosen system max_workers call_timeout cfg health w
             = (Inl (PyExn RuntimeError ''All consensus models failed.''), h2, w2)"
      unfolding c by (simp add: synthesize_none)
  next
    assume raised: "\<exists>h2 w2. consensus env prompt chosen system max_workers call_timeout cfg health w
             = (Inl (PyExn RuntimeError ''All consensus models failed.''), h2, w2)"
    show "successful_replies results = []"
    proof (rule ccontr)
      assume "successful_replies results \<noteq> []"
      from synthesize_some [OF this, of env prompt cfg health1 w1] raised
      show False unfolding c by auto
    qed
  qed
next
  show "successful_replies results \<noteq> [] \<longrightarrow>
          (\<exists>c h2 w2. consensus env prompt chosen system max_workers call_timeout cfg health w
               = (Inr c, h2, w2)
             \<and> individual c = results \<and> model_count c = length (successful_replies results)
             \<and> (case fst (auto_route env (synthesis_prompt env prompt (successful_replies results))
                            None (Some ''T2'') cfg health1 w1) of
                   Inr routed \<Rightarrow> merged c = r_response routed
                 | Inl exc \<Rightarrow>
                     merged c = PStr (join ([CHR 0x0A, CHR 0x0A] @ ''---'' @ [CHR 0x0A, CHR 0x0A])
                       (map (\<lambda>r. ''['' @ m_model r @ '']'' @ [CHR 0x0A] @ py_str env (m_response r))
                          (successful_replies results)))))"
  proof
    assume "successful_replies results \<noteq> []"
    from synthesize_some [OF this, of env prompt cfg health1 w1]
    show "\<exists>c h2 w2. consensus env prompt chosen system max_workers call_timeout cfg health w
               = (Inr c, h2, w2)
             \<and> individual c = results \<and> model_count c = length (successful_replies results)
             \<and> (case fst (auto_route env (synthesis_prompt env prompt (successful_replies results))
                            None (Some ''T2'') cfg health1 w1) of
                   Inr routed \<Rightarrow> merged c = r_response routed
                 | Inl exc \<Rightarrow>
                     merged c = PStr (join ([CHR 0x0A, CHR 0x0A] @ ''---'' @ [CHR 0x0A, CHR 0x0A])
                       (map (\<lambda>r. ''['' @ m_model r @ '']'' @ [CHR 0x0A] @ py_str env (m_response r))
                          (successful_replies results))))"
      unfolding consensus_after_gather [OF gathered] concatenated_answers_def
        labelled_answer_def [abs_def] .
  qed
next
  show "sublist prompt (synthesis_prompt env prompt (successful_replies results))"
    by (rule synthesis_prompt_question)
next
  show "\<forall>r \<in> set (successful_replies results).
           sublist (py_str env (m_response r))
             (synthesis_prompt env prompt (successful_replies results))"
    by (simp add: synthesis_prompt_answer)
qed

text \<open>
  The theorem where only the deep model answers: one successful reply out of three, the
  synthesis route over \<open>power\<close> and \<open>fast\<close> fails, and the merged answer is the labelled
  answer of the deep model.
\<close>

lemma gather_deep_answers:
  "consensus_gather env_deep_answers ''Hi'' None None 5 90 cfg_three None 0 =
     (Inr [\<lparr>m_model = ''fast-1'', m_response = PNone, m_latency_s = None,
             m_error = Some ''Connection refused''\<rparr>,
           \<lparr>m_model = ''power-1'', m_response = PNone, m_latency_s = None,
             m_error = Some ''Connection refused''\<rparr>,
           \<lparr>m_model = ''deep-1'', m_response = PStr ''deep answer'', m_latency_s = Some 1,
             m_error = None\<rparr>], None, 3)"
  by (simp add: gather_defs route_defs world_defs input_defs env_deep_answers_def)

theorem consensus_synthesis_witness:
  "consensus_gather env_deep_answers ''Hi'' None None 5 90 cfg_three None 0 =
     (Inr [\<lparr>m_model = ''fast-1'', m_response = PNone, m_latency_s = None,
             m_error = Some ''Connection refused''\<rparr>,
           \<lparr>m_model = ''power-1'', m_response = PNone, m_latency_s = None,
             m_error = Some ''Connection refused''\<rparr>,
           \<lparr>m_model = ''deep-1'', m_response = PStr ''deep answer'', m_latency_s = Some 1,
             m_error = None\<rparr>], None, 3)
   \<and> consensus env_deep_answers ''Hi'' None None 5 90 cfg_three None 0 =
     (Inr \<lparr>merged = PStr (''[deep-1]'' @ [CHR 0x0A] @ ''deep answer''),
           individual =
             [\<lparr>m_model = ''fast-1'', m_response = PNone, m_latency_s = None,
               m_error = Some ''Connection refused''\<rparr>,
              \<lparr>m_model = ''power-1'', m_response = PNone, m_latency_s = None,
               m_error = Some ''Connection refused''\<rparr>,
              \<lparr>m_model = ''deep-1'', m_response = PStr ''deep answer'', m_latency_s = Some 1,
               m_error = None\<rparr>],
           model_count = 1\<rparr>, None, 5)
   \<and> sublist ''Hi'' (synthesis_prompt env_deep_answers ''Hi''
        [\<lparr>m_model = ''deep-1'', m_response = PStr ''deep answer'', m_latency_s = Some 1,
          m_error = None\<rparr>])
   \<and> sublist ''deep answer'' (synthesis_prompt env_deep_answers ''Hi''
        [\<lparr>m_model = ''deep-1'', m_response = PStr ''deep answer'', m_latency_s = Some 1,
          m_error = None\<rparr>])"
proof -
  let ?results = "[\<lparr>m_model = ''fast-1'', m_response = PNone, m_latency_s = None,
             m_error = Some ''Connection refused''\<rparr>,
           \<lparr>m_model = ''power-1'', m_response = PNone, m_latency_s = None,
             m_error = Some ''Connection refused''\<rparr>,
           \<lparr>m_model = ''deep-1'', m_response = PStr ''deep answer'', m_latency_s = Some 1,
             m_error = None\<rparr>]"
  let ?deep = "\<lparr>m_model = ''deep-1'', m_response = PStr ''deep answer'', m_latency_s = Some 1,
             m_error = None\<rparr>"
  have s: "successful_replies ?results = [?deep]"
    by (simp add: successful_replies_def)
  note t = consensus_synthesis [OF gather_deep_answers]
  from t have "sublist ''Hi'' (synthesis_prompt env_deep_answers ''Hi'' (successful_replies ?results))"
    by (rule conjunct2 [THEN conjunct2, THEN conjunct2, THEN conjunct2, THEN conjunct1])
  then have q: "sublist ''Hi'' (synthesis_prompt env_deep_answers ''Hi'' [?deep])"
    unfolding s .
  from t have "\<forall>r \<in> set (successful_replies ?results).
      sublist (py_str env_deep_answers (m_response r))
        (synthesis_prompt env_deep_answers ''Hi'' (successful_replies ?results))"
    by (rule conjunct2 [THEN conjunct2, THEN conjunct2, THEN conjunct2, THEN conjunct2])
  then have a: "sublist ''deep answer'' (synthesis_prompt env_deep_answers ''Hi'' [?deep])"
    unfolding s by (simp add: py_str_def)
  show ?thesis
    by (intro conjI gather_deep_answers consensus_deep_answers q a)
qed

text \<open>
  Without the condition that the replies are gathered the claim fails: both calls are
  refused, so that no reply is successful, but the second call is not done within 100
  seconds and \<open>consensus\<close> raises a \<open>TimeoutError\<close>, not the error \<open>All consensus models
  failed.\<close>
\<close>

theorem consensus_all_failed_late_counterexample:
  "default_models cfg_fast_deep = [m_fast, m_deep]
   \<and> run_tasks (call_entry env_slow_refusing cfg_fast_deep None (build_messages None ''Hi''))
        [m_fast, m_deep] 0 =
       ([\<lparr>m_model = ''fast-1'', m_response = PNone, m_latency_s = None,
          m_error = Some ''Connection refused''\<rparr>,
         \<lparr>m_model = ''deep-1'', m_response = PNone, m_latency_s = None,
          m_error = Some ''Connection refused''\<rparr>], 2)
   \<and> done_after env_slow_refusing 0 1 = 110
   \<and> consensus env_slow_refusing ''Hi'' None None 5 90 cfg_fast_deep None 0 =
       (Inl (PyExn TimeoutError ''1 (of 2) futures unfinished''), None, 2)"
proof -
  have m: "default_models cfg_fast_deep = [m_fast, m_deep]"
    by (simp add: default_models_def get_tier_models_def cfg_fast_deep_def input_defs)
  have r: "run_tasks (call_entry env_slow_refusing cfg_fast_deep None (build_messages None ''Hi''))
        [m_fast, m_deep] 0 =
       ([\<lparr>m_model = ''fast-1'', m_response = PNone, m_latency_s = None,
          m_error = Some ''Connection refused''\<rparr>,
         \<lparr>m_model = ''deep-1'', m_response = PNone, m_latency_s = None,
          m_error = Some ''Connection refused''\<rparr>], 2)"
    by (simp add: gather_defs route_defs world_defs input_defs env_slow_refusing_def
          cfg_fast_deep_def)
  have d: "done_after env_slow_refusing 0 1 = 110"
    by (simp add: env_slow_refusing_def env_of_def)
  have c: "consensus env_slow_refusing ''Hi'' None None 5 90 cfg_fast_deep None 0 =
       (Inl (PyExn TimeoutError ''1 (of 2) futures unfinished''), None, 2)"
    by (simp add: gather_defs route_defs world_defs input_defs env_slow_refusing_def
          cfg_fast_deep_def show_nat_digits)
  show ?thesis by (intro conjI m r d c)
qed

lemma as_completed_unfinished:
  assumes "f \<in> set futs" and "timeout < snd f"
  shows "\<exists>msg. as_completed timeout futs = Inl (PyExn TimeoutError msg)"
proof -
  from assms have "\<not> (\<forall>f \<in> set futs. snd f \<le> timeout)" by force
  then show ?thesis by (simp add: as_completed_def)
qed

lemma pool_submit_all_nth:
  assumes "pool_submit_all env f xs w = (futs, w1)" and "i < length xs"
  shows "\<exists>r. (r, done_after env w i) \<in> set futs"
proof -
  obtain rs w2 where r: "run_tasks f xs w = (rs, w2)" by (metis surj_pair)
  then have len: "length rs = length xs" by (rule run_tasks_length)
  from r assms(1) have futs: "futs = zip rs (map (done_after env w) [0..<length xs])"
    by (simp add: pool_submit_all_def)
  from len assms(2) have "futs ! i = (rs ! i, done_after env w i)" and "i < length futs"
    unfolding futs by simp_all
  then have "(rs ! i, done_after env w i) \<in> set futs" by (metis nth_mem)
  then show ?thesis by blast
qed

lemma as_completed_all_done:
  assumes "as_completed timeout futs = Inr finished"
  shows "\<forall>t \<in> set (map snd futs). t \<le> timeout"
  using assms by (auto simp: as_completed_def split: if_splits)

lemma consensus_unfinished:
  assumes refreshed: "refresh_opt env health w = (Inr u, health1, w0)"
    and workers: "0 < max_workers"
    and dispatched: "i < length (case chosen of None \<Rightarrow> default_models cfg | Some l \<Rightarrow> l)"
    and unfinished: "float_add call_timeout 10 < done_after env w0 i"
  shows "\<exists>msg health2 w2.
     consensus env prompt chosen system max_workers call_timeout cfg health w
       = (Inl (PyExn TimeoutError msg), health2, w2)"
proof -
  let ?ms = "case chosen of None \<Rightarrow> default_models cfg | Some l \<Rightarrow> l"
  obtain futs w2 where p: "pool_submit_all env
      (call_entry env cfg health1 (build_messages system prompt)) ?ms w0 = (futs, w2)"
    by (metis surj_pair)
  from pool_submit_all_nth [OF p dispatched] obtain r
    where "(r, done_after env w0 i) \<in> set futs" by blast
  with unfinished obtain msg
    where "as_completed (float_add call_timeout 10) futs = Inl (PyExn TimeoutError msg)"
    using as_completed_unfinished [of "(r, done_after env w0 i)" futs "float_add call_timeout 10"] by auto
  with refreshed workers p
  have "consensus_gather env prompt chosen system max_workers call_timeout cfg health w
      = (Inl (PyExn TimeoutError msg), health1, w2)"
    by (simp add: consensus_gather_def Let_def)
  then have "consensus env prompt chosen system max_workers call_timeout cfg health w
      = (Inl (PyExn TimeoutError msg), health1, w2)"
    by (simp add: consensus_def)
  then show ?thesis by blast
qed

lemma consensus_returned:
  assumes "consensus env prompt chosen system max_workers call_timeout cfg health w = (Inr c, health2, w2)"
  shows "\<exists>results health1 w1.
     consensus_gather env prompt chosen system max_workers call_timeout cfg health w
       = (Inr results, health1, w1) \<and> individual c = results"
proof -
  obtain g health1 w1 where g: "consensus_gather env prompt chosen system max_workers call_timeout
      cfg health w = (g, health1, w1)"
    by (metis surj_pair)
  show ?thesis
  proof (cases g)
    case (Inl exc)
    with g assms show ?thesis by (simp add: consensus_def)
  next
    case (Inr results)
    with g assms have s: "consensus_synthesize env prompt cfg health1 results w1 = (Inr c, health2, w2)"
      by (simp add: consensus_def)
    have "individual c = results"
    proof (cases "successful_replies results = []")
      case True
      with s show ?thesis by (simp add: synthesize_none)
    next
      case False
      from synthesize_some [OF False, of env prompt cfg health1 w1] s show ?thesis by auto
    qed
    with g Inr show ?thesis by simp
  qed
qed

lemma gather_all_done:
  assumes gathered: "consensus_gather env prompt chosen system max_workers call_timeout cfg health w
      = (Inr results, health1, w1)"
    and refreshed: "refresh_opt env health w = (Inr u, health0, w0)"
  shows "\<forall>i < length (case chosen of None \<Rightarrow> default_models cfg | Some l \<Rightarrow> l).
     done_after env w0 i \<le> float_add call_timeout 10"
proof -
  let ?ms = "case chosen of None \<Rightarrow> default_models cfg | Some l \<Rightarrow> l"
  obtain futs w2 where p: "pool_submit_all env
      (call_entry env cfg health0 (build_messages system prompt)) ?ms w0 = (futs, w2)"
    by (metis surj_pair)
  from gathered refreshed p have a: "as_completed (float_add call_timeout 10) futs = Inr results"
    by (auto simp: consensus_gather_def Let_def split: if_splits)
  from pool_submit_all_values [OF p] have "map snd futs = map (done_after env w0) [0..<length ?ms]"
    by blast
  with as_completed_all_done [OF a] show ?thesis by auto
qed

text \<open>
  Claim C4, as amended. After the refresh, with a pool of at least one worker: when some
  dispatched call is not done within \<open>call_timeout + 10\<close> seconds, \<open>consensus\<close> raises the
  \<open>TimeoutError\<close> of \<open>as_completed\<close> and returns no result. When \<open>consensus\<close> returns a
  result, every dispatched call was done in time and the list \<open>individual\<close> holds the
  reply of every one of them.
\<close>

theorem consensus_deadline:
  assumes refreshed: "refresh_opt env health w = (Inr u, health1, w0)"
    and workers: "0 < max_workers"
  shows "((\<exists>i < length (case chosen of None \<Rightarrow> default_models cfg | Some l \<Rightarrow> l).
            float_add call_timeout 10 < done_after env w0 i) \<longrightarrow>
          (\<exists>msg health2 w2.
             consensus env prompt chosen system max_workers call_timeout cfg health w
               = (Inl (PyExn TimeoutError msg), health2, w2)))
     \<and> (\<forall>c health2 w2.
          consensus env prompt chosen system max_workers call_timeout cfg health w
            = (Inr c, health2, w2) \<longrightarrow>
          (\<forall>i < length (case chosen of None \<Rightarrow> default_models cfg | Some l \<Rightarrow> l).
             done_after env w0 i \<le> float_add call_timeout 10)
          \<and> (\<exists>replies w1.
                run_tasks (call_entry env cfg health1 (build_messages system prompt))
                  (case chosen of None \<Rightarrow> default_models cfg | Some l \<Rightarrow> l) w0 = (replies, w1)
                \<and> mset (individual c) = mset replies))"
proof (rule conjI, rule impI)
  assume "\<exists>i < length (case chosen of None \<Rightarrow> default_models cfg | Some l \<Rightarrow> l).
            float_add call_timeout 10 < done_after env w0 i"
  then obtain i where "i < length (case chosen of None \<Rightarrow> default_models cfg | Some l \<Rightarrow> l)"
    and "float_add call_timeout 10 < done_after env w0 i" by blast
  with refreshed workers
  show "\<exists>msg health2 w2.
             consensus env prompt chosen system max_workers call_timeout cfg health w
               = (Inl (PyExn TimeoutError msg), health2, w2)"
    by (rule consensus_unfinished)
next
  show "\<forall>c health2 w2.
          consensus env prompt chosen system max_workers call_timeout cfg health w
            = (Inr c, health2, w2) \<longrightarrow>
          (\<forall>i < length (case chosen of None \<Rightarrow> default_models cfg | Some l \<Rightarrow> l).
             done_after env w0 i \<le> float_add call_timeout 10)
          \<and> (\<exists>replies w1.
                run_tasks (call_entry env cfg health1 (build_messages system prompt))
                  (case chosen of None \<Rightarrow> default_models cfg | Some l \<Rightarrow> l) w0 = (replies, w1)
                \<and> mset (individual c) = mset replies)"
  proof (rule allI, rule allI, rule allI, rule impI, rule conjI)
  fix c health2 w2
  assume "consensus env prompt chosen system max_workers call_timeout cfg health w = (Inr c, health2, w2)"
  from consensus_returned [OF this] obtain results h1 w1
    where g: "consensus_gather env prompt chosen system max_workers call_timeout cfg health w
       = (Inr results, h1, w1)" and i: "individual c = results"
    by blast
  from gather_all_done [OF g refreshed]
  show "\<forall>i < length (case chosen of None \<Rightarrow> default_models cfg | Some l \<Rightarrow> l).
             done_after env w0 i \<le> float_add call_timeout 10" .
  from gather_replies [OF g] refreshed i
  show "\<exists>replies w1.
                run_tasks (call_entry env cfg health1 (build_messages system prompt))
                  (case chosen of None \<Rightarrow> default_models cfg | Some l \<Rightarrow> l) w0 = (replies, w1)
                \<and> mset (individual c) = mset replies"
    by auto
  qed
qed

text \<open>
  The theorem with a fast and a deep model, the call of the deep model done after 110
  seconds and the default \<open>call_timeout\<close> of 90 seconds.
\<close>

theorem consensus_deadline_witness:
  "refresh_opt env_slow_deep None 0 = (Inr (), None, 0)
   \<and> default_models cfg_fast_deep = [m_fast, m_deep]
   \<and> done_after env_slow_deep 0 1 = 110
   \<and> (\<exists>msg health2 w2.
        consensus env_slow_deep ''Hi'' None None 5 90 cfg_fast_deep None 0
          = (Inl (PyExn TimeoutError msg), health2, w2))"
proof -
  have r: "refresh_opt env_slow_deep None 0 = (Inr (), None, 0)"
    by (simp add: refresh_opt_def)
  have m: "default_models cfg_fast_deep = [m_fast, m_deep]"
    by (simp add: default_models_def get_tier_models_def cfg_fast_deep_def input_defs)
  have d1: "done_after env_slow_deep 0 1 = 110"
    by (simp add: env_slow_deep_def env_of_def)
  have w: "(0::int) < 5" by simp
  have "\<exists>i < length (case None of None \<Rightarrow> default_models cfg_fast_deep | Some l \<Rightarrow> l).
      float_add 90 10 < done_after env_slow_deep 0 i"
    by (rule exI [of _ 1]) (simp add: m env_slow_deep_def env_of_def deadline_values)
  with consensus_deadline [where chosen = None and cfg = cfg_fast_deep and call_timeout = 90
      and prompt = "''Hi''" and system = None, OF r w]
  have c: "\<exists>msg health2 w2.
        consensus env_slow_deep ''Hi'' None None 5 90 cfg_fast_deep None 0
          = (Inl (PyExn TimeoutError msg), health2, w2)"
    by blast
  show ?thesis by (intro conjI r m d1 c)
qed

text \<open>
  The claim as stated fails there: the call of the fast model is done after one second,
  the call of the deep model is not done after 100 seconds, and \<open>consensus\<close> raises
  instead of returning a result without the reply of the deep model.
\<close>

theorem consensus_unfinished_call_counterexample:
  "default_models cfg_fast_deep = [m_fast, m_deep]
   \<and> done_after env_slow_deep 0 0 = 1
   \<and> done_after env_slow_deep 0 1 = 110
   \<and> consensus env_slow_deep ''Hi'' None None 5 90 cfg_fast_deep None 0 =
       (Inl (PyExn TimeoutError ''1 (of 2) futures unfinished''), None, 2)"
proof -
  have m: "default_models cfg_fast_deep = [m_fast, m_deep]"
    by (simp add: default_models_def get_tier_models_def cfg_fast_deep_def input_defs)
  have d0: "done_after env_slow_deep 0 0 = 1" and d1: "done_after env_slow_deep 0 1 = 110"
    by (simp_all add: env_slow_deep_def env_of_def)
  show ?thesis by (intro conjI m d0 d1 consensus_slow_deep)
qed

section \<open>The pipeline\<close>

lemmas pipeline_defs = pipeline_def pipeline_enrich_def pipeline_generate_def pipeline_store_def
  knowledge_configured_def knowledge_search_def search_request_def knowledge_add_def
  format_context_def

lemma pipeline_store_down:
  "pipeline env_store_down ''Hi'' True True False None cfg_with_store None 0 =
     (Inr \<lparr>answer = PStr ''hello'', prompt_original = ''Hi'', prompt_enriched = ''Hi'',
           context_results_count = 0,
           model_info = PDict [(''model'', PStr ''fast-1''), (''tier'', PStr ''fast'')],
           total_latency_s = 1, stored = True\<rparr>, None, 3)"
  by (simp add: pipeline_defs route_defs world_defs input_defs env_store_down_def cfg_with_store_def
        classify_complexity_def default_deep_keywords_def lower_def lower_char_def is_space_def)

lemma knowledge_search_fails:
  assumes "search_fails env kurl query w"
  shows "knowledge_search env kurl query w = (PList [], snd (search_request env kurl query w))"
proof -
  obtain r w1 where s: "search_request env kurl query w = (r, w1)" by (metis surj_pair)
  show ?thesis
  proof (cases r)
    case (Inl exc)
    with s show ?thesis by (simp add: knowledge_search_def)
  next
    case (Inr data)
    with assms s have "\<not> is_list data" and "\<not> is_dict data"
      by (simp_all add: search_fails_def)
    then have "\<exists>exc. dict_get data ''results'' (PList [data]) = Inl exc"
      by (cases data) simp_all
    with Inr s \<open>\<not> is_list data\<close> show ?thesis
      by (auto simp: knowledge_search_def)
  qed
qed

lemma format_context_empty: "format_context env (PList []) = Inr []"
  by (simp add: format_context_def)

lemma pipeline_enrich_fails:
  assumes "knowledge_configured cfg = Some kurl" and "search_fails env kurl prompt w"
  shows "pipeline_enrich env prompt True cfg w
     = (Inr (PList [], prompt), snd (search_request env kurl prompt w))"
  using assms by (simp add: pipeline_enrich_def knowledge_search_fails format_context_empty)

text \<open>
  Claim C7. Let the refresh return, a knowledge store be configured and the search fail
  (the request raises, or the body is neither a list nor a dictionary). Then step 1 of
  \<open>pipeline\<close> with \<open>enrich\<close> set raises nothing and gives no context and the prompt
  unchanged; generation runs on the original prompt; when generation returns an answer,
  \<open>pipeline\<close> returns a result with that answer, the count 0 and the enriched prompt
  equal to the original one. \<open>pipeline\<close> raises only what generation raises.
\<close>

theorem pipeline_enrichment_failure:
  assumes refreshed: "refresh_opt env health w = (Inr u, health1, w1)"
    and store_url: "knowledge_configured cfg = Some kurl"
    and failing: "search_fails env kurl prompt w1"
  shows "pipeline_enrich env prompt True cfg w1
       = (Inr (PList [], prompt), snd (search_request env kurl prompt w1))
     \<and> (\<forall>ans info health2 w3.
          pipeline_generate env prompt use_consensus forced cfg health1
            (snd (search_request env kurl prompt w1)) = (Inr (ans, info), health2, w3) \<longrightarrow>
          pipeline env prompt True store use_consensus forced cfg health w =
            (Inr \<lparr>answer = ans, prompt_original = prompt, prompt_enriched = prompt,
                  context_results_count = 0, model_info = info,
                  total_latency_s =
                    py_round2 (float_sub (monotonic env w3)
                      (monotonic env (snd (search_request env kurl prompt w1)))),
                  stored = store\<rparr>,
             health2, pipeline_store env prompt store cfg ans info w3))
     \<and> (\<forall>exc health2 w3.
          pipeline_generate env prompt use_consensus forced cfg health1
            (snd (search_request env kurl prompt w1)) = (Inl exc, health2, w3) \<longrightarrow>
          pipeline env prompt True store use_consensus forced cfg health w = (Inl exc, health2, w3))"
proof -
  let ?w2 = "snd (search_request env kurl prompt w1)"
  from store_url failing have e: "pipeline_enrich env prompt True cfg w1 = (Inr (PList [], prompt), ?w2)"
    by (rule pipeline_enrich_fails)
  have ok: "pipeline env prompt True store use_consensus forced cfg health w =
            (Inr \<lparr>answer = ans, prompt_original = prompt, prompt_enriched = prompt,
                  context_results_count = 0, model_info = info,
                  total_latency_s = py_round2 (float_sub (monotonic env w3) (monotonic env ?w2)),
                  stored = store\<rparr>,
             health2, pipeline_store env prompt store cfg ans info w3)"
    if "pipeline_generate env prompt use_consensus forced cfg health1 ?w2 = (Inr (ans, info), health2, w3)"
    for ans info health2 w3
    using refreshed e that by (simp add: pipeline_def Let_def)
  have bad: "pipeline env prompt True store use_consensus forced cfg health w = (Inl exc, health2, w3)"
    if "pipeline_generate env prompt use_consensus forced cfg health1 ?w2 = (Inl exc, health2, w3)"
    for exc health2 w3
    using refreshed e that by (simp add: pipeline_def Let_def)
  from e ok bad show ?thesis by blast
qed

text \<open>The theorem where every model answers and the knowledge store refuses the connection.\<close>

lemma store_down_facts:
  "refresh_opt env_store_down None 0 = (Inr (), None, 0)"
  "knowledge_configured cfg_with_store = Some ''http://localhost:8080/api/v1''"
  "search_request env_store_down ''http://localhost:8080/api/v1'' ''Hi'' 0 = (Inl connection_refused, 1)"
  "pipeline_generate env_store_down ''Hi'' False None cfg_with_store None 1 =
     (Inr (PStr ''hello'', PDict [(''model'', PStr ''fast-1''), (''tier'', PStr ''fast'')]), None, 2)"
  "pipeline_store env_store_down ''Hi'' True cfg_with_store (PStr ''hello'')
     (PDict [(''model'', PStr ''fast-1''), (''tier'', PStr ''fast'')]) 2 = 3"
  by (simp_all add: pipeline_defs route_defs world_defs input_defs env_store_down_def cfg_with_store_def
        classify_complexity_def default_deep_keywords_def lower_def lower_char_def is_space_def)

theorem pipeline_enrichment_failure_witness:
  "refresh_opt env_store_down None 0 = (Inr (), None, 0)
   \<and> knowledge_configured cfg_with_store = Some ''http://localhost:8080/api/v1''
   \<and> search_fails env_store_down ''http://localhost:8080/api/v1'' ''Hi'' 0
   \<and> pipeline_enrich env_store_down ''Hi'' True cfg_with_store 0 = (Inr (PList [], ''Hi''), 1)
   \<and> pipeline env_store_down ''Hi'' True True False None cfg_with_store None 0 =
     (Inr \<lparr>answer = PStr ''hello'', prompt_original = ''Hi'', prompt_enriched = ''Hi'',
           context_results_count = 0,
           model_info = PDict [(''model'', PStr ''fast-1''), (''tier'', PStr ''fast'')],
           total_latency_s = 1, stored = True\<rparr>, None, 3)"
proof -
  have f: "search_fails env_store_down ''http://localhost:8080/api/v1'' ''Hi'' 0"
    by (simp add: search_fails_def store_down_facts(3))
  note t = pipeline_enrichment_failure [OF store_down_facts(1) store_down_facts(2) f,
      of False None True]
  from t have e: "pipeline_enrich env_store_down ''Hi'' True cfg_with_store 0 = (Inr (PList [], ''Hi''), 1)"
    by (simp add: store_down_facts(3))
  from t have "\<forall>ans info health2 w3.
      pipeline_generate env_store_down ''Hi'' False None cfg_with_store None
        (snd (search_request env_store_down ''http://localhost:8080/api/v1'' ''Hi'' 0))
        = (Inr (ans, info), health2, w3) \<longrightarrow>
      pipeline env_store_down ''Hi'' True True False None cfg_with_store None 0 =
        (Inr \<lparr>answer = ans, prompt_original = ''Hi'', prompt_enriched = ''Hi'',
              context_results_count = 0, model_info = info,
              total_latency_s = py_round2 (float_sub (monotonic env_store_down w3)
                (monotonic env_store_down
                  (snd (search_request env_store_down ''http://localhost:8080/api/v1'' ''Hi'' 0)))),
              stored = True\<rparr>,
         health2, pipeline_store env_store_down ''Hi'' True cfg_with_store ans info w3)"
    by (rule conjunct2 [THEN conjunct1])
  then have "pipeline env_store_down ''Hi'' True True False None cfg_with_store None 0 =
        (Inr \<lparr>answer = PStr ''hello'', prompt_original = ''Hi'', prompt_enriched = ''Hi'',
              context_results_count = 0,
              model_info = PDict [(''model'', PStr ''fast-1''), (''tier'', PStr ''fast'')],
              total_latency_s = py_round2 (float_sub (monotonic env_store_down 2) (monotonic env_store_down 1)),
              stored = True\<rparr>,
         None, 3)"
    using store_down_facts(4) store_down_facts(5) by (simp add: store_down_facts(3))
  then have p: "pipeline env_store_down ''Hi'' True True False None cfg_with_store None 0 =
     (Inr \<lparr>answer = PStr ''hello'', prompt_original = ''Hi'', prompt_enriched = ''Hi'',
           context_results_count = 0,
           model_info = PDict [(''model'', PStr ''fast-1''), (''tier'', PStr ''fast'')],
           total_latency_s = 1, stored = True\<rparr>, None, 3)"
    by (simp add: env_store_down_def env_of_def latency_values)
  show ?thesis
    by (intro conjI store_down_facts(1) store_down_facts(2) f e p)
qed


end
